(* ===== verification/Prelude.thy ===== *)
theory Prelude
  imports Main "HOL-Library.Word"
begin

text \<open>
  Shared material of the development: the collections its proofs are driven by, generic lemmas on
  rows of a table and on maps with an iteration order, and the interface every keyed table of the
  program offers.  Nothing in this theory is specific to one component.
\<close>

section \<open>Fact collections\<close>

named_theorems db_simps \<open>how a statement on the store changes each table\<close>
named_theorems json_simps \<open>decoding of what the program encodes\<close>
named_theorems handler_simps \<open>branches of the request handlers\<close>

lemmas result_splits = option.splits sum.splits prod.splits if_splits

section \<open>Results\<close>

text \<open>A Go function returning \<open>(T, error)\<close> is a sum: \<open>Inl\<close> the error, \<open>Inr\<close> the value.\<close>

definition is_ok :: "'e + 'a \<Rightarrow> bool" where
  "is_ok r = (case r of Inl _ \<Rightarrow> False | Inr _ \<Rightarrow> True)"

lemma is_ok_simps [simp]: "is_ok (Inr v)" "\<not> is_ok (Inl e)"
  by (simp_all add: is_ok_def)

lemma is_okE: "is_ok r \<Longrightarrow> (\<And>v. r = Inr v \<Longrightarrow> P) \<Longrightarrow> P"
  by (cases r) auto

section \<open>Lists of rows\<close>

lemma find_None_iff_all: "find P xs = None \<longleftrightarrow> (\<forall>x \<in> set xs. \<not> P x)"
  by (auto simp: find_None_iff)

lemma find_SomeD: "find P xs = Some x \<Longrightarrow> x \<in> set xs \<and> P x"
  by (induction xs) (auto split: if_splits)

lemma find_append: "find P (xs @ ys) = (case find P xs of None \<Rightarrow> find P ys | Some x \<Rightarrow> Some x)"
  by (induction xs) auto

lemma find_key_unique:
  "distinct (map key xs) \<Longrightarrow> x \<in> set xs \<Longrightarrow> find (\<lambda>r. key r = key x) xs = Some x"
  by (induction xs) (auto simp: image_iff)

lemma find_filter_keep:
  "(\<And>x. x \<in> set xs \<Longrightarrow> P x \<Longrightarrow> Q x) \<Longrightarrow> find P (filter Q xs) = find P xs"
  by (induction xs) auto

lemma find_map_frame:
  "(\<And>x. P (f x) \<longleftrightarrow> P x) \<Longrightarrow> find P (map f xs) = map_option f (find P xs)"
  by (induction xs) auto

lemma distinct_map_filter: "distinct (map f xs) \<Longrightarrow> distinct (map f (filter P xs))"
  by (induction xs) auto

section \<open>Keyed tables\<close>

text \<open>
  A table is the list of its rows; a statement selects rows by predicate.  \<open>key\<close> is the primary
  key.
\<close>

definition rows_where :: "('r \<Rightarrow> bool) \<Rightarrow> 'r list \<Rightarrow> 'r list" where
  "rows_where P t = filter P t"

definition update_where :: "('r \<Rightarrow> bool) \<Rightarrow> ('r \<Rightarrow> 'r) \<Rightarrow> 'r list \<Rightarrow> 'r list" where
  "update_where P f t = map (\<lambda>r. if P r then f r else r) t"

definition delete_where :: "('r \<Rightarrow> bool) \<Rightarrow> 'r list \<Rightarrow> 'r list" where
  "delete_where P t = filter (\<lambda>r. \<not> P r) t"

definition pk_ok :: "('r \<Rightarrow> 'k) \<Rightarrow> 'r list \<Rightarrow> bool" where
  "pk_ok key t = distinct (map key t)"

lemma update_where_Nil [simp]: "update_where P f [] = []"
  by (simp add: update_where_def)

lemma delete_where_Nil [simp]: "delete_where P [] = []"
  by (simp add: delete_where_def)

lemma length_update_where [simp]: "length (update_where P f t) = length t"
  by (simp add: update_where_def)

lemma set_update_where: "set (update_where P f t) = {r \<in> set t. \<not> P r} \<union> f ` {r \<in> set t. P r}"
  by (auto simp: update_where_def)

lemma ball_update_where:
  "(\<forall>x \<in> set (update_where P f t). Q x) \<longleftrightarrow> (\<forall>x \<in> set t. Q (if P x then f x else x))"
  by (auto simp: update_where_def)

lemma set_delete_where [simp]: "set (delete_where P t) = {r \<in> set t. \<not> P r}"
  by (simp add: delete_where_def)

lemma set_rows_where [simp]: "set (rows_where P t) = {r \<in> set t. P r}"
  by (simp add: rows_where_def)

lemma map_key_update_where:
  "(\<And>r. key (f r) = key r) \<Longrightarrow> map key (update_where P f t) = map key t"
  by (simp add: update_where_def)

lemma pk_ok_Nil [simp]: "pk_ok key []"
  by (simp add: pk_ok_def)

lemma pk_ok_append1: "pk_ok key (t @ [r]) \<longleftrightarrow> pk_ok key t \<and> key r \<notin> key ` set t"
  by (simp add: pk_ok_def)

lemma pk_ok_update_where:
  "(\<And>r. key (f r) = key r) \<Longrightarrow> pk_ok key (update_where P f t) = pk_ok key t"
  by (simp add: pk_ok_def map_key_update_where)

lemma pk_ok_delete_where: "pk_ok key t \<Longrightarrow> pk_ok key (delete_where P t)"
  by (simp add: pk_ok_def delete_where_def distinct_map_filter)

lemma find_update_where_key:
  "(\<And>r. key (f r) = key r) \<Longrightarrow>
   find (\<lambda>r. key r = k) (update_where (\<lambda>r. key r = k') f t) =
     map_option (\<lambda>r. if k = k' then f r else r) (find (\<lambda>r. key r = k) t)"
  by (induction t) (auto simp: update_where_def)

lemma find_delete_where_key:
  "find (\<lambda>r. key r = k) (delete_where (\<lambda>r. key r = k') t) =
     (if k = k' then None else find (\<lambda>r. key r = k) t)"
  by (induction t) (auto simp: delete_where_def)

section \<open>Maps with an iteration order\<close>

text \<open>
  Ranging over a Go map visits every key once, in an order the language leaves open.  An operation
  that ranges over a map takes that order as the list \<open>ks\<close> of keys; \<open>ranges_over ks m\<close> says that it
  is one of the orders the language allows.
\<close>

definition ranges_over :: "'k list \<Rightarrow> ('k \<rightharpoonup> 'v) \<Rightarrow> bool" where
  "ranges_over ks m \<longleftrightarrow> distinct ks \<and> set ks = dom m"

definition map_values :: "'k list \<Rightarrow> ('k \<rightharpoonup> 'v) \<Rightarrow> 'v list" where
  "map_values ks m = List.map_filter m ks"

lemma set_map_values: "set (map_values ks m) = {v. \<exists>k \<in> set ks. m k = Some v}"
  unfolding map_values_def by (induction ks) (auto simp: map_filter_simps split: option.splits)

lemma set_map_values_ran: "ranges_over ks m \<Longrightarrow> set (map_values ks m) = ran m"
  by (auto simp: set_map_values ranges_over_def ran_def)

lemma length_map_values: "set ks \<subseteq> dom m \<Longrightarrow> length (map_values ks m) = length ks"
  unfolding map_values_def by (induction ks) (auto simp: map_filter_simps split: option.splits)

lemma ranges_over_card: "ranges_over ks m \<Longrightarrow> length ks = card (dom m)"
  by (metis distinct_card ranges_over_def)

end
