(* ===== verification/GoStd.thy ===== *)
theory GoStd
  imports Prelude
begin

text \<open>
  What the program uses of the Go language and its standard library: 64-bit integer arithmetic,
  \<open>time.Time\<close> and \<open>time.Duration\<close>, \<open>strings.HasPrefix\<close> and \<open>strings.SplitN\<close>, \<open>strconv.Atoi\<close> and
  the \<open>%d\<close> and \<open>%x\<close> verbs of \<open>fmt\<close>.  Strings are lists of bytes, as in Go.
\<close>

section \<open>64-bit integers\<close>

text \<open>
  \<open>int\<close>, \<open>int64\<close> and \<open>time.Duration\<close> are 64-bit two's complement.  Values are \<open>int\<close>, and every
  arithmetic operation of the program is followed by \<open>wrap64\<close>.
\<close>

definition wrap64 :: "int \<Rightarrow> int" where
  "wrap64 n = (n + 2 ^ 63) mod 2 ^ 64 - 2 ^ 63"

definition in_int64 :: "int \<Rightarrow> bool" where
  "in_int64 n \<longleftrightarrow> - (2 ^ 63) \<le> n \<and> n < 2 ^ 63"

definition in_int32 :: "int \<Rightarrow> bool" where
  "in_int32 n \<longleftrightarrow> - (2 ^ 31) \<le> n \<and> n < 2 ^ 31"

lemma wrap64_range: "in_int64 (wrap64 n)"
proof -
  have "0 \<le> (n + 2 ^ 63) mod 2 ^ 64" "(n + 2 ^ 63) mod 2 ^ 64 < (2::int) ^ 64"
    by simp_all
  then show ?thesis by (simp add: wrap64_def in_int64_def)
qed

lemma wrap64_id: "in_int64 n \<Longrightarrow> wrap64 n = n"
  by (simp add: wrap64_def in_int64_def)

lemma in_int32_int64: "in_int32 n \<Longrightarrow> in_int64 n"
  by (simp add: in_int32_def in_int64_def)

lemma wrap64_is_sint: "wrap64 n = sint (word_of_int n :: 64 word)"
proof -
  have "take_bit 64 (n + 2 ^ 63) - 2 ^ 63 = signed_take_bit 63 n"
    by (simp add: signed_take_bit_eq_take_bit_shift add.commute)
  then show ?thesis
    by (simp add: wrap64_def take_bit_eq_mod sint_sbintrunc')
qed

section \<open>Time\<close>

text \<open>
  A \<open>time.Duration\<close> counts nanoseconds.  A \<open>time.Time\<close> is the number of nanoseconds since the
  first of January of year 1, which is what the library's representation (64-bit seconds since
  that instant and a nanosecond part) stands for.
\<close>

definition second :: int where "second = 1000000000"

definition unix_to_internal :: int where "unix_to_internal = 62135596800"

definition time_unix :: "int \<Rightarrow> int" where
  "time_unix sec = wrap64 (sec + unix_to_internal) * second"

definition unix_of :: "int \<Rightarrow> int" where
  "unix_of t = t div second - unix_to_internal"

definition unix_milli :: "int \<Rightarrow> int" where
  "unix_milli t = t div 1000000 - unix_to_internal * 1000"

text \<open>\<open>Duration.Milliseconds\<close>: division in Go truncates towards zero.\<close>

definition milliseconds :: "int \<Rightarrow> int" where
  "milliseconds d = (if 0 \<le> d then d div 1000000 else - (- d div 1000000))"

text \<open>\<open>MarshalJSON\<close> refuses a time whose year is not one of 0 to 9999.\<close>

definition json_year :: "int \<Rightarrow> bool" where
  "json_year t \<longleftrightarrow> - 366 * 86400 * second \<le> t \<and> t < 3652059 * 86400 * second"

text \<open>\<open>Time.Sub\<close> saturates at the least and the greatest duration.\<close>

definition time_sub :: "int \<Rightarrow> int \<Rightarrow> int" where
  "time_sub t u = max (- (2 ^ 63)) (min (2 ^ 63 - 1) (t - u))"

lemma time_sub_le_iff: "- (2 ^ 63) \<le> d \<Longrightarrow> d < 2 ^ 63 - 1 \<Longrightarrow> time_sub t u \<le> d \<longleftrightarrow> t - u \<le> d"
  by (auto simp: time_sub_def)

section \<open>Strings\<close>

definition has_prefix :: "string \<Rightarrow> string \<Rightarrow> bool" where
  "has_prefix s p \<longleftrightarrow> take (length p) s = p"

lemma has_prefix_append [simp]: "has_prefix (p @ s) p"
  by (simp add: has_prefix_def)

lemma has_prefixE: "has_prefix s p \<Longrightarrow> (\<And>r. s = p @ r \<Longrightarrow> P) \<Longrightarrow> P"
  by (metis append_take_drop_id has_prefix_def)

text \<open>\<open>strings.SplitN(s, sep, 2)\<close> for a one-character separator: one part or two.\<close>

fun split_n2 :: "char \<Rightarrow> string \<Rightarrow> string list" where
  "split_n2 c s = (if c \<in> set s then [takeWhile (\<lambda>x. x \<noteq> c) s, tl (dropWhile (\<lambda>x. x \<noteq> c) s)] else [s])"

declare split_n2.simps [simp del]

lemma split_n2_two: "c \<notin> set a \<Longrightarrow> split_n2 c (a @ c # b) = [a, b]"
proof -
  assume "c \<notin> set a"
  then have "\<forall>x \<in> set a. x \<noteq> c" by auto
  then show ?thesis
    by (simp add: split_n2.simps takeWhile_append2 dropWhile_append2)
qed

lemma split_n2_eq_two:
  "split_n2 c s = [a, b] \<longleftrightarrow> s = a @ c # b \<and> c \<notin> set a"
proof
  assume l: "split_n2 c s = [a, b]"
  then have c: "c \<in> set s" and a: "a = takeWhile (\<lambda>x. x \<noteq> c) s"
    and b: "b = tl (dropWhile (\<lambda>x. x \<noteq> c) s)"
    by (auto simp: split_n2.simps split: if_splits)
  from c have "\<exists>d. dropWhile (\<lambda>x. x \<noteq> c) s = c # d"
    by (induction s) auto
  then obtain d where d: "dropWhile (\<lambda>x. x \<noteq> c) s = c # d" ..
  then have "s = a @ c # b"
    using a b takeWhile_dropWhile_id[of "\<lambda>x. x \<noteq> c" s] by simp
  moreover have "c \<notin> set a" using a by (auto dest: set_takeWhileD)
  ultimately show "s = a @ c # b \<and> c \<notin> set a" by simp
qed (auto simp: split_n2_two)

text \<open>Number of characters (code points) of a UTF-8 string: the bytes that do not continue one.\<close>

definition char_length :: "string \<Rightarrow> nat" where
  "char_length s = length (filter (\<lambda>c. (of_char c :: nat) div 64 \<noteq> 2) s)"

section \<open>Decimal and hexadecimal text\<close>

definition digit_char :: "nat \<Rightarrow> char" where
  "digit_char d = (char_of (48 + d) :: char)"

definition char_digit :: "char \<Rightarrow> nat option" where
  "char_digit c = (let n = (of_char c :: nat) in if 48 \<le> n \<and> n \<le> 57 then Some (n - 48) else None)"

lemma char_digit_digit_char [simp]: "d < 10 \<Longrightarrow> char_digit (digit_char d) = Some d"
  by (simp add: char_digit_def digit_char_def Let_def)

fun digits10 :: "nat \<Rightarrow> string" where
  "digits10 n = (if n < 10 then [digit_char n] else digits10 (n div 10) @ [digit_char (n mod 10)])"

declare digits10.simps [simp del]

text \<open>\<open>fmt.Sprintf("%d", n)\<close>\<close>

definition itoa :: "int \<Rightarrow> string" where
  "itoa n = (if n < 0 then CHR ''-'' # digits10 (nat (- n)) else digits10 (nat n))"

fun parse_digits :: "nat \<Rightarrow> string \<Rightarrow> nat option" where
  "parse_digits acc [] = Some acc"
| "parse_digits acc (c # cs) =
     (case char_digit c of None \<Rightarrow> None | Some d \<Rightarrow> parse_digits (10 * acc + d) cs)"

text \<open>\<open>strconv.Atoi\<close>: an optional sign, at least one digit, and a value that fits 64 bits.\<close>

definition atoi :: "string \<Rightarrow> int option" where
  "atoi s =
     (let neg = (s \<noteq> [] \<and> hd s = CHR ''-'');
          ds = (if s \<noteq> [] \<and> (hd s = CHR ''-'' \<or> hd s = CHR ''+'') then tl s else s)
      in if ds = [] then None
         else case parse_digits 0 ds of
             None \<Rightarrow> None
           | Some n \<Rightarrow> (let v = (if neg then - int n else int n) in if in_int64 v then Some v else None))"

lemma parse_digits_append:
  "parse_digits acc (s @ t) = (case parse_digits acc s of None \<Rightarrow> None | Some a \<Rightarrow> parse_digits a t)"
  by (induction s arbitrary: acc) (auto split: option.splits)

lemma parse_digits10: "parse_digits 0 (digits10 n) = Some n"
proof (induction n rule: digits10.induct)
  case (1 n)
  show ?case
  proof (cases "n < 10")
    case True
    then show ?thesis by (simp add: digits10.simps[of n])
  next
    case False
    with 1 show ?thesis by (simp add: digits10.simps[of n] parse_digits_append)
  qed
qed

lemma digits10_nonempty: "digits10 n \<noteq> []"
  by (subst digits10.simps) simp

lemma digit_char_not_sign: "d < 10 \<Longrightarrow> digit_char d \<noteq> CHR ''-'' \<and> digit_char d \<noteq> CHR ''+''"
proof -
  assume d: "d < 10"
  then have "char_digit (digit_char d) = Some d" by simp
  moreover have "char_digit (CHR ''-'') = None" "char_digit (CHR ''+'') = None"
    by (simp_all add: char_digit_def)
  ultimately show ?thesis by auto
qed

lemma hd_digits10: "hd (digits10 n) \<noteq> CHR ''-'' \<and> hd (digits10 n) \<noteq> CHR ''+''"
proof (induction n rule: digits10.induct)
  case (1 n)
  show ?case
  proof (cases "n < 10")
    case True
    then show ?thesis by (simp add: digits10.simps[of n] digit_char_not_sign)
  next
    case False
    with 1 show ?thesis
      by (simp add: digits10.simps[of n] digits10_nonempty)
  qed
qed

lemma atoi_itoa: "in_int64 n \<Longrightarrow> atoi (itoa n) = Some n"
  by (auto simp: atoi_def itoa_def Let_def parse_digits10 digits10_nonempty hd_digits10)

definition hex_digit :: "nat \<Rightarrow> char" where
  "hex_digit d = (if d < 10 then digit_char d else (char_of (87 + d) :: char))"

text \<open>\<open>fmt.Sprintf("%x", b)\<close> of a byte slice: two lower-case digits per byte.\<close>

definition hex_bytes :: "char list \<Rightarrow> string" where
  "hex_bytes b = concat (map (\<lambda>c. [hex_digit ((of_char c :: nat) div 16), hex_digit ((of_char c :: nat) mod 16)]) b)"

lemma length_hex_bytes [simp]: "length (hex_bytes b) = 2 * length b"
  unfolding hex_bytes_def by (induction b) auto

definition hex_value :: "char \<Rightarrow> nat" where
  "hex_value c = (let n = (of_char c :: nat) in if n \<le> 57 then n - 48 else n - 87)"

lemma hex_value_hex_digit: "d < 16 \<Longrightarrow> hex_value (hex_digit d) = d"
  by (auto simp: hex_value_def hex_digit_def digit_char_def Let_def)

lemma hex_digit_inj: "d < 16 \<Longrightarrow> e < 16 \<Longrightarrow> hex_digit d = hex_digit e \<longleftrightarrow> d = e"
  by (metis hex_value_hex_digit)

lemma of_char_div16: "(of_char c :: nat) div 16 < 16"
proof -
  have "(of_char c :: nat) < 256" by (cases c) (simp add: of_char_def)
  then show ?thesis by (simp add: div_less_iff_less_mult)
qed

lemma hex_bytes_inj: "hex_bytes a = hex_bytes b \<longleftrightarrow> a = b"
proof (induction a arbitrary: b)
  case Nil
  then show ?case by (cases b) (auto simp: hex_bytes_def)
next
  case (Cons x a)
  show ?case
  proof (cases b)
    case Nil
    then show ?thesis by (simp add: hex_bytes_def)
  next
    case (Cons y b')
    have "(of_char x :: nat) = of_char y \<longleftrightarrow> x = y" by simp
    moreover have "(of_char x :: nat) = of_char y \<longleftrightarrow>
        (of_char x :: nat) div 16 = of_char y div 16 \<and> (of_char x :: nat) mod 16 = of_char y mod 16"
      by (metis div_mult_mod_eq)
    ultimately show ?thesis
      using Cons.IH[of b'] Cons
      by (auto simp: hex_bytes_def hex_digit_inj of_char_div16)
  qed
qed

end
