(* ===== verification/Float64.thy ===== *)
theory Float64
  imports GoStd "HOL-Library.Log_Nat"
begin

text \<open>
  \<open>float64\<close> arithmetic, as the load score and the retry backoff use it: IEEE 754 binary64 with
  rounding to nearest, ties to even, including overflow, infinities and NaN.  Finite values are
  rationals; the sign of a zero is not kept, since no code of the program can observe it.
  The interface \<open>rounding\<close> states the two facts the proofs about rounded arithmetic need
  (monotone, exact on 53-bit significands), and is discharged for the rounding defined here.
\<close>

section \<open>Rounding\<close>

definition ilog2 :: "rat \<Rightarrow> int" where
  "ilog2 x = (case quotient_of x of (a, b) \<Rightarrow>
     let e = bitlen a - bitlen b in if 2 powi e \<le> x then e else e - 1)"

definition round_even :: "rat \<Rightarrow> int" where
  "round_even x =
     (let f = \<lfloor>x\<rfloor>; d = x - of_int f
      in if d < 1 / 2 then f else if 1 / 2 < d then f + 1 else if even f then f else f + 1)"

definition quantum :: "rat \<Rightarrow> int" where
  "quantum x = max (ilog2 \<bar>x\<bar> - 52) (- 1074)"

definition rnd :: "rat \<Rightarrow> rat" where
  "rnd x = (if x = 0 then 0 else of_int (round_even (x / 2 powi quantum x)) * 2 powi quantum x)"

lemma bitlen_frac_bounds:
  assumes "0 < a"
  shows "(2::rat) powi (bitlen a - 1) \<le> of_int a" "of_int a < (2::rat) powi bitlen a"
proof -
  have b: "2 ^ nat (bitlen a - 1) \<le> a" "a < 2 ^ nat (bitlen a)"
    using bitlen_bounds[OF assms] by auto
  have pos: "1 \<le> bitlen a" using assms by (simp add: bitlen_alt_def)
  have "(2::rat) powi (bitlen a - 1) = of_int (2 ^ nat (bitlen a - 1))"
    using pos by (simp add: power_int_def)
  with b(1) show "(2::rat) powi (bitlen a - 1) \<le> of_int a"
    by (metis of_int_le_iff)
  have "(2::rat) powi bitlen a = of_int (2 ^ nat (bitlen a))"
    using pos by (simp add: power_int_def)
  with b(2) show "of_int a < (2::rat) powi bitlen a"
    by (metis of_int_less_iff)
qed

lemma ilog2_bounds:
  assumes "0 < x"
  shows "2 powi ilog2 x \<le> x" "x < 2 powi (ilog2 x + 1)"
proof -
  obtain a b where q: "quotient_of x = (a, b)" by (cases "quotient_of x")
  have b: "0 < b" using quotient_of_denom_pos[OF q] .
  have x: "x = of_int a / of_int b" using quotient_of_div[OF q] .
  have a: "0 < a" using assms b x by (simp add: zero_less_divide_iff)
  let ?e = "bitlen a - bitlen b"
  have A: "(2::rat) powi (bitlen a - 1) \<le> of_int a" "of_int a < (2::rat) powi bitlen a"
    using bitlen_frac_bounds[OF a] by auto
  have B: "(2::rat) powi (bitlen b - 1) \<le> of_int b" "of_int b < (2::rat) powi bitlen b"
    using bitlen_frac_bounds[OF b] by auto
  have lo: "2 powi (?e - 1) \<le> x"
  proof -
    have "(2::rat) powi (?e - 1) = 2 powi (bitlen a - 1) / 2 powi bitlen b"
      by (simp add: power_int_diff)
    also have "\<dots> \<le> of_int a / of_int b"
      using A(1) B(2) a b by (intro frac_le) auto
    finally show ?thesis by (simp add: x)
  qed
  have hi: "x < 2 powi (?e + 1)"
  proof -
    have "x < 2 powi bitlen a / of_int b"
      using A(2) b by (simp add: x divide_strict_right_mono)
    also have "\<dots> \<le> 2 powi bitlen a / 2 powi (bitlen b - 1)"
      using B(1) b by (intro divide_left_mono mult_pos_pos) auto
    also have "\<dots> = (2::rat) powi (?e + 1)"
      by (simp flip: power_int_diff add: algebra_simps)
    finally show ?thesis .
  qed
  show "2 powi ilog2 x \<le> x" "x < 2 powi (ilog2 x + 1)"
    using lo hi by (auto simp: ilog2_def q Let_def)
qed

lemma powi_mono_iff [simp]: "(2::rat) powi i \<le> 2 powi j \<longleftrightarrow> i \<le> j"
  by (meson linorder_not_less one_less_numeral_iff power_int_strict_increasing
      power_int_increasing semiring_norm(76) less_imp_le order_refl)

lemma powi_less_iff [simp]: "(2::rat) powi i < 2 powi j \<longleftrightarrow> i < j"
  by (simp flip: linorder_not_le)

lemma ilog2_unique:
  assumes "2 powi e \<le> x" "x < 2 powi (e + 1)"
  shows "ilog2 x = e"
proof -
  have x: "0 < x" using assms(1) by (meson less_le_trans zero_less_power_int zero_less_numeral)
  note l = ilog2_bounds[OF x]
  have "(2::rat) powi e < 2 powi (ilog2 x + 1)" by (rule le_less_trans[OF assms(1) l(2)])
  moreover have "(2::rat) powi ilog2 x < 2 powi (e + 1)" by (rule le_less_trans[OF l(1) assms(2)])
  ultimately show ?thesis by simp
qed

lemma ilog2_mono:
  assumes "0 < x" "x \<le> y" shows "ilog2 x \<le> ilog2 y"
proof -
  have "(2::rat) powi ilog2 x < 2 powi (ilog2 y + 1)"
    using ilog2_bounds(1)[OF assms(1)] ilog2_bounds(2)[of y] assms by linarith
  then show ?thesis by simp
qed

lemma round_even_of_int [simp]: "round_even (of_int n) = n"
  by (simp add: round_even_def Let_def)

lemma round_even_mono:
  assumes "x \<le> y" shows "round_even x \<le> round_even y"
proof (cases "\<lfloor>x\<rfloor> = \<lfloor>y\<rfloor>")
  case True
  with assms show ?thesis by (auto simp: round_even_def Let_def)
next
  case False
  then have "\<lfloor>x\<rfloor> + 1 \<le> \<lfloor>y\<rfloor>" using floor_mono[OF assms] by linarith
  then show ?thesis by (auto simp: round_even_def Let_def)
qed

lemma round_even_minus: "round_even (- x) = - round_even x"
proof (cases "x = of_int \<lfloor>x\<rfloor>")
  case True
  then show ?thesis by (metis of_int_minus round_even_of_int)
next
  case False
  then have "of_int \<lfloor>x\<rfloor> < x" using of_int_floor_le[of x] by linarith
  then have "\<lfloor>- x\<rfloor> = - \<lfloor>x\<rfloor> - 1"
    using floor_correct[of x] by (simp add: floor_eq_iff)
  then show ?thesis
    by (auto simp: round_even_def Let_def)
qed

lemma quantum_minus [simp]: "quantum (- x) = quantum x"
  by (simp add: quantum_def)

lemma rnd_0 [simp]: "rnd 0 = 0"
  by (simp add: rnd_def)

lemma rnd_minus: "rnd (- x) = - rnd x"
  by (simp add: rnd_def round_even_minus)

lemma rnd_nonneg: "0 \<le> x \<Longrightarrow> 0 \<le> rnd x"
  using round_even_mono[of 0 "x / 2 powi quantum x"] round_even_of_int[of 0]
  by (auto simp: rnd_def)

lemma powi_int: "0 \<le> k \<Longrightarrow> (2::rat) powi k = of_int (2 ^ nat k)"
  by (simp add: power_int_def)

lemma round_even_powi: "0 \<le> k \<Longrightarrow> round_even (of_int m * 2 powi k) = m * 2 ^ nat k"
  by (metis of_int_mult powi_int round_even_of_int)

lemma round_even_powi1: "0 \<le> k \<Longrightarrow> round_even (2 powi k) = 2 ^ nat k"
  using round_even_powi[of k 1] by simp

lemma rnd_mono_pos:
  assumes "0 < x" "x \<le> y" shows "rnd x \<le> rnd y"
proof -
  let ?p = "quantum x" and ?q = "quantum y"
  have y: "0 < y" using assms by simp
  have pq: "?p \<le> ?q" using ilog2_mono[OF assms] assms y by (simp add: quantum_def)
  have rx: "rnd x = of_int (round_even (x / 2 powi ?p)) * 2 powi ?p"
    and ry: "rnd y = of_int (round_even (y / 2 powi ?q)) * 2 powi ?q"
    using assms y by (auto simp: rnd_def)
  show ?thesis
  proof (cases "?p = ?q")
    case True
    have "round_even (x / 2 powi ?p) \<le> round_even (y / 2 powi ?q)"
      using True assms by (intro round_even_mono) (simp add: divide_right_mono)
    then show ?thesis unfolding rx ry True by (simp add: mult_right_mono)
  next
    case False
    with pq have lt: "?p < ?q" by simp
    let ?l = "ilog2 y"
    have q: "?q = ?l - 52" using lt y by (auto simp: quantum_def max_def split: if_splits)
    have "ilog2 x < ?l" using lt q assms(1) by (auto simp: quantum_def max_def split: if_splits)
    then have "(2::rat) powi (ilog2 x + 1) \<le> 2 powi ?l" by simp
    with ilog2_bounds(2)[OF assms(1)] have xl: "x \<le> 2 powi ?l" by linarith
    have pl: "0 \<le> ?l - ?p" using lt q by simp
    have "x / 2 powi ?p \<le> 2 powi (?l - ?p)"
      using xl by (simp add: power_int_diff divide_right_mono)
    from round_even_mono[OF this] have "round_even (x / 2 powi ?p) \<le> 2 ^ nat (?l - ?p)"
      using round_even_powi1[OF pl] by simp
    then have "(of_int (round_even (x / 2 powi ?p)) :: rat) \<le> 2 powi (?l - ?p)"
      by (metis of_int_le_iff powi_int[OF pl])
    then have 1: "rnd x \<le> 2 powi ?l"
      unfolding rx by (simp add: power_int_diff pos_le_divide_eq)
    have "2 powi (?l - ?q) \<le> y / 2 powi ?q"
      using ilog2_bounds(1)[OF y] by (simp add: power_int_diff divide_right_mono)
    from round_even_mono[OF this] have "2 ^ nat (?l - ?q) \<le> round_even (y / 2 powi ?q)"
      using round_even_powi1[of "?l - ?q"] q by simp
    then have "(2::rat) powi (?l - ?q) \<le> of_int (round_even (y / 2 powi ?q))"
      using powi_int[of "?l - ?q"] q by (metis diff_add_cancel diff_ge_0_iff_ge of_int_le_iff
          add_diff_cancel_left' diff_diff_eq2 zero_le_numeral)
    then have 2: "2 powi ?l \<le> rnd y"
      unfolding ry by (simp add: power_int_diff pos_divide_le_eq)
    from 1 2 show ?thesis by linarith
  qed
qed

lemma rnd_mono: "x \<le> y \<Longrightarrow> rnd x \<le> rnd y"
proof -
  assume le: "x \<le> y"
  consider "0 < x" | "x \<le> 0" "0 \<le> y" | "y < 0" using le by linarith
  then show ?thesis
  proof cases
    case 1
    then show ?thesis using le by (rule rnd_mono_pos)
  next
    case 2
    then have "rnd x \<le> 0" using rnd_nonneg[of "- x"] by (simp add: rnd_minus)
    with rnd_nonneg[OF 2(2)] show ?thesis by linarith
  next
    case 3
    then have "rnd (- y) \<le> rnd (- x)" using le by (intro rnd_mono_pos) auto
    then show ?thesis by (simp add: rnd_minus)
  qed
qed

text \<open>Numbers with a 53-bit significand are representable: rounding leaves them alone.\<close>

lemma rnd_exact_pos:
  assumes m: "0 < m" "m \<le> 2 ^ 53" and k: "- 1074 \<le> k"
  shows "rnd (of_int m * 2 powi k) = of_int m * 2 powi k"
proof -
  let ?x = "of_int m * 2 powi k :: rat"
  have x: "0 < ?x" using m by simp
  have int: "rnd ?x = ?x" if "?x = of_int j * 2 powi quantum ?x" for j
  proof -
    have "?x / 2 powi quantum ?x = of_int j" using that by (simp add: divide_eq_eq)
    then show ?thesis using that x by (simp add: rnd_def)
  qed
  have low: "rnd ?x = ?x" if q: "quantum ?x \<le> k"
  proof (rule int)
    have "(2::rat) powi k = of_int (2 ^ nat (k - quantum ?x)) * 2 powi quantum ?x"
      using q powi_int[of "k - quantum ?x"] power_int_add[of 2 "k - quantum ?x" "quantum ?x"]
      by (metis diff_add_cancel diff_ge_0_iff_ge zero_neq_numeral)
    then show "?x = of_int (m * 2 ^ nat (k - quantum ?x)) * 2 powi quantum ?x" by simp
  qed
  show ?thesis
  proof (cases "m = 2 ^ 53")
    case True
    have x53: "?x = 2 powi (k + 53)" using True by (simp add: power_int_add)
    then have "ilog2 \<bar>?x\<bar> = k + 53" by (intro ilog2_unique) auto
    then have q: "quantum ?x = k + 1" using k by (simp add: quantum_def)
    have "?x = 2 powi (52 + (k + 1))" using x53 by (simp add: algebra_simps)
    then have "?x = of_int (2 ^ 52) * 2 powi quantum ?x"
      unfolding q by (subst (asm) power_int_add) auto
    then show ?thesis by (rule int)
  next
    case False
    with m(2) have "m < 2 ^ 53" by simp
    then have "(of_int m :: rat) < of_int (2 ^ 53)" by (metis of_int_less_iff)
    then have "?x < 2 powi 53 * 2 powi k" by (intro mult_strict_right_mono) auto
    then have "?x < 2 powi (k + 53)" by (simp add: power_int_add mult.commute)
    then have "(2::rat) powi ilog2 ?x < 2 powi (k + 53)"
      using ilog2_bounds(1)[OF x] by linarith
    then have "ilog2 ?x < k + 53" by simp
    moreover have "\<bar>?x\<bar> = ?x" using x by simp
    ultimately have "quantum ?x \<le> k" using k unfolding quantum_def by simp
    then show ?thesis by (rule low)
  qed
qed

lemma rnd_exact:
  assumes "\<bar>m\<bar> \<le> 2 ^ 53" "- 1074 \<le> k"
  shows "rnd (of_int m * 2 powi k) = of_int m * 2 powi k"
proof -
  consider "m = 0" | "0 < m" | "0 < - m" by linarith
  then show ?thesis
  proof cases
    case 3
    then have "rnd (of_int (- m) * 2 powi k) = of_int (- m) * 2 powi k"
      using assms by (intro rnd_exact_pos) auto
    then show ?thesis by (simp add: rnd_minus)
  qed (use assms rnd_exact_pos in auto)
qed

section \<open>What a rounding promises\<close>

locale rounding =
  fixes fl :: "rat \<Rightarrow> rat"
  assumes mono: "x \<le> y \<Longrightarrow> fl x \<le> fl y"
    and exact: "\<bar>m\<bar> \<le> 2 ^ 53 \<Longrightarrow> - 1074 \<le> k \<Longrightarrow> fl (of_int m * 2 powi k) = of_int m * 2 powi k"
begin

lemma exact_int: "\<bar>m\<bar> \<le> 2 ^ 53 \<Longrightarrow> fl (of_int m) = of_int m"
  using exact[of m 0] by simp

lemma exact_half: "fl (1 / 2) = 1 / 2"
  using exact[of 1 "- 1"] by simp

lemma exact_0 [simp]: "fl 0 = 0"
  using exact_int[of 0] by simp

lemma exact_1 [simp]: "fl 1 = 1"
  using exact_int[of 1] by simp

lemma nonneg: "0 \<le> x \<Longrightarrow> 0 \<le> fl x"
  using mono[of 0 x] by simp

lemma le_int: "\<bar>n\<bar> \<le> 2 ^ 53 \<Longrightarrow> x \<le> of_int n \<Longrightarrow> fl x \<le> of_int n"
  using mono[of x "of_int n"] exact_int[of n] by simp

lemma ge_int: "\<bar>n\<bar> \<le> 2 ^ 53 \<Longrightarrow> of_int n \<le> x \<Longrightarrow> of_int n \<le> fl x"
  using mono[of "of_int n" x] exact_int[of n] by simp

end

interpretation f64: rounding rnd
  by unfold_locales (auto simp: rnd_mono rnd_exact)

section \<open>float64 values\<close>

datatype f64 = Fin rat | PInf | NInf | NaN

definition f64_of_rat :: "rat \<Rightarrow> f64" where
  "f64_of_rat x =
     (let y = rnd x in if 2 ^ 1024 \<le> y then PInf else if y \<le> - (2 ^ 1024) then NInf else Fin y)"

definition f64_of_int :: "int \<Rightarrow> f64" where
  "f64_of_int n = f64_of_rat (of_int n)"

fun f64_add :: "f64 \<Rightarrow> f64 \<Rightarrow> f64" where
  "f64_add (Fin x) (Fin y) = f64_of_rat (x + y)"
| "f64_add NaN _ = NaN"
| "f64_add _ NaN = NaN"
| "f64_add PInf NInf = NaN"
| "f64_add NInf PInf = NaN"
| "f64_add PInf _ = PInf"
| "f64_add _ PInf = PInf"
| "f64_add NInf _ = NInf"
| "f64_add _ NInf = NInf"

fun f64_neg :: "f64 \<Rightarrow> f64" where
  "f64_neg (Fin x) = Fin (- x)"
| "f64_neg PInf = NInf"
| "f64_neg NInf = PInf"
| "f64_neg NaN = NaN"

definition f64_inf_times :: "rat \<Rightarrow> f64" where
  "f64_inf_times x = (if x = 0 then NaN else if 0 < x then PInf else NInf)"

fun f64_mul :: "f64 \<Rightarrow> f64 \<Rightarrow> f64" where
  "f64_mul (Fin x) (Fin y) = f64_of_rat (x * y)"
| "f64_mul NaN _ = NaN"
| "f64_mul _ NaN = NaN"
| "f64_mul (Fin x) PInf = f64_inf_times x"
| "f64_mul PInf (Fin x) = f64_inf_times x"
| "f64_mul (Fin x) NInf = f64_inf_times (- x)"
| "f64_mul NInf (Fin x) = f64_inf_times (- x)"
| "f64_mul PInf PInf = PInf"
| "f64_mul NInf NInf = PInf"
| "f64_mul PInf NInf = NInf"
| "f64_mul NInf PInf = NInf"

text \<open>Division of finite numbers by a number other than zero: the only division of the program.\<close>

fun f64_div_fin :: "f64 \<Rightarrow> f64 \<Rightarrow> f64" where
  "f64_div_fin (Fin x) (Fin y) = (if y = 0 then NaN else f64_of_rat (x / y))"
| "f64_div_fin _ _ = NaN"

text \<open>Comparisons with NaN are false.\<close>

fun f64_lt :: "f64 \<Rightarrow> f64 \<Rightarrow> bool" where
  "f64_lt NaN _ = False"
| "f64_lt _ NaN = False"
| "f64_lt (Fin x) (Fin y) = (x < y)"
| "f64_lt (Fin x) PInf = True"
| "f64_lt (Fin x) NInf = False"
| "f64_lt PInf _ = False"
| "f64_lt NInf NInf = False"
| "f64_lt NInf _ = True"

text \<open>
  Conversion to a 64-bit integer truncates; where the value does not fit (or is NaN) the language
  leaves the result to the implementation, which is \<open>None\<close>.
\<close>

definition trunc_rat :: "rat \<Rightarrow> int" where
  "trunc_rat x = (if 0 \<le> x then \<lfloor>x\<rfloor> else \<lceil>x\<rceil>)"

fun f64_to_int64 :: "f64 \<Rightarrow> int option" where
  "f64_to_int64 (Fin x) = (if in_int64 (trunc_rat x) then Some (trunc_rat x) else None)"
| "f64_to_int64 _ = None"

definition is_fin :: "f64 \<Rightarrow> bool" where
  "is_fin x = (case x of Fin _ \<Rightarrow> True | _ \<Rightarrow> False)"

lemma is_fin_simps [simp]: "is_fin (Fin x)" "\<not> is_fin PInf" "\<not> is_fin NInf" "\<not> is_fin NaN"
  by (simp_all add: is_fin_def)

lemma f64_lt_irrefl [simp]: "\<not> f64_lt x x"
  by (cases x) auto

lemma f64_lt_trans: "f64_lt x y \<Longrightarrow> f64_lt y z \<Longrightarrow> f64_lt x z"
  by (cases x; cases y; cases z) auto

text \<open>Away from NaN, not being less is a total preorder.\<close>

lemma f64_not_lt_trans: "y \<noteq> NaN \<Longrightarrow> \<not> f64_lt x y \<Longrightarrow> \<not> f64_lt y z \<Longrightarrow> \<not> f64_lt x z"
  by (cases x; cases y; cases z) auto

lemma f64_of_rat_small: "\<bar>x\<bar> \<le> 2 ^ 53 \<Longrightarrow> f64_of_rat x = Fin (rnd x)"
proof -
  assume x: "\<bar>x\<bar> \<le> 2 ^ 53"
  have "rnd x \<le> 2 ^ 53" using f64.le_int[of "2 ^ 53" x] x by (simp add: abs_le_iff)
  moreover have "- (2 ^ 53) \<le> rnd x" using f64.ge_int[of "- (2 ^ 53)" x] x by (simp add: abs_le_iff)
  ultimately show ?thesis by (simp add: f64_of_rat_def Let_def)
qed

lemma f64_of_int_small [simp]: "\<bar>n\<bar> \<le> 2 ^ 53 \<Longrightarrow> f64_of_int n = Fin (of_int n)"
proof -
  assume n: "\<bar>n\<bar> \<le> 2 ^ 53"
  then have "\<bar>of_int n :: rat\<bar> \<le> of_int (2 ^ 53)" by (metis of_int_abs of_int_le_iff)
  then show ?thesis using n by (simp add: f64_of_int_def f64_of_rat_small f64.exact_int)
qed

lemma trunc_rat_of_int [simp]: "trunc_rat (of_int n) = n"
  by (simp add: trunc_rat_def)

lemma trunc_rat_mono: "x \<le> y \<Longrightarrow> trunc_rat x \<le> trunc_rat y"
proof -
  assume le: "x \<le> y"
  consider "0 \<le> x" | "x < 0" "0 \<le> y" | "x < 0" "y < 0" by linarith
  then show ?thesis
  proof cases
    case 2
    then have "\<lceil>x\<rceil> \<le> 0" "0 \<le> \<lfloor>y\<rfloor>" by (simp_all add: ceiling_le_iff)
    then have "\<lceil>x\<rceil> \<le> \<lfloor>y\<rfloor>" by linarith
    with 2 show ?thesis by (simp add: trunc_rat_def)
  qed (use le in \<open>auto simp: trunc_rat_def floor_mono ceiling_mono\<close>)
qed

end
