(* ===== verification/Json.thy ===== *)
theory Json
  imports Float64
begin

text \<open>
  What the program uses of \<open>encoding/json\<close>: the value a JSON text denotes, the decoding of a value
  into a Go variable of a given type, and into the fields of a struct by their tags.  A text stored
  in Redis is either the encoding of a value or is not JSON at all; a JSON text is identified with
  the value it denotes.  The textual forms of \<open>uuid.UUID\<close> (third party) and \<open>time.Time\<close> are
  parameters, the record \<open>ext\<close>, with their round trips as the interface \<open>ext_codec\<close>.
\<close>

section \<open>Identifiers and their textual forms\<close>

type_synonym uuid = "128 word"

abbreviation uuid_nil :: uuid where "uuid_nil \<equiv> 0"

record ext =
  uuid_str :: "uuid \<Rightarrow> string"
  uuid_parse :: "string \<Rightarrow> uuid option"
  uuid_left :: "string \<Rightarrow> uuid"
  time_str :: "int \<Rightarrow> string"
  time_parse :: "string \<Rightarrow> int option"

locale ext_codec =
  fixes X :: ext
  assumes uuid_rt [simp]: "uuid_parse X (uuid_str X u) = Some u"
    and time_rt [simp]: "json_year t \<Longrightarrow> time_parse X (time_str X t) = Some t"
    and uuid_parse_empty [simp]: "uuid_parse X [] = None"
begin

lemma uuid_str_inj [simp]: "uuid_str X u = uuid_str X v \<longleftrightarrow> u = v"
  by (metis option.inject uuid_rt)

lemma uuid_str_nonempty [simp]: "uuid_str X u \<noteq> []"
  by (metis option.distinct(1) uuid_parse_empty uuid_rt)

end

text \<open>
  \<open>u, _ := uuid.Parse(s)\<close>: when the text does not parse, \<open>u\<close> is whatever the package returns beside
  the error.
\<close>

definition parsed_uuid :: "ext \<Rightarrow> string \<Rightarrow> uuid" where
  "parsed_uuid X s = (case uuid_parse X s of None \<Rightarrow> uuid_left X s | Some u \<Rightarrow> u)"

text \<open>An executable instance: decimal text for both.\<close>

definition nat_parse :: "string \<Rightarrow> nat option" where
  "nat_parse s = (if s = [] then None else parse_digits 0 s)"

definition int_parse :: "string \<Rightarrow> int option" where
  "int_parse s = (if s \<noteq> [] \<and> hd s = CHR ''-'' then map_option (\<lambda>n. - int n) (nat_parse (tl s))
                  else map_option int (nat_parse s))"

definition ref_ext :: ext where
  "ref_ext = \<lparr>uuid_str = (\<lambda>u. digits10 (unat u)), uuid_parse = (\<lambda>s. map_option of_nat (nat_parse s)),
     uuid_left = (\<lambda>_. uuid_nil),
     time_str = itoa, time_parse = int_parse\<rparr>"

interpretation ref_ext: ext_codec ref_ext
  by unfold_locales
    (auto simp: ref_ext_def nat_parse_def int_parse_def itoa_def parse_digits10 digits10_nonempty hd_digits10)

section \<open>Values\<close>

datatype json =
    JNull | JBool bool | JInt int | JDec rat | JStr string | JArr "json list"
  | JObj "(string \<times> json) list"

text \<open>\<open>JInt\<close> is a number token in integer form, \<open>JDec\<close> one with a fraction or an exponent.\<close>

datatype jtext = JsonText json | RawText string

section \<open>Decoding into a variable\<close>

text \<open>
  A decoder takes the JSON value and what the variable holds; \<open>null\<close> leaves the variable alone,
  and \<open>None\<close> is the error of \<open>json.Unmarshal\<close>.
\<close>

fun dec_string :: "json \<Rightarrow> string \<Rightarrow> string option" where
  "dec_string (JStr s) _ = Some s"
| "dec_string JNull cur = Some cur"
| "dec_string _ _ = None"

fun dec_int :: "json \<Rightarrow> int \<Rightarrow> int option" where
  "dec_int (JInt n) _ = (if in_int64 n then Some n else None)"
| "dec_int JNull cur = Some cur"
| "dec_int _ _ = None"

definition dec_number :: "rat \<Rightarrow> f64 option" where
  "dec_number x = (case f64_of_rat x of Fin y \<Rightarrow> Some (Fin y) | _ \<Rightarrow> None)"

fun dec_f64 :: "json \<Rightarrow> f64 \<Rightarrow> f64 option" where
  "dec_f64 (JInt n) _ = dec_number (of_int n)"
| "dec_f64 (JDec x) _ = dec_number x"
| "dec_f64 JNull cur = Some cur"
| "dec_f64 _ _ = None"

fun dec_uuid :: "ext \<Rightarrow> json \<Rightarrow> uuid \<Rightarrow> uuid option" where
  "dec_uuid X (JStr s) _ = uuid_parse X s"
| "dec_uuid X JNull cur = Some cur"
| "dec_uuid X _ _ = None"

fun dec_time :: "ext \<Rightarrow> json \<Rightarrow> int \<Rightarrow> int option" where
  "dec_time X (JStr s) _ = time_parse X s"
| "dec_time X JNull cur = Some cur"
| "dec_time X _ _ = None"

text \<open>
  A \<open>map[string]interface{}\<close>: numbers inside become \<open>float64\<close>.  \<open>None\<close> inside the result is the nil
  map.
\<close>

definition enc_number :: "rat \<Rightarrow> json" where
  "enc_number x = (if x = of_int \<lfloor>x\<rfloor> \<and> \<bar>x\<bar> < 10 ^ 21 then JInt \<lfloor>x\<rfloor> else JDec x)"

definition any_number :: "rat \<Rightarrow> json option" where
  "any_number x = (case f64_of_rat x of Fin y \<Rightarrow> Some (enc_number y) | _ \<Rightarrow> None)"

fun those_list :: "'a option list \<Rightarrow> 'a list option" where
  "those_list [] = Some []"
| "those_list (x # xs) =
     (case x of None \<Rightarrow> None | Some y \<Rightarrow> map_option ((#) y) (those_list xs))"

fun dec_any :: "json \<Rightarrow> json option" where
  "dec_any (JInt n) = any_number (of_int n)"
| "dec_any (JDec x) = any_number x"
| "dec_any (JArr js) = map_option JArr (those_list (map dec_any js))"
| "dec_any (JObj kvs) =
     map_option JObj (those_list (map (\<lambda>(k, v). map_option (Pair k) (dec_any v)) kvs))"
| "dec_any j = Some j"

type_synonym jmap = "(string \<times> json) list option"

fun dec_map :: "json \<Rightarrow> jmap \<Rightarrow> jmap option" where
  "dec_map (JObj kvs) cur =
     (case dec_any (JObj kvs) of
        Some (JObj kvs') \<Rightarrow>
          Some (Some (case cur of None \<Rightarrow> kvs' | Some old \<Rightarrow> filter (\<lambda>(k, _). k \<notin> fst ` set kvs') old @ kvs'))
      | _ \<Rightarrow> None)"
| "dec_map JNull cur = Some None"
| "dec_map _ _ = None"

definition enc_map :: "jmap \<Rightarrow> json" where
  "enc_map m = (case m of None \<Rightarrow> JNull | Some kvs \<Rightarrow> JObj kvs)"

section \<open>Structs\<close>

text \<open>Keys match tags without regard to case; a repeated key is decoded again, in order.\<close>

definition to_lower :: "char \<Rightarrow> char" where
  "to_lower c = (let n = (of_char c :: nat) in if 65 \<le> n \<and> n \<le> 90 then char_of (n + 32) else c)"

definition fold_key :: "string \<Rightarrow> string" where
  "fold_key s = map to_lower s"

fun dec_field :: "string \<Rightarrow> (json \<Rightarrow> 'a \<Rightarrow> 'a option) \<Rightarrow> (string \<times> json) list \<Rightarrow> 'a \<Rightarrow> 'a option" where
  "dec_field tag d [] cur = Some cur"
| "dec_field tag d ((k, v) # kvs) cur =
     (if fold_key k = fold_key tag
      then (case d v cur of None \<Rightarrow> None | Some c \<Rightarrow> dec_field tag d kvs c)
      else dec_field tag d kvs cur)"

text \<open>
  The value of a text as a struct: its key-value pairs.  The text \<open>null\<close> sets no field; any other
  value that is not an object is an error.
\<close>

fun unmarshal_object :: "jtext \<Rightarrow> (string \<times> json) list option" where
  "unmarshal_object (JsonText (JObj kvs)) = Some kvs"
| "unmarshal_object (JsonText JNull) = Some []"
| "unmarshal_object _ = None"

definition enc_f64 :: "f64 \<Rightarrow> json option" where
  "enc_f64 x = (case x of Fin r \<Rightarrow> Some (enc_number r) | _ \<Rightarrow> None)"

definition omit_empty_str :: "string \<Rightarrow> string \<Rightarrow> (string \<times> json) list" where
  "omit_empty_str tag s = (if s = [] then [] else [(tag, JStr s)])"

section \<open>Decoding what was encoded\<close>

lemma dec_number_enc: "rnd r = r \<Longrightarrow> \<bar>r\<bar> < 2 ^ 1024 \<Longrightarrow> dec_number r = Some (Fin r)"
  by (auto simp: dec_number_def f64_of_rat_def Let_def abs_less_iff)

lemma dec_f64_enc_number:
  "rnd r = r \<Longrightarrow> \<bar>r\<bar> < 2 ^ 1024 \<Longrightarrow> dec_f64 (enc_number r) cur = Some (Fin r)"
  by (auto simp: enc_number_def dec_number_enc)

text \<open>Values whose numbers are already \<open>float64\<close> values decode to themselves.\<close>

fun json_stable :: "json \<Rightarrow> bool" where
  "json_stable (JInt n) \<longleftrightarrow> any_number (of_int n) = Some (JInt n)"
| "json_stable (JDec x) \<longleftrightarrow> any_number x = Some (JDec x)"
| "json_stable (JArr js) \<longleftrightarrow> (\<forall>j \<in> set js. json_stable j)"
| "json_stable (JObj kvs) \<longleftrightarrow> (\<forall>kv \<in> set kvs. json_stable (snd kv))"
| "json_stable _ \<longleftrightarrow> True"

lemma those_list_Some: "(\<And>x. x \<in> set xs \<Longrightarrow> f x = Some (g x)) \<Longrightarrow> those_list (map f xs) = Some (map g xs)"
  by (induction xs) auto

lemma dec_any_stable: "json_stable j \<Longrightarrow> dec_any j = Some j"
proof (induction j rule: dec_any.induct)
  case (3 js)
  then have "those_list (map dec_any js) = Some (map (\<lambda>j. j) js)"
    by (intro those_list_Some) auto
  then show ?case by simp
next
  case (4 kvs)
  then have "those_list (map (\<lambda>(k, v). map_option (Pair k) (dec_any v)) kvs) = Some (map (\<lambda>kv. kv) kvs)"
    by (intro those_list_Some) (fastforce split: prod.splits)
  then show ?case by simp
qed auto

definition jmap_stable :: "jmap \<Rightarrow> bool" where
  "jmap_stable m = (case m of None \<Rightarrow> True | Some kvs \<Rightarrow> json_stable (JObj kvs))"

lemma dec_map_enc_map: "jmap_stable m \<Longrightarrow> dec_map (enc_map m) None = Some m"
  by (cases m) (auto simp: jmap_stable_def enc_map_def dec_any_stable simp del: dec_any.simps)

lemma any_number_small_int: "\<bar>n\<bar> \<le> 2 ^ 53 \<Longrightarrow> any_number (of_int n) = Some (JInt n)"
proof -
  assume n: "\<bar>n\<bar> \<le> 2 ^ 53"
  have "f64_of_rat (of_int n) = Fin (of_int n)"
    using f64_of_int_small[OF n] by (simp add: f64_of_int_def)
  moreover have "\<bar>of_int n :: rat\<bar> < 10 ^ 21"
  proof -
    have "\<bar>n\<bar> < 10 ^ 21" using n by simp
    then show ?thesis by (metis of_int_abs of_int_less_iff of_int_numeral of_int_power)
  qed
  ultimately show ?thesis by (simp add: any_number_def enc_number_def)
qed

end
