(* ===== verification/Models.thy ===== *)
theory Models
  imports Json
begin

text \<open>
  The domain types of \<open>internal/models/models.go\<close>, field by field, and the column types the schema
  of \<open>migrations/001_init.sql\<close> gives them.  Times are nanoseconds (\<open>GoStd\<close>), integers are Go \<open>int\<close>s.
\<close>

record user =
  u_id :: uuid
  u_email :: string
  u_api_key :: string
  u_created :: int
  u_updated :: int

record func =
  fn_id :: uuid
  fn_user :: uuid
  fn_name :: string
  fn_entrypoint :: string
  fn_memory :: int
  fn_cpu :: int
  fn_timeout :: int
  fn_maxconc :: int
  fn_active :: uuid
  fn_created :: int
  fn_updated :: int

record version =
  ver_id :: uuid
  ver_fn :: uuid
  ver_num :: int
  ver_image :: string
  ver_status :: string
  ver_created :: int

record worker_node =
  wn_id :: uuid
  wn_worker_id :: string
  wn_hostname :: string
  wn_status :: string
  wn_cpu :: int
  wn_mem :: int
  wn_last_hb :: int
  wn_created :: int

record invocation =
  inv_id :: uuid
  inv_fn :: uuid
  inv_ver :: uuid
  inv_worker :: uuid
  inv_status :: string
  inv_duration :: int
  inv_cold :: bool
  inv_retries :: int
  inv_error :: string
  inv_key :: string
  inv_created :: int

record log_entry =
  log_id :: uuid
  log_inv :: uuid
  log_level :: string
  log_message :: string
  log_time :: int

record dlq_entry =
  dlq_id :: uuid
  dlq_fn :: uuid
  dlq_ver :: uuid
  dlq_attempts :: int
  dlq_error :: string
  dlq_created :: int

text \<open>Statuses the code writes and tests for.\<close>

abbreviation "st_queued \<equiv> ''QUEUED''"
abbreviation "st_building \<equiv> ''BUILDING''"
abbreviation "st_ready \<equiv> ''READY''"
abbreviation "st_pending \<equiv> ''PENDING''"
abbreviation "st_success \<equiv> ''SUCCESS''"
abbreviation "st_failed \<equiv> ''FAILED''"
abbreviation "st_retrying \<equiv> ''RETRYING''"

end
