(* ===== verification/Store.thy ===== *)
theory Store
  imports Models
begin

text \<open>
  The relational store: the tables of \<open>migrations/001_init.sql\<close> that the Go code uses, and one
  definition per SQL statement the code executes.  A statement is checked against the schema's
  constraints (primary keys, \<open>UNIQUE\<close>, foreign keys with or without \<open>ON DELETE CASCADE\<close>, the range
  of \<open>INTEGER\<close> and the length of \<open>VARCHAR\<close>) and fails without effect when one is violated.
  What the server decides is a parameter, the record \<open>pg\<close>: which calls fail and whether before or
  after taking effect, the value of \<open>NOW()\<close>, the order in which a table is scanned (SQL leaves the
  order of rows with equal sort keys open), and what the driver does when it scans a \<open>NULL\<close> into a
  \<open>uuid.UUID\<close>.  Tables no Go code touches (\<open>workers\<close>, \<open>logs\<close>) are left out.
\<close>

section \<open>Tables\<close>

record user_row =
  ur_id :: uuid
  ur_email :: string
  ur_password_hash :: string
  ur_api_key :: string
  ur_created :: int
  ur_updated :: int

text \<open>A row of \<open>functions\<close>: \<open>active_version_id\<close> is the only column whose \<open>NULL\<close> the code meets.\<close>

record func_row =
  fr_id :: uuid
  fr_user :: uuid
  fr_name :: string
  fr_entrypoint :: string
  fr_memory :: int
  fr_cpu :: int
  fr_timeout :: int
  fr_maxconc :: int
  fr_active :: "uuid option"
  fr_created :: int
  fr_updated :: int

record db =
  db_users :: "user_row list"
  db_functions :: "func_row list"
  db_versions :: "version list"
  db_invocations :: "invocation list"
  db_dlq :: "dlq_entry list"
  db_calls :: nat

definition empty_db :: db where
  "empty_db = \<lparr>db_users = [], db_functions = [], db_versions = [], db_invocations = [],
     db_dlq = [], db_calls = 0\<rparr>"

datatype sql_err =
    ServerErr string | UniqueViolation string | ForeignKeyViolation string
  | NumericOutOfRange | StringTooLong | NegativeLimit | NoRows | ScanErr string

section \<open>Calls to the server\<close>

text \<open>
  A call may be lost before it takes effect or after; while rows are read, the connection may be
  lost after some of them were delivered.
\<close>

datatype fault = NoFault | LostBefore string | LostAfter string | LostDuring string nat

record pg =
  pg_fault :: "nat \<Rightarrow> fault"
  pg_now :: "nat \<Rightarrow> int"
  pg_scan_null :: "string + uuid"
  pg_scan_functions :: "nat \<Rightarrow> func_row list \<Rightarrow> func_row list"
  pg_scan_versions :: "nat \<Rightarrow> version list \<Rightarrow> version list"
  pg_scan_invocations :: "nat \<Rightarrow> invocation list \<Rightarrow> invocation list"
  pg_scan_dlq :: "nat \<Rightarrow> dlq_entry list \<Rightarrow> dlq_entry list"

text \<open>A scan visits every row once.\<close>

locale pg_scans =
  fixes P :: pg
  assumes scan_functions [simp]: "set (pg_scan_functions P n t) = set t"
    and scan_functions_length [simp]: "length (pg_scan_functions P n t) = length t"
    and scan_versions [simp]: "set (pg_scan_versions P n v) = set v"
    and scan_versions_length [simp]: "length (pg_scan_versions P n v) = length v"
    and scan_invocations [simp]: "set (pg_scan_invocations P n i) = set i"
    and scan_invocations_length [simp]: "length (pg_scan_invocations P n i) = length i"
    and scan_dlq [simp]: "set (pg_scan_dlq P n q) = set q"
    and scan_dlq_length [simp]: "length (pg_scan_dlq P n q) = length q"

text \<open>A server that never fails and scans in insertion order.\<close>

definition calm_pg :: pg where
  "calm_pg = \<lparr>pg_fault = (\<lambda>_. NoFault), pg_now = int, pg_scan_null = Inr uuid_nil,
     pg_scan_functions = (\<lambda>_ t. t), pg_scan_versions = (\<lambda>_ t. t),
     pg_scan_invocations = (\<lambda>_ t. t), pg_scan_dlq = (\<lambda>_ t. t)\<rparr>"

interpretation calm_pg: pg_scans calm_pg
  by unfold_locales (simp_all add: calm_pg_def)

text \<open>\<open>Pool.Exec\<close>: run a statement that returns no row.\<close>

definition pg_exec :: "pg \<Rightarrow> (int \<Rightarrow> db \<Rightarrow> sql_err + db) \<Rightarrow> db \<Rightarrow> (sql_err + unit) \<times> db" where
  "pg_exec P st d =
     (let n = db_calls d; d0 = d\<lparr>db_calls := Suc n\<rparr>; r = st (pg_now P n) d0;
          d1 = (case r of Inl _ \<Rightarrow> d0 | Inr d' \<Rightarrow> d')
      in case pg_fault P n of
           NoFault \<Rightarrow> (case r of Inl e \<Rightarrow> (Inl e, d0) | Inr d' \<Rightarrow> (Inr (), d'))
         | LostBefore m \<Rightarrow> (Inl (ServerErr m), d0)
         | LostAfter m \<Rightarrow> (Inl (ServerErr m), d1)
         | LostDuring m _ \<Rightarrow> (Inl (ServerErr m), d1))"

text \<open>\<open>Pool.QueryRow(...).Scan(...)\<close>: the first row of a query, or \<open>ErrNoRows\<close>.\<close>

definition pg_query_row :: "pg \<Rightarrow> (nat \<Rightarrow> db \<Rightarrow> sql_err + 'r) \<Rightarrow> db \<Rightarrow> (sql_err + 'r) \<times> db" where
  "pg_query_row P q d =
     (let n = db_calls d; d0 = d\<lparr>db_calls := Suc n\<rparr>
      in case pg_fault P n of
           NoFault \<Rightarrow> (q n d0, d0)
         | LostBefore m \<Rightarrow> (Inl (ServerErr m), d0)
         | LostAfter m \<Rightarrow> (Inl (ServerErr m), d0)
         | LostDuring m _ \<Rightarrow> (Inl (ServerErr m), d0))"

text \<open>
  \<open>Pool.Query\<close> and the loop over \<open>rows.Next()\<close> with a \<open>Scan\<close> in its body.  The loop ends when
  \<open>Next\<close> returns false, which it also does when the connection is lost between two rows; the code
  never asks \<open>rows.Err()\<close>, so it then returns the rows it has.
\<close>

fun scan_rows :: "('r \<Rightarrow> sql_err + 'a) \<Rightarrow> 'r list \<Rightarrow> sql_err + 'a list" where
  "scan_rows sc [] = Inr []"
| "scan_rows sc (r # rs) =
     (case sc r of Inl e \<Rightarrow> Inl e
      | Inr a \<Rightarrow> (case scan_rows sc rs of Inl e \<Rightarrow> Inl e | Inr as \<Rightarrow> Inr (a # as)))"

definition pg_query ::
  "pg \<Rightarrow> (nat \<Rightarrow> db \<Rightarrow> sql_err + 'r list) \<Rightarrow> ('r \<Rightarrow> sql_err + 'a) \<Rightarrow> db \<Rightarrow> (sql_err + 'a list) \<times> db" where
  "pg_query P q sc d =
     (let n = db_calls d; d0 = d\<lparr>db_calls := Suc n\<rparr>
      in (case pg_fault P n of
           NoFault \<Rightarrow> (case q n d0 of Inl e \<Rightarrow> Inl e | Inr rs \<Rightarrow> scan_rows sc rs)
         | LostBefore m \<Rightarrow> Inl (ServerErr m)
         | LostAfter m \<Rightarrow> Inl (ServerErr m)
         | LostDuring m k \<Rightarrow> (case q n d0 of Inl e \<Rightarrow> Inl e | Inr rs \<Rightarrow> scan_rows sc (take k rs)), d0))"

section \<open>Schema checks\<close>

definition has_user :: "db \<Rightarrow> uuid \<Rightarrow> bool" where
  "has_user d u \<longleftrightarrow> u \<in> ur_id ` set (db_users d)"

definition has_function :: "db \<Rightarrow> uuid \<Rightarrow> bool" where
  "has_function d f \<longleftrightarrow> f \<in> fr_id ` set (db_functions d)"

definition has_version :: "db \<Rightarrow> uuid \<Rightarrow> bool" where
  "has_version d v \<longleftrightarrow> v \<in> ver_id ` set (db_versions d)"

definition varchar :: "nat \<Rightarrow> string \<Rightarrow> bool" where
  "varchar n s \<longleftrightarrow> char_length s \<le> n"

section \<open>Statements on \<open>users\<close>\<close>

definition sql_insert_user :: "uuid \<Rightarrow> string \<Rightarrow> string \<Rightarrow> string \<Rightarrow> int \<Rightarrow> db \<Rightarrow> sql_err + db" where
  "sql_insert_user i email hash key now d =
     (if \<not> varchar 255 email then Inl StringTooLong
      else if i \<in> ur_id ` set (db_users d) then Inl (UniqueViolation ''users_pkey'')
      else if email \<in> ur_email ` set (db_users d) then Inl (UniqueViolation ''users_email_key'')
      else if key \<in> ur_api_key ` set (db_users d) then Inl (UniqueViolation ''users_api_key_key'')
      else Inr (d\<lparr>db_users := db_users d @
        [\<lparr>ur_id = i, ur_email = email, ur_password_hash = hash, ur_api_key = key,
          ur_created = now, ur_updated = now\<rparr>]\<rparr>))"

definition sql_select_user_by_email :: "string \<Rightarrow> nat \<Rightarrow> db \<Rightarrow> sql_err + user_row" where
  "sql_select_user_by_email email n d =
     (case find (\<lambda>r. ur_email r = email) (db_users d) of None \<Rightarrow> Inl NoRows | Some r \<Rightarrow> Inr r)"

section \<open>Statements on \<open>functions\<close>\<close>

definition sql_insert_function :: "func \<Rightarrow> int \<Rightarrow> db \<Rightarrow> sql_err + db" where
  "sql_insert_function fn now d =
     (if \<not> (in_int32 (fn_memory fn) \<and> in_int32 (fn_cpu fn) \<and> in_int32 (fn_timeout fn) \<and> in_int32 (fn_maxconc fn))
      then Inl NumericOutOfRange
      else if \<not> (varchar 255 (fn_name fn) \<and> varchar 255 (fn_entrypoint fn)) then Inl StringTooLong
      else if has_function d (fn_id fn) then Inl (UniqueViolation ''functions_pkey'')
      else if \<not> has_user d (fn_user fn) then Inl (ForeignKeyViolation ''functions_user_id_fkey'')
      else Inr (d\<lparr>db_functions := db_functions d @
        [\<lparr>fr_id = fn_id fn, fr_user = fn_user fn, fr_name = fn_name fn, fr_entrypoint = fn_entrypoint fn,
          fr_memory = fn_memory fn, fr_cpu = fn_cpu fn, fr_timeout = fn_timeout fn,
          fr_maxconc = fn_maxconc fn, fr_active = None, fr_created = now, fr_updated = now\<rparr>]\<rparr>))"

definition sql_select_function :: "uuid \<Rightarrow> nat \<Rightarrow> db \<Rightarrow> sql_err + func_row" where
  "sql_select_function i n d =
     (case find (\<lambda>r. fr_id r = i) (db_functions d) of None \<Rightarrow> Inl NoRows | Some r \<Rightarrow> Inr r)"

definition sql_select_functions_of_user :: "pg \<Rightarrow> uuid \<Rightarrow> nat \<Rightarrow> db \<Rightarrow> sql_err + func_row list" where
  "sql_select_functions_of_user P u n d =
     Inr (sort_key (\<lambda>r. - fr_created r) (rows_where (\<lambda>r. fr_user r = u) (pg_scan_functions P n (db_functions d))))"

definition sql_update_active_version :: "uuid \<Rightarrow> uuid \<Rightarrow> int \<Rightarrow> db \<Rightarrow> sql_err + db" where
  "sql_update_active_version f v now d =
     (if has_function d f \<and> \<not> has_version d v
      then Inl (ForeignKeyViolation ''functions_active_version_id_fkey'')
      else Inr (d\<lparr>db_functions :=
        update_where (\<lambda>r. fr_id r = f) (\<lambda>r. r\<lparr>fr_active := Some v, fr_updated := now\<rparr>) (db_functions d)\<rparr>))"

text \<open>
  Deleting a function deletes its versions with it (\<open>ON DELETE CASCADE\<close>), and is refused while an
  invocation or a dead-letter entry still refers to the function or to one of those versions, or
  another function has one of them active.
\<close>

definition sql_delete_function :: "uuid \<Rightarrow> int \<Rightarrow> db \<Rightarrow> sql_err + db" where
  "sql_delete_function f now d =
     (let gone = ver_id ` {v \<in> set (db_versions d). ver_fn v = f}
      in if \<not> has_function d f then Inr d
         else if (\<exists>i \<in> set (db_invocations d). inv_fn i = f \<or> inv_ver i \<in> gone) then
           Inl (ForeignKeyViolation ''invocations'')
         else if (\<exists>e \<in> set (db_dlq d). dlq_fn e = f \<or> dlq_ver e \<in> gone) then
           Inl (ForeignKeyViolation ''dlq_invocations'')
         else if (\<exists>r \<in> set (db_functions d). fr_id r \<noteq> f \<and> (\<exists>v \<in> gone. fr_active r = Some v)) then
           Inl (ForeignKeyViolation ''functions_active_version_id_fkey'')
         else Inr (d\<lparr>db_functions := delete_where (\<lambda>r. fr_id r = f) (db_functions d),
                    db_versions := delete_where (\<lambda>v. ver_fn v = f) (db_versions d)\<rparr>))"

section \<open>Statements on \<open>function_versions\<close>\<close>

definition sql_insert_version :: "version \<Rightarrow> int \<Rightarrow> db \<Rightarrow> sql_err + db" where
  "sql_insert_version v now d =
     (if \<not> in_int32 (ver_num v) then Inl NumericOutOfRange
      else if \<not> varchar 20 (ver_status v) then Inl StringTooLong
      else if has_version d (ver_id v) then Inl (UniqueViolation ''function_versions_pkey'')
      else if \<not> has_function d (ver_fn v) then Inl (ForeignKeyViolation ''fk_function_versions_function_id'')
      else Inr (d\<lparr>db_versions := db_versions d @ [v\<lparr>ver_created := now\<rparr>]\<rparr>))"

definition sql_select_version :: "uuid \<Rightarrow> nat \<Rightarrow> db \<Rightarrow> sql_err + version" where
  "sql_select_version i n d =
     (case find (\<lambda>r. ver_id r = i) (db_versions d) of None \<Rightarrow> Inl NoRows | Some r \<Rightarrow> Inr r)"

definition sql_select_versions_of :: "pg \<Rightarrow> uuid \<Rightarrow> nat \<Rightarrow> db \<Rightarrow> sql_err + version list" where
  "sql_select_versions_of P f n d =
     Inr (sort_key (\<lambda>v. - ver_num v) (rows_where (\<lambda>v. ver_fn v = f) (pg_scan_versions P n (db_versions d))))"

definition sql_max_version :: "uuid \<Rightarrow> nat \<Rightarrow> db \<Rightarrow> sql_err + int" where
  "sql_max_version f n d =
     (let nums = map ver_num (rows_where (\<lambda>v. ver_fn v = f) (db_versions d))
      in Inr (if nums = [] then 0 else Max (set nums)))"

definition sql_update_version_status :: "uuid \<Rightarrow> string \<Rightarrow> int \<Rightarrow> db \<Rightarrow> sql_err + db" where
  "sql_update_version_status v st now d =
     (if \<not> varchar 20 st \<and> has_version d v then Inl StringTooLong
      else Inr (d\<lparr>db_versions := update_where (\<lambda>r. ver_id r = v) (\<lambda>r. r\<lparr>ver_status := st\<rparr>) (db_versions d)\<rparr>))"

definition sql_delete_version :: "uuid \<Rightarrow> int \<Rightarrow> db \<Rightarrow> sql_err + db" where
  "sql_delete_version v now d =
     (if \<not> has_version d v then Inr d
      else if (\<exists>r \<in> set (db_functions d). fr_active r = Some v) then
        Inl (ForeignKeyViolation ''functions_active_version_id_fkey'')
      else if (\<exists>i \<in> set (db_invocations d). inv_ver i = v) then Inl (ForeignKeyViolation ''invocations'')
      else if (\<exists>e \<in> set (db_dlq d). dlq_ver e = v) then Inl (ForeignKeyViolation ''dlq_invocations'')
      else Inr (d\<lparr>db_versions := delete_where (\<lambda>r. ver_id r = v) (db_versions d)\<rparr>))"

section \<open>Statements on \<open>invocations\<close> and \<open>dlq_invocations\<close>\<close>

definition sql_insert_invocation :: "invocation \<Rightarrow> int \<Rightarrow> db \<Rightarrow> sql_err + db" where
  "sql_insert_invocation i now d =
     (if \<not> (in_int32 (inv_duration i) \<and> in_int32 (inv_retries i)) then Inl NumericOutOfRange
      else if \<not> varchar 20 (inv_status i) then Inl StringTooLong
      else if inv_id i \<in> inv_id ` set (db_invocations d) then Inl (UniqueViolation ''invocations_pkey'')
      else if \<not> has_function d (inv_fn i) then Inl (ForeignKeyViolation ''invocations_function_id_fkey'')
      else if \<not> has_version d (inv_ver i) then Inl (ForeignKeyViolation ''invocations_version_id_fkey'')
      else Inr (d\<lparr>db_invocations := db_invocations d @ [i\<lparr>inv_created := now\<rparr>]\<rparr>))"

definition sql_update_invocation_status :: "uuid \<Rightarrow> string \<Rightarrow> int \<Rightarrow> string \<Rightarrow> int \<Rightarrow> db \<Rightarrow> sql_err + db" where
  "sql_update_invocation_status i st dur err now d =
     (if \<not> in_int32 dur then Inl NumericOutOfRange
      else if \<not> varchar 20 st \<and> i \<in> inv_id ` set (db_invocations d) then Inl StringTooLong
      else Inr (d\<lparr>db_invocations :=
        update_where (\<lambda>r. inv_id r = i) (\<lambda>r. r\<lparr>inv_status := st, inv_duration := dur, inv_error := err\<rparr>)
          (db_invocations d)\<rparr>))"

definition sql_increment_retries :: "uuid \<Rightarrow> int \<Rightarrow> db \<Rightarrow> sql_err + db" where
  "sql_increment_retries i now d =
     (if (\<exists>r \<in> set (db_invocations d). inv_id r = i \<and> \<not> in_int32 (inv_retries r + 1)) then Inl NumericOutOfRange
      else Inr (d\<lparr>db_invocations :=
        update_where (\<lambda>r. inv_id r = i) (\<lambda>r. r\<lparr>inv_retries := inv_retries r + 1\<rparr>) (db_invocations d)\<rparr>))"

definition sql_select_invocation :: "uuid \<Rightarrow> nat \<Rightarrow> db \<Rightarrow> sql_err + invocation" where
  "sql_select_invocation i n d =
     (case find (\<lambda>r. inv_id r = i) (db_invocations d) of None \<Rightarrow> Inl NoRows | Some r \<Rightarrow> Inr r)"

definition sql_select_invocation_by_key :: "pg \<Rightarrow> string \<Rightarrow> nat \<Rightarrow> db \<Rightarrow> sql_err + invocation" where
  "sql_select_invocation_by_key P k n d =
     (case find (\<lambda>r. inv_key r = k) (pg_scan_invocations P n (db_invocations d)) of
        None \<Rightarrow> Inl NoRows | Some r \<Rightarrow> Inr r)"

definition sql_select_invocations_of :: "pg \<Rightarrow> uuid \<Rightarrow> int \<Rightarrow> nat \<Rightarrow> db \<Rightarrow> sql_err + invocation list" where
  "sql_select_invocations_of P f limit n d =
     (if limit < 0 then Inl NegativeLimit
      else Inr (take (nat limit)
        (sort_key (\<lambda>i. - inv_created i) (rows_where (\<lambda>i. inv_fn i = f) (pg_scan_invocations P n (db_invocations d))))))"

definition sql_insert_dlq :: "dlq_entry \<Rightarrow> int \<Rightarrow> db \<Rightarrow> sql_err + db" where
  "sql_insert_dlq e now d =
     (if \<not> in_int32 (dlq_attempts e) then Inl NumericOutOfRange
      else if dlq_id e \<in> dlq_id ` set (db_dlq d) then Inl (UniqueViolation ''dlq_invocations_pkey'')
      else if \<not> has_function d (dlq_fn e) then Inl (ForeignKeyViolation ''dlq_invocations_function_id_fkey'')
      else if \<not> has_version d (dlq_ver e) then Inl (ForeignKeyViolation ''dlq_invocations_version_id_fkey'')
      else Inr (d\<lparr>db_dlq := db_dlq d @ [e]\<rparr>))"

definition sql_select_dlq :: "pg \<Rightarrow> nat \<Rightarrow> db \<Rightarrow> sql_err + dlq_entry list" where
  "sql_select_dlq P n d =
     Inr (take 100 (sort_key (\<lambda>e. - dlq_created e) (pg_scan_dlq P n (db_dlq d))))"

definition sql_delete_dlq :: "uuid \<Rightarrow> int \<Rightarrow> db \<Rightarrow> sql_err + db" where
  "sql_delete_dlq i now d = Inr (d\<lparr>db_dlq := delete_where (\<lambda>e. dlq_id e = i) (db_dlq d)\<rparr>)"

end
