(* ===== verification/Repository.thy ===== *)
theory Repository
  imports Store
begin

text \<open>
  The data access layer, \<open>internal/repository\<close>: one definition per method of
  \<open>FunctionRepository\<close>, \<open>VersionRepository\<close> and \<open>InvocationRepository\<close>, and \<open>WithTx\<close>.  Each runs
  one statement of \<open>Store\<close> and turns rows into the structs of \<open>Models\<close>.  The lemmas show what each
  statement does to each table, and that every statement keeps the schema's constraints
  (\<open>db_wf\<close>), whatever calls are lost.
\<close>

section \<open>FunctionRepository\<close>

definition scan_function :: "pg \<Rightarrow> func_row \<Rightarrow> sql_err + func" where
  "scan_function P r =
     (case (case fr_active r of None \<Rightarrow> pg_scan_null P | Some v \<Rightarrow> Inr v) of
        Inl m \<Rightarrow> Inl (ScanErr m)
      | Inr v \<Rightarrow> Inr \<lparr>fn_id = fr_id r, fn_user = fr_user r, fn_name = fr_name r,
          fn_entrypoint = fr_entrypoint r, fn_memory = fr_memory r, fn_cpu = fr_cpu r,
          fn_timeout = fr_timeout r, fn_maxconc = fr_maxconc r, fn_active = v,
          fn_created = fr_created r, fn_updated = fr_updated r\<rparr>)"

definition fn_create :: "pg \<Rightarrow> func \<Rightarrow> db \<Rightarrow> (sql_err + unit) \<times> db" where
  "fn_create P fn d = pg_exec P (sql_insert_function fn) d"

definition fn_get_by_id :: "pg \<Rightarrow> uuid \<Rightarrow> db \<Rightarrow> (sql_err + func) \<times> db" where
  "fn_get_by_id P i d =
     (case pg_query_row P (sql_select_function i) d of
        (Inl e, d') \<Rightarrow> (Inl e, d')
      | (Inr r, d') \<Rightarrow> (scan_function P r, d'))"

definition fn_list_by_user_id :: "pg \<Rightarrow> uuid \<Rightarrow> db \<Rightarrow> (sql_err + func list) \<times> db" where
  "fn_list_by_user_id P u d = pg_query P (sql_select_functions_of_user P u) (scan_function P) d"

definition fn_update_active_version :: "pg \<Rightarrow> uuid \<Rightarrow> uuid \<Rightarrow> db \<Rightarrow> (sql_err + unit) \<times> db" where
  "fn_update_active_version P f v d = pg_exec P (sql_update_active_version f v) d"

definition fn_delete :: "pg \<Rightarrow> uuid \<Rightarrow> db \<Rightarrow> (sql_err + unit) \<times> db" where
  "fn_delete P f d = pg_exec P (sql_delete_function f) d"

definition fn_delete_version :: "pg \<Rightarrow> uuid \<Rightarrow> db \<Rightarrow> (sql_err + unit) \<times> db" where
  "fn_delete_version P v d = pg_exec P (sql_delete_version v) d"

text \<open>
  \<open>WithTx\<close>: the callback works on the transaction; on an error the deferred rollback discards what
  it did, otherwise the commit decides.
\<close>

definition with_tx :: "pg \<Rightarrow> (db \<Rightarrow> (sql_err + unit) \<times> db) \<Rightarrow> db \<Rightarrow> (sql_err + unit) \<times> db" where
  "with_tx P f d =
     (case pg_exec P (\<lambda>_ x. Inr x) d of
        (Inl e, d0) \<Rightarrow> (Inl e, d0)
      | (Inr _, d0) \<Rightarrow>
          (case f d0 of
             (Inl e, d1) \<Rightarrow> (Inl e, d0\<lparr>db_calls := db_calls d1\<rparr>)
           | (Inr _, d1) \<Rightarrow> pg_exec P (\<lambda>_ x. Inr (d1\<lparr>db_calls := db_calls x\<rparr>)) (d0\<lparr>db_calls := db_calls d1\<rparr>)))"

section \<open>VersionRepository\<close>

definition ver_create :: "pg \<Rightarrow> version \<Rightarrow> db \<Rightarrow> (sql_err + unit) \<times> db" where
  "ver_create P v d = pg_exec P (sql_insert_version v) d"

definition ver_get_by_id :: "pg \<Rightarrow> uuid \<Rightarrow> db \<Rightarrow> (sql_err + version) \<times> db" where
  "ver_get_by_id P i d = pg_query_row P (sql_select_version i) d"

definition ver_list_by_function_id :: "pg \<Rightarrow> uuid \<Rightarrow> db \<Rightarrow> (sql_err + version list) \<times> db" where
  "ver_list_by_function_id P f d = pg_query P (sql_select_versions_of P f) Inr d"

definition ver_latest_number :: "pg \<Rightarrow> uuid \<Rightarrow> db \<Rightarrow> (sql_err + int) \<times> db" where
  "ver_latest_number P f d = pg_query_row P (sql_max_version f) d"

definition ver_update_status :: "pg \<Rightarrow> uuid \<Rightarrow> string \<Rightarrow> db \<Rightarrow> (sql_err + unit) \<times> db" where
  "ver_update_status P v st d = pg_exec P (sql_update_version_status v st) d"

section \<open>InvocationRepository\<close>

definition inv_create :: "pg \<Rightarrow> invocation \<Rightarrow> db \<Rightarrow> (sql_err + unit) \<times> db" where
  "inv_create P i d = pg_exec P (sql_insert_invocation i) d"

definition inv_update_status :: "pg \<Rightarrow> uuid \<Rightarrow> string \<Rightarrow> int \<Rightarrow> string \<Rightarrow> db \<Rightarrow> (sql_err + unit) \<times> db" where
  "inv_update_status P i st dur err d = pg_exec P (sql_update_invocation_status i st dur err) d"

definition inv_get_by_id :: "pg \<Rightarrow> uuid \<Rightarrow> db \<Rightarrow> (sql_err + invocation) \<times> db" where
  "inv_get_by_id P i d = pg_query_row P (sql_select_invocation i) d"

definition inv_get_by_key :: "pg \<Rightarrow> string \<Rightarrow> db \<Rightarrow> (sql_err + invocation) \<times> db" where
  "inv_get_by_key P k d = pg_query_row P (sql_select_invocation_by_key P k) d"

definition inv_list_by_function_id :: "pg \<Rightarrow> uuid \<Rightarrow> int \<Rightarrow> db \<Rightarrow> (sql_err + invocation list) \<times> db" where
  "inv_list_by_function_id P f limit d = pg_query P (sql_select_invocations_of P f limit) Inr d"

definition inv_increment_retry_count :: "pg \<Rightarrow> uuid \<Rightarrow> db \<Rightarrow> (sql_err + unit) \<times> db" where
  "inv_increment_retry_count P i d = pg_exec P (sql_increment_retries i) d"

lemmas repo_defs =
  fn_create_def fn_get_by_id_def fn_list_by_user_id_def fn_update_active_version_def fn_delete_def
  fn_delete_version_def ver_create_def ver_get_by_id_def ver_list_by_function_id_def
  ver_latest_number_def ver_update_status_def inv_create_def inv_update_status_def
  inv_get_by_id_def inv_get_by_key_def inv_list_by_function_id_def inv_increment_retry_count_def

lemmas sql_write_defs =
  sql_insert_user_def sql_insert_function_def sql_update_active_version_def sql_delete_function_def
  sql_insert_version_def sql_update_version_status_def sql_delete_version_def
  sql_insert_invocation_def sql_update_invocation_status_def sql_increment_retries_def
  sql_insert_dlq_def sql_delete_dlq_def

section \<open>Reads leave the tables alone\<close>

text \<open>\<open>same_tables\<close>: the two states differ in the number of calls at most.\<close>

definition same_tables :: "db \<Rightarrow> db \<Rightarrow> bool" where
  "same_tables d d' \<longleftrightarrow> d'\<lparr>db_calls := 0\<rparr> = d\<lparr>db_calls := 0\<rparr>"

lemma same_tables_iff:
  "same_tables d d' \<longleftrightarrow> db_users d' = db_users d \<and> db_functions d' = db_functions d \<and>
     db_versions d' = db_versions d \<and> db_invocations d' = db_invocations d \<and> db_dlq d' = db_dlq d"
  by (cases d; cases d') (auto simp: same_tables_def)

lemma same_tables_refl [simp]: "same_tables d d"
  by (simp add: same_tables_def)

lemma same_tables_trans: "same_tables a b \<Longrightarrow> same_tables b c \<Longrightarrow> same_tables a c"
  by (simp add: same_tables_def)

lemma same_tables_calls [simp]: "same_tables d (d\<lparr>db_calls := n\<rparr>)"
  by (simp add: same_tables_def)

lemma pg_query_row_tables: "pg_query_row P q d = (r, d') \<Longrightarrow> d' = d\<lparr>db_calls := Suc (db_calls d)\<rparr>"
  by (auto simp: pg_query_row_def Let_def split: fault.splits)

lemma pg_query_tables: "pg_query P q sc d = (r, d') \<Longrightarrow> d' = d\<lparr>db_calls := Suc (db_calls d)\<rparr>"
  by (auto simp: pg_query_def Let_def)

lemma pg_query_row_Inr:
  "pg_query_row P q d = (Inr r, d') \<Longrightarrow> q (db_calls d) (d\<lparr>db_calls := Suc (db_calls d)\<rparr>) = Inr r"
  by (auto simp: pg_query_row_def Let_def split: fault.splits)

lemma repo_reads [db_simps]:
  "fn_get_by_id P i d = (r1, d') \<Longrightarrow> d' = d\<lparr>db_calls := Suc (db_calls d)\<rparr>"
  "fn_list_by_user_id P u d = (r2, d') \<Longrightarrow> d' = d\<lparr>db_calls := Suc (db_calls d)\<rparr>"
  "ver_get_by_id P i d = (r3, d') \<Longrightarrow> d' = d\<lparr>db_calls := Suc (db_calls d)\<rparr>"
  "ver_list_by_function_id P i d = (r4, d') \<Longrightarrow> d' = d\<lparr>db_calls := Suc (db_calls d)\<rparr>"
  "ver_latest_number P i d = (r5, d') \<Longrightarrow> d' = d\<lparr>db_calls := Suc (db_calls d)\<rparr>"
  "inv_get_by_id P i d = (r6, d') \<Longrightarrow> d' = d\<lparr>db_calls := Suc (db_calls d)\<rparr>"
  "inv_get_by_key P k d = (r7, d') \<Longrightarrow> d' = d\<lparr>db_calls := Suc (db_calls d)\<rparr>"
  "inv_list_by_function_id P i l d = (r8, d') \<Longrightarrow> d' = d\<lparr>db_calls := Suc (db_calls d)\<rparr>"
  by (auto simp: repo_defs dest: pg_query_row_tables pg_query_tables split: prod.splits sum.splits)

section \<open>The schema's constraints\<close>

definition db_wf :: "db \<Rightarrow> bool" where
  "db_wf d \<longleftrightarrow>
     pk_ok ur_id (db_users d) \<and> pk_ok ur_email (db_users d) \<and> pk_ok ur_api_key (db_users d) \<and>
     pk_ok fr_id (db_functions d) \<and> pk_ok ver_id (db_versions d) \<and>
     pk_ok inv_id (db_invocations d) \<and> pk_ok dlq_id (db_dlq d) \<and>
     (\<forall>f \<in> set (db_functions d). has_user d (fr_user f)) \<and>
     (\<forall>f \<in> set (db_functions d). \<forall>v. fr_active f = Some v \<longrightarrow> has_version d v) \<and>
     (\<forall>v \<in> set (db_versions d). has_function d (ver_fn v)) \<and>
     (\<forall>i \<in> set (db_invocations d). has_function d (inv_fn i) \<and> has_version d (inv_ver i)) \<and>
     (\<forall>e \<in> set (db_dlq d). has_function d (dlq_fn e) \<and> has_version d (dlq_ver e))"

lemmas has_defs = has_user_def has_function_def has_version_def

lemma db_wf_calls [simp]: "db_wf (d\<lparr>db_calls := n\<rparr>) = db_wf d"
  by (simp add: db_wf_def has_defs)

lemma empty_db_wf: "db_wf empty_db"
  by (simp add: db_wf_def empty_db_def)

lemma image_key_update_where:
  "(\<And>r. key (f r) = key r) \<Longrightarrow> key ` set (update_where P f t) = key ` set t"
  by (metis list.set_map map_key_update_where)

lemma insert_user_wf: "sql_insert_user i e h k now d = Inr d' \<Longrightarrow> db_wf d \<Longrightarrow> db_wf d'"
  by (auto simp: sql_insert_user_def db_wf_def has_defs pk_ok_append1 split: if_splits)

lemma insert_function_wf: "sql_insert_function fn now d = Inr d' \<Longrightarrow> db_wf d \<Longrightarrow> db_wf d'"
  by (auto simp: sql_insert_function_def db_wf_def has_defs pk_ok_append1 split: if_splits)

lemma update_active_wf: "sql_update_active_version f v now d = Inr d' \<Longrightarrow> db_wf d \<Longrightarrow> db_wf d'"
  by (clarsimp simp: sql_update_active_version_def db_wf_def has_defs pk_ok_update_where
      image_key_update_where ball_update_where split: if_splits)

lemma insert_version_wf: "sql_insert_version v now d = Inr d' \<Longrightarrow> db_wf d \<Longrightarrow> db_wf d'"
  by (auto simp: sql_insert_version_def db_wf_def has_defs pk_ok_append1 split: if_splits)

lemma update_version_status_wf: "sql_update_version_status v st now d = Inr d' \<Longrightarrow> db_wf d \<Longrightarrow> db_wf d'"
  by (clarsimp simp: sql_update_version_status_def db_wf_def has_defs pk_ok_update_where
      image_key_update_where ball_update_where split: if_splits)

lemma has_version_delete_id:
  "has_version (d\<lparr>db_versions := delete_where (\<lambda>r. ver_id r = v) (db_versions d)\<rparr>) w \<longleftrightarrow>
     has_version d w \<and> w \<noteq> v"
  by (auto simp: has_version_def)

lemma delete_version_wf:
  assumes r: "sql_delete_version v now d = Inr d'" and wf: "db_wf d"
  shows "db_wf d'"
proof (cases "has_version d v")
  case False
  with r wf show ?thesis by (simp add: sql_delete_version_def)
next
  case True
  with r have d': "d' = d\<lparr>db_versions := delete_where (\<lambda>r. ver_id r = v) (db_versions d)\<rparr>"
    and refs: "\<forall>r \<in> set (db_functions d). fr_active r \<noteq> Some v"
      "\<forall>i \<in> set (db_invocations d). inv_ver i \<noteq> v" "\<forall>e \<in> set (db_dlq d). dlq_ver e \<noteq> v"
    by (auto simp: sql_delete_version_def split: if_splits)
  have "has_user d' = has_user d" "has_function d' = has_function d"
    by (simp_all add: d' fun_eq_iff has_user_def has_function_def)
  moreover have "has_version d' w \<longleftrightarrow> has_version d w \<and> w \<noteq> v" for w
    by (simp add: d' has_version_delete_id)
  ultimately show ?thesis
    using wf refs unfolding db_wf_def by (simp add: d' pk_ok_delete_where) blast
qed

lemma insert_invocation_wf: "sql_insert_invocation i now d = Inr d' \<Longrightarrow> db_wf d \<Longrightarrow> db_wf d'"
  by (auto simp: sql_insert_invocation_def db_wf_def has_defs pk_ok_append1 split: if_splits)

lemma update_invocation_status_wf:
  "sql_update_invocation_status i st dur err now d = Inr d' \<Longrightarrow> db_wf d \<Longrightarrow> db_wf d'"
  by (auto simp: sql_update_invocation_status_def db_wf_def has_defs pk_ok_update_where
      set_update_where split: if_splits)

lemma increment_retries_wf: "sql_increment_retries i now d = Inr d' \<Longrightarrow> db_wf d \<Longrightarrow> db_wf d'"
  by (auto simp: sql_increment_retries_def db_wf_def has_defs pk_ok_update_where
      set_update_where split: if_splits)

lemma insert_dlq_wf: "sql_insert_dlq e now d = Inr d' \<Longrightarrow> db_wf d \<Longrightarrow> db_wf d'"
  by (auto simp: sql_insert_dlq_def db_wf_def has_defs pk_ok_append1 split: if_splits)

lemma delete_dlq_wf: "sql_delete_dlq i now d = Inr d' \<Longrightarrow> db_wf d \<Longrightarrow> db_wf d'"
  by (auto simp: sql_delete_dlq_def db_wf_def has_defs pk_ok_delete_where)

lemma delete_function_wf:
  assumes r: "sql_delete_function f now d = Inr d'" and wf: "db_wf d"
  shows "db_wf d'"
proof (cases "has_function d f")
  case False
  with r wf show ?thesis by (simp add: sql_delete_function_def Let_def)
next
  case True
  define gone where "gone = ver_id ` {v \<in> set (db_versions d). ver_fn v = f}"
  from r True have d': "d' = d\<lparr>db_functions := delete_where (\<lambda>r. fr_id r = f) (db_functions d),
        db_versions := delete_where (\<lambda>v. ver_fn v = f) (db_versions d)\<rparr>"
    and refs: "\<forall>i \<in> set (db_invocations d). inv_fn i \<noteq> f \<and> inv_ver i \<notin> gone"
      "\<forall>e \<in> set (db_dlq d). dlq_fn e \<noteq> f \<and> dlq_ver e \<notin> gone"
      "\<forall>r \<in> set (db_functions d). fr_id r = f \<or> (\<forall>v \<in> gone. fr_active r \<noteq> Some v)"
    by (auto simp: sql_delete_function_def gone_def Let_def split: if_splits)
  have u: "has_user d' = has_user d"
    by (simp add: d' fun_eq_iff has_user_def)
  have g: "has_function d' g \<longleftrightarrow> has_function d g \<and> g \<noteq> f" for g
    by (auto simp: d' has_function_def)
  have v: "has_version d' w" if "has_version d w" "w \<notin> gone" for w
    using that by (auto simp: d' has_version_def gone_def)
  have sets: "set (db_functions d') \<subseteq> set (db_functions d)" "set (db_versions d') \<subseteq> set (db_versions d)"
    "db_users d' = db_users d" "db_invocations d' = db_invocations d" "db_dlq d' = db_dlq d"
    "\<forall>r \<in> set (db_functions d'). fr_id r \<noteq> f" "\<forall>x \<in> set (db_versions d'). ver_fn x \<noteq> f"
    by (auto simp: d')
  have pks: "pk_ok fr_id (db_functions d')" "pk_ok ver_id (db_versions d')"
    using wf by (simp_all add: d' db_wf_def pk_ok_delete_where)
  note wf' = wf[unfolded db_wf_def]
  have "\<forall>x \<in> set (db_functions d'). has_user d (fr_user x)"
    "\<forall>x \<in> set (db_functions d'). \<forall>w. fr_active x = Some w \<longrightarrow> has_version d' w"
    using wf' refs(3) sets(1,6) v by blast+
  moreover have "\<forall>x \<in> set (db_versions d'). has_function d (ver_fn x) \<and> ver_fn x \<noteq> f"
    using wf' sets(2,7) by blast
  moreover have "\<forall>i \<in> set (db_invocations d). (has_function d (inv_fn i) \<and> inv_fn i \<noteq> f) \<and> has_version d' (inv_ver i)"
    using wf' refs(1) v by blast
  moreover have "\<forall>e \<in> set (db_dlq d). (has_function d (dlq_fn e) \<and> dlq_fn e \<noteq> f) \<and> has_version d' (dlq_ver e)"
    using wf' refs(2) v by blast
  ultimately show ?thesis
    using wf' pks by (simp add: db_wf_def u g sets)
qed

section \<open>Statements that keep a property of the tables\<close>

text \<open>
  A statement that keeps a property of the tables when it succeeds keeps it when it is run through
  the driver, whichever calls are lost: a lost call either had no effect or had the statement's.
\<close>

locale keeps =
  fixes I :: "db \<Rightarrow> bool" and st :: "int \<Rightarrow> db \<Rightarrow> sql_err + db"
  assumes calls: "I (d\<lparr>db_calls := n\<rparr>) = I d"
    and step: "st now d = Inr d' \<Longrightarrow> I d \<Longrightarrow> I d'"
begin

lemma exec:
  assumes r: "pg_exec P st d = (r, d')" and i: "I d"
  shows "I d'"
proof -
  let ?d0 = "d\<lparr>db_calls := Suc (db_calls d)\<rparr>"
  have i0: "I ?d0" using i calls by simp
  with r show ?thesis
    by (auto simp: pg_exec_def Let_def split: fault.splits sum.splits intro: step[OF _ i0])
qed

end

text \<open>The constraints of the schema are kept by every statement that writes.\<close>

interpretation ins_user: keeps db_wf "sql_insert_user i e h k" for i e h k
  by unfold_locales (simp, rule insert_user_wf)
interpretation ins_fn: keeps db_wf "sql_insert_function fn" for fn
  by unfold_locales (simp, rule insert_function_wf)
interpretation upd_active: keeps db_wf "sql_update_active_version f v" for f v
  by unfold_locales (simp, rule update_active_wf)
interpretation del_fn: keeps db_wf "sql_delete_function f" for f
  by unfold_locales (simp, rule delete_function_wf)
interpretation del_ver: keeps db_wf "sql_delete_version v" for v
  by unfold_locales (simp, rule delete_version_wf)
interpretation ins_ver: keeps db_wf "sql_insert_version v" for v
  by unfold_locales (simp, rule insert_version_wf)
interpretation upd_ver: keeps db_wf "sql_update_version_status v s" for v s
  by unfold_locales (simp, rule update_version_status_wf)
interpretation ins_inv: keeps db_wf "sql_insert_invocation i" for i
  by unfold_locales (simp, rule insert_invocation_wf)
interpretation upd_inv: keeps db_wf "sql_update_invocation_status i s t e" for i s t e
  by unfold_locales (simp, rule update_invocation_status_wf)
interpretation inc_inv: keeps db_wf "sql_increment_retries i" for i
  by unfold_locales (simp, rule increment_retries_wf)
interpretation ins_dlq: keeps db_wf "sql_insert_dlq e" for e
  by unfold_locales (simp, rule insert_dlq_wf)
interpretation del_dlq: keeps db_wf "sql_delete_dlq i" for i
  by unfold_locales (simp, rule delete_dlq_wf)

lemmas writes_wf =
  ins_user.exec ins_fn.exec upd_active.exec del_fn.exec del_ver.exec ins_ver.exec upd_ver.exec
  ins_inv.exec upd_inv.exec inc_inv.exec ins_dlq.exec del_dlq.exec

lemma reads_wf:
  "pg_query_row P q d = (r, d') \<Longrightarrow> db_wf d \<Longrightarrow> db_wf d'"
  "pg_query P q2 sc d = (r2, d') \<Longrightarrow> db_wf d \<Longrightarrow> db_wf d'"
  by (auto dest: pg_query_row_tables pg_query_tables)

text \<open>Running a statement when the server answers.\<close>

lemma pg_exec_ok:
  "pg_exec P st d = (Inr u, d') \<Longrightarrow>
   pg_fault P (db_calls d) = NoFault \<and> st (pg_now P (db_calls d)) (d\<lparr>db_calls := Suc (db_calls d)\<rparr>) = Inr d'"
  by (auto simp: pg_exec_def Let_def split: fault.splits sum.splits)

lemma pg_exec_cases:
  assumes "pg_exec P st d = (r, d')"
  obtains "d' = d\<lparr>db_calls := Suc (db_calls d)\<rparr>"
  | "st (pg_now P (db_calls d)) (d\<lparr>db_calls := Suc (db_calls d)\<rparr>) = Inr d'"
  using assms by (auto simp: pg_exec_def Let_def split: fault.splits sum.splits)

lemma pg_exec_calm:
  "pg_fault P (db_calls d) = NoFault \<Longrightarrow>
   pg_exec P st d = (case st (pg_now P (db_calls d)) (d\<lparr>db_calls := Suc (db_calls d)\<rparr>) of
     Inl e \<Rightarrow> (Inl e, d\<lparr>db_calls := Suc (db_calls d)\<rparr>) | Inr d' \<Rightarrow> (Inr (), d'))"
  by (simp add: pg_exec_def Let_def split: sum.splits)

lemma pg_query_row_calm:
  "pg_fault P (db_calls d) = NoFault \<Longrightarrow>
   pg_query_row P q d = (q (db_calls d) (d\<lparr>db_calls := Suc (db_calls d)\<rparr>), d\<lparr>db_calls := Suc (db_calls d)\<rparr>)"
  by (simp add: pg_query_row_def Let_def)

lemma pg_query_calm:
  "pg_fault P (db_calls d) = NoFault \<Longrightarrow>
   pg_query P q sc d =
     (case q (db_calls d) (d\<lparr>db_calls := Suc (db_calls d)\<rparr>) of Inl e \<Rightarrow> Inl e | Inr rs \<Rightarrow> scan_rows sc rs,
      d\<lparr>db_calls := Suc (db_calls d)\<rparr>)"
  by (simp add: pg_query_def Let_def split: sum.splits)

lemma scan_rows_Inr [simp]: "scan_rows Inr rs = Inr rs"
  by (induction rs) auto

section \<open>What the reads return\<close>

lemma fn_get_by_idD:
  "fn_get_by_id P i d = (Inr fn, d') \<Longrightarrow>
   \<exists>r \<in> set (db_functions d). fr_id r = i \<and> scan_function P r = Inr fn"
  by (auto simp: fn_get_by_id_def sql_select_function_def split: prod.splits sum.splits option.splits
      dest!: pg_query_row_Inr find_SomeD)

lemma scan_function_active:
  "scan_function P r = Inr fn \<Longrightarrow>
   fr_active r = Some (fn_active fn) \<or> fr_active r = None \<and> pg_scan_null P = Inr (fn_active fn)"
  by (auto simp: scan_function_def split: option.splits sum.splits)

lemma ver_get_by_idD:
  "ver_get_by_id P i d = (Inr v, d') \<Longrightarrow> v \<in> set (db_versions d) \<and> ver_id v = i"
  by (auto simp: ver_get_by_id_def sql_select_version_def split: option.splits
      dest!: pg_query_row_Inr find_SomeD)

lemma ver_latest_numberD:
  "ver_latest_number P f d = (Inr n, d') \<Longrightarrow> sql_max_version f (db_calls d) d = Inr n"
  by (auto simp: ver_latest_number_def sql_max_version_def dest!: pg_query_row_Inr)

context pg_scans
begin

lemma ver_list_subset:
  "ver_list_by_function_id P f d = (Inr vs, d') \<Longrightarrow> set vs \<subseteq> {v \<in> set (db_versions d). ver_fn v = f}"
  by (auto simp: ver_list_by_function_id_def pg_query_def sql_select_versions_of_def Let_def
      split: fault.splits dest!: in_set_takeD)

end

end
