(* ===== verification/Handlers.thy ===== *)
theory Handlers
  imports Repository
begin

text \<open>
  The request handlers of \<open>internal/http/handler\<close>: \<open>FunctionHandler\<close> and \<open>InvocationHandler\<close>.
  A handler takes what it reads from the request (path parameters, headers, query, the result of
  \<open>ShouldBindJSON\<close>, the \<open>user_id\<close> the middleware left in the context), the identifiers
  \<open>uuid.New()\<close> yields, and the store; it returns the reply and the store.  A failed type assertion
  is a panic, the reply \<open>Panicked\<close>.
\<close>

datatype reply = Reply nat json | NoBody nat | Panicked

type_synonym handler = "db \<Rightarrow> reply \<times> db"

definition err_json :: "string \<Rightarrow> json" where
  "err_json m = JObj [(''error'', JStr m)]"

definition uuid_json :: "ext \<Rightarrow> uuid \<Rightarrow> json" where
  "uuid_json X u = JStr (uuid_str X u)"

definition time_json :: "ext \<Rightarrow> int \<Rightarrow> json" where
  "time_json X t = JStr (time_str X t)"

section \<open>FunctionHandler\<close>

record create_input =
  ci_name :: string
  ci_entrypoint :: string
  ci_memory :: int
  ci_cpu :: int
  ci_timeout :: int
  ci_maxconc :: int

definition fh_create :: "pg \<Rightarrow> ext \<Rightarrow> string + create_input \<Rightarrow> string option \<Rightarrow> uuid \<Rightarrow> handler" where
  "fh_create P X input user_id new_id d =
     (case input of
        Inl e \<Rightarrow> (Reply 400 (err_json e), d)
      | Inr i \<Rightarrow>
          (case user_id of
             None \<Rightarrow> (Panicked, d)
           | Some uid \<Rightarrow>
               (case uuid_parse X uid of
                  None \<Rightarrow> (Reply 500 (err_json ''invalid user context''), d)
                | Some u \<Rightarrow>
                    let fn = \<lparr>fn_id = new_id, fn_user = u, fn_name = ci_name i,
                              fn_entrypoint = ci_entrypoint i, fn_memory = ci_memory i,
                              fn_cpu = ci_cpu i, fn_timeout = ci_timeout i,
                              fn_maxconc = ci_maxconc i, fn_active = uuid_nil,
                              fn_created = 0, fn_updated = 0\<rparr>
                    in case fn_create P fn d of
                         (Inl _, d') \<Rightarrow> (Reply 500 (err_json ''failed to create function''), d')
                       | (Inr _, d') \<Rightarrow>
                           (Reply 201 (JObj [(''id'', uuid_json X (fn_id fn)), (''name'', JStr (fn_name fn))]), d'))))"

definition fh_list :: "pg \<Rightarrow> ext \<Rightarrow> string option \<Rightarrow> handler" where
  "fh_list P X user_id d =
     (case user_id of
        None \<Rightarrow> (Panicked, d)
      | Some uid \<Rightarrow>
          (case fn_list_by_user_id P (parsed_uuid X uid) d of
             (Inl _, d') \<Rightarrow> (Reply 500 (err_json ''failed to list functions''), d')
           | (Inr fns, d') \<Rightarrow>
               (Reply 200 (JArr (map (\<lambda>fn. JObj [(''id'', uuid_json X (fn_id fn)), (''name'', JStr (fn_name fn)),
                  (''active_version_id'', uuid_json X (fn_active fn)),
                  (''created_at'', time_json X (fn_created fn))]) fns)), d')))"

text \<open>The JSON form of \<open>models.Function\<close>, by its tags.\<close>

definition func_json :: "ext \<Rightarrow> func \<Rightarrow> json" where
  "func_json X fn = JObj
     [(''id'', uuid_json X (fn_id fn)), (''user_id'', uuid_json X (fn_user fn)),
      (''name'', JStr (fn_name fn)), (''entrypoint'', JStr (fn_entrypoint fn)),
      (''memory_limit'', JInt (fn_memory fn)), (''cpu_limit'', JInt (fn_cpu fn)),
      (''timeout'', JInt (fn_timeout fn)), (''max_concurrency'', JInt (fn_maxconc fn)),
      (''active_version_id'', uuid_json X (fn_active fn)),
      (''created_at'', time_json X (fn_created fn)), (''updated_at'', time_json X (fn_updated fn))]"

definition fh_get :: "pg \<Rightarrow> ext \<Rightarrow> string \<Rightarrow> handler" where
  "fh_get P X pid d =
     (case uuid_parse X pid of
        None \<Rightarrow> (Reply 400 (err_json ''invalid function ID''), d)
      | Some f \<Rightarrow>
          (case fn_get_by_id P f d of
             (Inl _, d') \<Rightarrow> (Reply 404 (err_json ''function not found''), d')
           | (Inr fn, d') \<Rightarrow> (Reply 200 (func_json X fn), d')))"

definition fh_delete :: "pg \<Rightarrow> ext \<Rightarrow> string \<Rightarrow> handler" where
  "fh_delete P X pid d =
     (case uuid_parse X pid of
        None \<Rightarrow> (Reply 400 (err_json ''invalid function ID''), d)
      | Some f \<Rightarrow>
          (case fn_delete P f d of
             (Inl _, d') \<Rightarrow> (Reply 500 (err_json ''failed to delete function''), d')
           | (Inr _, d') \<Rightarrow> (NoBody 204, d')))"

text \<open>
  \<open>Deploy\<close> reads the latest version number and then writes the next one; the two halves are separate
  definitions, since other requests may run between them.
\<close>

definition deploy_write :: "pg \<Rightarrow> ext \<Rightarrow> uuid \<Rightarrow> int \<Rightarrow> uuid \<Rightarrow> handler" where
  "deploy_write P X f last_num new_id d =
     (let ver = \<lparr>ver_id = new_id, ver_fn = f, ver_num = wrap64 (last_num + 1), ver_image = '''',
                 ver_status = st_queued, ver_created = 0\<rparr>
      in case ver_create P ver d of
           (Inl _, d') \<Rightarrow> (Reply 500 (err_json ''failed to create version''), d')
         | (Inr _, d') \<Rightarrow>
             (let (_, d'') = ver_update_status P (ver_id ver) st_building d'
              in (Reply 202 (JObj [(''function_id'', uuid_json X f), (''version_id'', uuid_json X (ver_id ver)),
                    (''version'', JInt (ver_num ver)), (''status'', JStr st_building),
                    (''message'', JStr ''Build initiated'')]), d'')))"

definition deploy_read :: "pg \<Rightarrow> ext \<Rightarrow> string \<Rightarrow> db \<Rightarrow> (reply + uuid \<times> int) \<times> db" where
  "deploy_read P X pid d =
     (case uuid_parse X pid of
        None \<Rightarrow> (Inl (Reply 400 (err_json ''invalid function ID'')), d)
      | Some f \<Rightarrow>
          (case fn_get_by_id P f d of
             (Inl _, d') \<Rightarrow> (Inl (Reply 404 (err_json ''function not found'')), d')
           | (Inr _, d') \<Rightarrow>
               (case ver_latest_number P f d' of
                  (Inl _, d'') \<Rightarrow> (Inl (Reply 500 (err_json ''failed to get latest version'')), d'')
                | (Inr n, d'') \<Rightarrow> (Inr (f, n), d''))))"

definition fh_deploy :: "pg \<Rightarrow> ext \<Rightarrow> string \<Rightarrow> uuid \<Rightarrow> handler" where
  "fh_deploy P X pid new_id d =
     (case deploy_read P X pid d of
        (Inl r, d') \<Rightarrow> (r, d')
      | (Inr (f, n), d') \<Rightarrow> deploy_write P X f n new_id d')"

definition fh_list_versions :: "pg \<Rightarrow> ext \<Rightarrow> string \<Rightarrow> handler" where
  "fh_list_versions P X pid d =
     (case uuid_parse X pid of
        None \<Rightarrow> (Reply 400 (err_json ''invalid function ID''), d)
      | Some f \<Rightarrow>
          (case ver_list_by_function_id P f d of
             (Inl _, d') \<Rightarrow> (Reply 500 (err_json ''failed to list versions''), d')
           | (Inr vs, d') \<Rightarrow>
               (Reply 200 (JArr (map (\<lambda>v. JObj [(''id'', uuid_json X (ver_id v)), (''version_number'', JInt (ver_num v)),
                  (''image_uri'', JStr (ver_image v)), (''status'', JStr (ver_status v)),
                  (''created_at'', time_json X (ver_created v))]) vs)), d')))"

definition fh_rollback :: "pg \<Rightarrow> ext \<Rightarrow> string \<Rightarrow> string \<Rightarrow> handler" where
  "fh_rollback P X pid pversion d =
     (case uuid_parse X pid of
        None \<Rightarrow> (Reply 400 (err_json ''invalid function ID''), d)
      | Some f \<Rightarrow>
          (case atoi pversion of
             None \<Rightarrow> (Reply 400 (err_json ''invalid version number''), d)
           | Some num \<Rightarrow>
               (case ver_list_by_function_id P f d of
                  (Inl _, d') \<Rightarrow> (Reply 500 (err_json ''failed to list versions''), d')
                | (Inr vs, d') \<Rightarrow>
                    (case find (\<lambda>v. ver_num v = num) vs of
                       None \<Rightarrow> (Reply 404 (err_json ''version not found''), d')
                     | Some target \<Rightarrow>
                         if ver_status target \<noteq> st_ready
                         then (Reply 400 (err_json ''can only rollback to READY versions''), d')
                         else (case fn_update_active_version P f (ver_id target) d' of
                                 (Inl _, d'') \<Rightarrow> (Reply 500 (err_json ''failed to rollback''), d'')
                               | (Inr _, d'') \<Rightarrow>
                                   (Reply 200 (JObj [(''function_id'', uuid_json X f),
                                      (''active_version'', uuid_json X (ver_id target)),
                                      (''version_number'', JInt (ver_num target))]), d''))))))"

text \<open>The \<open>limit\<close> query parameter: a positive number, 50 otherwise.\<close>

definition query_limit :: "string \<Rightarrow> int" where
  "query_limit l =
     (if l \<noteq> '''' then (case atoi l of Some n \<Rightarrow> if n > 0 then n else 50 | None \<Rightarrow> 50) else 50)"

definition invocation_item :: "ext \<Rightarrow> invocation \<Rightarrow> json" where
  "invocation_item X i = JObj [(''id'', uuid_json X (inv_id i)), (''status'', JStr (inv_status i)),
     (''duration_ms'', JInt (inv_duration i)), (''cold_start'', JBool (inv_cold i)),
     (''retry_count'', JInt (inv_retries i)), (''created_at'', time_json X (inv_created i))]"

definition fh_list_by_function :: "pg \<Rightarrow> ext \<Rightarrow> string \<Rightarrow> string \<Rightarrow> handler" where
  "fh_list_by_function P X pid l d =
     (case uuid_parse X pid of
        None \<Rightarrow> (Reply 400 (err_json ''invalid function ID''), d)
      | Some f \<Rightarrow>
          (case inv_list_by_function_id P f (query_limit l) d of
             (Inl _, d') \<Rightarrow> (Reply 500 (err_json ''failed to list invocations''), d')
           | (Inr is, d') \<Rightarrow> (Reply 200 (JArr (map (invocation_item X) is)), d')))"

definition fh_get_logs :: handler where
  "fh_get_logs d = (Reply 200 (JObj [(''logs'', JArr [])]), d)"

section \<open>InvocationHandler\<close>

text \<open>
  \<open>Invoke\<close> up to the check for an invocation with the same idempotency key, and the creation of the
  record; other requests may run between the two.
\<close>

definition invoke_write :: "pg \<Rightarrow> ext \<Rightarrow> uuid \<Rightarrow> uuid \<Rightarrow> string \<Rightarrow> uuid \<Rightarrow> handler" where
  "invoke_write P X f v key new_id d =
     (let inv = \<lparr>inv_id = new_id, inv_fn = f, inv_ver = v, inv_worker = uuid_nil,
                 inv_status = st_pending, inv_duration = 0, inv_cold = False, inv_retries = 0,
                 inv_error = '''', inv_key = key, inv_created = 0\<rparr>
      in case inv_create P inv d of
           (Inl _, d') \<Rightarrow> (Reply 500 (err_json ''failed to create invocation''), d')
         | (Inr _, d') \<Rightarrow>
             (Reply 202 (JObj [(''id'', uuid_json X (inv_id inv)), (''status'', JStr (inv_status inv)),
                (''message'', JStr ''Invocation accepted and queued'')]), d'))"

definition invoke_read :: "pg \<Rightarrow> ext \<Rightarrow> string \<Rightarrow> string \<Rightarrow> db \<Rightarrow> (reply + uuid \<times> uuid) \<times> db" where
  "invoke_read P X pid key d =
     (case uuid_parse X pid of
        None \<Rightarrow> (Inl (Reply 400 (err_json ''invalid function ID'')), d)
      | Some f \<Rightarrow>
          (case fn_get_by_id P f d of
             (Inl _, d1) \<Rightarrow> (Inl (Reply 404 (err_json ''function not found'')), d1)
           | (Inr fn, d1) \<Rightarrow>
               if fn_active fn = uuid_nil then (Inl (Reply 400 (err_json ''no active version set'')), d1)
               else (case ver_get_by_id P (fn_active fn) d1 of
                       (Inl _, d2) \<Rightarrow> (Inl (Reply 404 (err_json ''active version not found'')), d2)
                     | (Inr ver, d2) \<Rightarrow>
                         if key \<noteq> '''' then
                           (case inv_get_by_key P key d2 of
                              (Inr e, d3) \<Rightarrow>
                                (Inl (Reply 202 (JObj [(''id'', uuid_json X (inv_id e)),
                                   (''status'', JStr (inv_status e)),
                                   (''message'', JStr ''Duplicate request deduplicated'')])), d3)
                            | (Inl _, d3) \<Rightarrow> (Inr (f, ver_id ver), d3))
                         else (Inr (f, ver_id ver), d2))))"

definition ih_invoke :: "pg \<Rightarrow> ext \<Rightarrow> string \<Rightarrow> string \<Rightarrow> uuid \<Rightarrow> handler" where
  "ih_invoke P X pid key new_id d =
     (case invoke_read P X pid key d of
        (Inl r, d') \<Rightarrow> (r, d')
      | (Inr (f, v), d') \<Rightarrow> invoke_write P X f v key new_id d')"

definition ih_list_by_function :: "pg \<Rightarrow> ext \<Rightarrow> string \<Rightarrow> string \<Rightarrow> handler" where
  "ih_list_by_function P X pid l d =
     (case uuid_parse X pid of
        None \<Rightarrow> (Reply 400 (err_json ''invalid function ID''), d)
      | Some f \<Rightarrow>
          (case inv_list_by_function_id P f (query_limit l) d of
             (Inl _, d') \<Rightarrow> (Reply 500 (err_json ''failed to list invocations''), d')
           | (Inr is, d') \<Rightarrow> (Reply 200 (JArr (map (invocation_item X) is)), d')))"

definition ih_get_logs :: handler where
  "ih_get_logs d = (Reply 200 (JObj [(''logs'', JArr [])]), d)"

lemmas handler_defs =
  fh_create_def fh_list_def fh_get_def fh_delete_def fh_deploy_def fh_list_versions_def
  fh_rollback_def fh_list_by_function_def fh_get_logs_def ih_invoke_def ih_list_by_function_def
  ih_get_logs_def deploy_read_def deploy_write_def invoke_read_def invoke_write_def

end
