(* ===== verification/Auth.thy ===== *)
theory Auth
  imports Handlers
begin

text \<open>
  Authentication: \<open>internal/auth/auth.go\<close>, the middleware of \<open>internal/http/middleware/auth.go\<close> and
  the handlers of \<open>internal/http/handler/auth_handler.go\<close>.  The JWT and bcrypt packages are
  parameters, the record \<open>crypto\<close>; what the code relies on of them is the interface \<open>crypto_laws\<close>.
\<close>

section \<open>The token and password packages\<close>

record jwt_token =
  tk_hmac :: bool
  tk_alg :: string
  tk_valid :: bool
  tk_claims :: "(string \<times> json) list option"

type_synonym keyfunc = "jwt_token \<Rightarrow> string + string"

record crypto =
  jwt_parse :: "string \<Rightarrow> keyfunc \<Rightarrow> string + jwt_token"
  jwt_sign :: "(string \<times> json) list \<Rightarrow> string \<Rightarrow> string + string"
  bcrypt_generate :: "string \<Rightarrow> string + string"
  bcrypt_compare :: "string \<Rightarrow> string \<Rightarrow> string option"

definition hs256_token :: "(string \<times> json) list \<Rightarrow> bool \<Rightarrow> jwt_token" where
  "hs256_token cs valid = \<lparr>tk_hmac = True, tk_alg = ''HS256'', tk_valid = valid, tk_claims = Some cs\<rparr>"

text \<open>
  A signed token whose claims are in their period of validity parses, under the key it was signed
  with, to a valid token with these claims; a token is returned only if the key function gave a key
  for it; a password matches its own hash.
\<close>

locale crypto_laws =
  fixes C :: crypto and fresh :: "(string \<times> json) list \<Rightarrow> bool"
  assumes parse_signed:
      "jwt_sign C cs key = Inr s \<Longrightarrow> fresh cs \<Longrightarrow> kf (hs256_token cs False) = Inr key \<Longrightarrow>
       jwt_parse C s kf = Inr (hs256_token cs True)"
    and parse_keyed:
      "jwt_parse C s kf = Inr t \<Longrightarrow> \<exists>key. kf (t\<lparr>tk_valid := False\<rparr>) = Inr key"
    and compare_generated: "bcrypt_generate C p = Inr h \<Longrightarrow> bcrypt_compare C h p = None"

section \<open>auth.Service\<close>

record auth_service =
  as_secret :: string
  as_ttl :: int

definition new_auth_service :: "string \<Rightarrow> int \<Rightarrow> auth_service" where
  "new_auth_service secret ttl = \<lparr>as_secret = secret, as_ttl = ttl\<rparr>"

definition api_key_header :: string where "api_key_header = ''X-API-Key''"

definition api_key_prefix :: string where "api_key_prefix = ''nimbus_''"

definition key_func :: "auth_service \<Rightarrow> keyfunc" where
  "key_func S t = (if \<not> tk_hmac t then Inl (''unexpected signing method: '' @ tk_alg t) else Inr (as_secret S))"

text \<open>\<open>s, _ := claims[k].(string)\<close>\<close>

definition claim_string :: "string \<Rightarrow> (string \<times> json) list \<Rightarrow> string" where
  "claim_string k cs = (case map_of cs k of Some (JStr s) \<Rightarrow> s | _ \<Rightarrow> '''')"

definition validate_token :: "crypto \<Rightarrow> ext \<Rightarrow> auth_service \<Rightarrow> string \<Rightarrow> string + uuid \<times> string" where
  "validate_token C X S s =
     (case jwt_parse C s (key_func S) of
        Inl e \<Rightarrow> Inl e
      | Inr t \<Rightarrow>
          if \<not> tk_valid t then Inl ''invalid token''
          else (case tk_claims t of
                  None \<Rightarrow> Inl ''invalid claims''
                | Some cs \<Rightarrow>
                    (case uuid_parse X (claim_string ''sub'' cs) of
                       None \<Rightarrow> Inl ''invalid subject''
                     | Some u \<Rightarrow> Inr (u, claim_string ''type'' cs))))"

definition validate_access_token :: "crypto \<Rightarrow> ext \<Rightarrow> auth_service \<Rightarrow> string \<Rightarrow> string + uuid" where
  "validate_access_token C X S s =
     (case jwt_parse C s (key_func S) of
        Inl e \<Rightarrow> Inl e
      | Inr t \<Rightarrow>
          (case tk_claims t of
             Some cs \<Rightarrow>
               if tk_valid t then
                 (if claim_string ''type'' cs \<noteq> ''access'' then Inl ''token is not an access token''
                  else (case uuid_parse X (claim_string ''sub'' cs) of
                          None \<Rightarrow> Inl ''invalid UUID'' | Some u \<Rightarrow> Inr u))
               else Inl ''invalid token''
           | None \<Rightarrow> Inl ''invalid token''))"

definition hash_password :: "crypto \<Rightarrow> string \<Rightarrow> string + string" where
  "hash_password C p = bcrypt_generate C p"

definition verify_password :: "crypto \<Rightarrow> string \<Rightarrow> string \<Rightarrow> string option" where
  "verify_password C h p = bcrypt_compare C h p"

text \<open>\<open>GenerateAPIKey\<close>: the argument is what \<open>rand.Read\<close> does with the 24-byte buffer.\<close>

definition generate_api_key :: "string + char list \<Rightarrow> string + string" where
  "generate_api_key rand = (case rand of Inl e \<Rightarrow> Inl e | Inr b \<Rightarrow> Inr (api_key_prefix @ hex_bytes b))"

text \<open>\<open>subtle.ConstantTimeCompare\<close> is 1 exactly on equal byte strings.\<close>

definition validate_api_key :: "string \<Rightarrow> string \<Rightarrow> bool" where
  "validate_api_key given expected = (if \<not> has_prefix given api_key_prefix then False else given = expected)"

definition unix_seconds :: "int \<Rightarrow> int" where
  "unix_seconds t = t div second - unix_to_internal"

definition access_claims :: "ext \<Rightarrow> auth_service \<Rightarrow> uuid \<Rightarrow> int \<Rightarrow> int \<Rightarrow> (string \<times> json) list" where
  "access_claims X S u t0 t1 =
     [(''sub'', JStr (uuid_str X u)), (''exp'', JInt (unix_seconds (t0 + as_ttl S))),
      (''iat'', JInt (unix_seconds t1)), (''type'', JStr ''access'')]"

definition refresh_claims :: "ext \<Rightarrow> uuid \<Rightarrow> int \<Rightarrow> int \<Rightarrow> (string \<times> json) list" where
  "refresh_claims X u t0 t1 =
     [(''sub'', JStr (uuid_str X u)), (''exp'', JInt (unix_seconds (t0 + 7 * 24 * 3600 * second))),
      (''iat'', JInt (unix_seconds t1)), (''type'', JStr ''refresh'')]"

text \<open>\<open>IssueTokens\<close>; \<open>clock\<close> gives the successive readings of \<open>time.Now()\<close>.\<close>

definition issue_tokens ::
  "crypto \<Rightarrow> ext \<Rightarrow> auth_service \<Rightarrow> (nat \<Rightarrow> int) \<Rightarrow> uuid \<Rightarrow> string + string \<times> string" where
  "issue_tokens C X S clock u =
     (case jwt_sign C (access_claims X S u (clock 0) (clock 1)) (as_secret S) of
        Inl e \<Rightarrow> Inl (''signing access token: '' @ e)
      | Inr a \<Rightarrow>
          (case jwt_sign C (refresh_claims X u (clock 2) (clock 3)) (as_secret S) of
             Inl e \<Rightarrow> Inl (''signing refresh token: '' @ e)
           | Inr r \<Rightarrow> Inr (a, r)))"

section \<open>Middleware\<close>

text \<open>
  A middleware either aborts with a reply or lets the request pass; \<open>AuthMiddleware\<close> leaves the user
  id in the context.  A missing header reads as the empty string.
\<close>

definition auth_middleware :: "crypto \<Rightarrow> ext \<Rightarrow> auth_service \<Rightarrow> string \<Rightarrow> reply + string" where
  "auth_middleware C X S header =
     (if header = '''' then Inl (Reply 401 (err_json ''missing authorization header''))
      else
        (case split_n2 (CHR '' '') header of
           [scheme, tok] \<Rightarrow>
             if scheme \<noteq> ''Bearer'' then Inl (Reply 401 (err_json ''invalid authorization format''))
             else (case validate_token C X S tok of
                     Inl e \<Rightarrow> Inl (Reply 401 (err_json (''invalid token: '' @ e)))
                   | Inr (u, typ) \<Rightarrow>
                       if typ \<noteq> ''access'' then Inl (Reply 401 (err_json ''not an access token''))
                       else Inr (uuid_str X u))
         | _ \<Rightarrow> Inl (Reply 401 (err_json ''invalid authorization format''))))"

definition optional_auth_middleware :: "crypto \<Rightarrow> ext \<Rightarrow> auth_service \<Rightarrow> string \<Rightarrow> string option" where
  "optional_auth_middleware C X S header =
     (if header = '''' then None
      else
        (case split_n2 (CHR '' '') header of
           [scheme, tok] \<Rightarrow>
             if scheme \<noteq> ''Bearer'' then None
             else (case validate_token C X S tok of
                     Inl e \<Rightarrow> None
                   | Inr (u, typ) \<Rightarrow> if typ = ''access'' then Some (uuid_str X u) else None)
         | _ \<Rightarrow> None))"

definition api_key_middleware :: "string \<Rightarrow> reply + unit" where
  "api_key_middleware key =
     (if key = '''' then Inl (Reply 401 (err_json ''missing API key''))
      else if \<not> has_prefix key ''nimbus_'' then Inl (Reply 401 (err_json ''invalid API key''))
      else Inr ())"

section \<open>AuthHandler\<close>

definition jwt_ttl_seconds :: int where "jwt_ttl_seconds = 24 * 3600"

definition token_json :: "ext \<Rightarrow> uuid \<Rightarrow> string \<Rightarrow> string \<Rightarrow> string \<Rightarrow> string \<Rightarrow> json" where
  "token_json X u email acc ref key = JObj
     [(''user_id'', uuid_json X u), (''email'', JStr email), (''access_token'', JStr acc),
      (''refresh_token'', JStr ref), (''api_key'', JStr key), (''token_type'', JStr ''bearer''),
      (''expires_in'', JInt jwt_ttl_seconds)]"

definition ah_register ::
  "pg \<Rightarrow> ext \<Rightarrow> crypto \<Rightarrow> auth_service \<Rightarrow> (nat \<Rightarrow> int) \<Rightarrow> string + string \<times> string \<Rightarrow>
   string + char list \<Rightarrow> uuid \<Rightarrow> handler" where
  "ah_register P X C S clock input rand new_id d =
     (case input of
        Inl e \<Rightarrow> (Reply 400 (err_json e), d)
      | Inr (email, password) \<Rightarrow>
          (case hash_password C password of
             Inl _ \<Rightarrow> (Reply 500 (err_json ''failed to hash password''), d)
           | Inr h \<Rightarrow>
               (case generate_api_key rand of
                  Inl _ \<Rightarrow> (Reply 500 (err_json ''failed to generate API key''), d)
                | Inr key \<Rightarrow>
                    (case pg_exec P (sql_insert_user new_id email h key) d of
                       (Inl _, d') \<Rightarrow> (Reply 500 (err_json ''failed to create user''), d')
                     | (Inr _, d') \<Rightarrow>
                         (case issue_tokens C X S clock new_id of
                            Inl _ \<Rightarrow> (Reply 500 (err_json ''failed to issue tokens''), d')
                          | Inr (a, r) \<Rightarrow> (Reply 200 (token_json X new_id email a r key), d'))))))"

definition ah_login ::
  "pg \<Rightarrow> ext \<Rightarrow> crypto \<Rightarrow> auth_service \<Rightarrow> (nat \<Rightarrow> int) \<Rightarrow> string + string \<times> string \<Rightarrow> handler" where
  "ah_login P X C S clock input d =
     (case input of
        Inl e \<Rightarrow> (Reply 400 (err_json e), d)
      | Inr (email, password) \<Rightarrow>
          (case pg_query_row P (sql_select_user_by_email email) d of
             (Inl _, d') \<Rightarrow> (Reply 401 (err_json ''invalid credentials''), d')
           | (Inr u, d') \<Rightarrow>
               (case verify_password C (ur_password_hash u) password of
                  Some _ \<Rightarrow> (Reply 401 (err_json ''invalid credentials''), d')
                | None \<Rightarrow>
                    (case issue_tokens C X S clock (ur_id u) of
                       Inl _ \<Rightarrow> (Reply 500 (err_json ''failed to issue tokens''), d')
                     | Inr (a, r) \<Rightarrow> (Reply 200 (token_json X (ur_id u) (ur_email u) a r (ur_api_key u)), d')))))"

section \<open>Tokens\<close>

lemma claim_string_access [simp]:
  "claim_string ''sub'' (access_claims X S u t0 t1) = uuid_str X u"
  "claim_string ''type'' (access_claims X S u t0 t1) = ''access''"
  by (simp_all add: claim_string_def access_claims_def)

lemma claim_string_refresh [simp]:
  "claim_string ''sub'' (refresh_claims X u t0 t1) = uuid_str X u"
  "claim_string ''type'' (refresh_claims X u t0 t1) = ''refresh''"
  by (simp_all add: claim_string_def refresh_claims_def)

lemma key_func_hs256 [simp]: "key_func S (hs256_token cs v) = Inr (as_secret S)"
  by (simp add: key_func_def hs256_token_def)

lemma hs256_token_sel [simp]:
  "tk_valid (hs256_token cs v) = v" "tk_claims (hs256_token cs v) = Some cs" "tk_hmac (hs256_token cs v)"
  by (simp_all add: hs256_token_def)

lemma validate_access_token_iff:
  "validate_access_token C X S s = Inr u \<longleftrightarrow> validate_token C X S s = Inr (u, ''access'')"
  by (auto simp: validate_access_token_def validate_token_def split: sum.splits option.splits)

lemma auth_middleware_Inr_iff:
  "auth_middleware C X S header = Inr uid \<longleftrightarrow>
   (\<exists>tok u. header = ''Bearer '' @ tok \<and> validate_access_token C X S tok = Inr u \<and> uid = uuid_str X u)"
proof -
  have nosp: "CHR '' '' \<notin> set ''Bearer''" by simp
  show ?thesis
  proof
    assume "auth_middleware C X S header = Inr uid"
    then obtain tok u where sp: "split_n2 (CHR '' '') header = [''Bearer'', tok]"
      and v: "validate_token C X S tok = Inr (u, ''access'')" and uid: "uid = uuid_str X u"
      by (auto simp: auth_middleware_def split: if_splits list.splits sum.splits prod.splits)
    from sp have "header = ''Bearer'' @ CHR '' '' # tok" by (simp only: split_n2_eq_two)
    with v uid show "\<exists>tok u. header = ''Bearer '' @ tok \<and> validate_access_token C X S tok = Inr u \<and>
        uid = uuid_str X u"
      by (simp add: validate_access_token_iff)
  next
    assume "\<exists>tok u. header = ''Bearer '' @ tok \<and> validate_access_token C X S tok = Inr u \<and> uid = uuid_str X u"
    then obtain tok u where h: "header = ''Bearer'' @ CHR '' '' # tok"
      and v: "validate_token C X S tok = Inr (u, ''access'')" and uid: "uid = uuid_str X u"
      by (auto simp: validate_access_token_iff)
    have "split_n2 (CHR '' '') header = [''Bearer'', tok]"
      unfolding h by (rule split_n2_two[OF nosp])
    with v uid show "auth_middleware C X S header = Inr uid"
      by (simp add: auth_middleware_def h)
  qed
qed

context crypto_laws
begin

lemma validate_issued:
  assumes "issue_tokens C X S clock u = Inr (a, r)" and "ext_codec X"
  shows "fresh (access_claims X S u (clock 0) (clock 1)) \<Longrightarrow> validate_token C X S a = Inr (u, ''access'')"
    and "fresh (refresh_claims X u (clock 2) (clock 3)) \<Longrightarrow> validate_token C X S r = Inr (u, ''refresh'')"
proof -
  note rt = ext_codec.uuid_rt[OF assms(2)]
  from assms(1) have
    a: "jwt_sign C (access_claims X S u (clock 0) (clock 1)) (as_secret S) = Inr a" and
    r: "jwt_sign C (refresh_claims X u (clock 2) (clock 3)) (as_secret S) = Inr r"
    by (auto simp: issue_tokens_def split: sum.splits)
  show "validate_token C X S a = Inr (u, ''access'')" if f: "fresh (access_claims X S u (clock 0) (clock 1))"
    using parse_signed[OF a f, of "key_func S"] rt by (simp add: validate_token_def)
  show "validate_token C X S r = Inr (u, ''refresh'')" if f: "fresh (refresh_claims X u (clock 2) (clock 3))"
    using parse_signed[OF r f, of "key_func S"] rt by (simp add: validate_token_def)
qed

lemma validate_token_hmac:
  "validate_token C X S s = Inr (u, typ) \<Longrightarrow> \<exists>t. jwt_parse C s (key_func S) = Inr t \<and> tk_hmac t \<and> tk_valid t"
  by (auto simp: validate_token_def key_func_def dest!: parse_keyed split: sum.splits if_splits)

end

end
