(* ===== verification/Server.thy ===== *)
theory Server
  imports Auth "HOL-Library.Countable"
begin

text \<open>
  The gateway, \<open>internal/http/server.go\<close>: which handler serves which route, which routes stand
  behind \<open>AuthMiddleware\<close>, and \<open>gin.Recovery\<close>, which turns a panic into status 500.  A request is the
  route with what the handler reads of it; \<open>req_env\<close> is what surrounds one request (the
  \<open>Authorization\<close> header, the identifier \<open>uuid.New()\<close> yields, the random bytes, the clock).  The
  gateway is a state machine over the store: \<open>api_step\<close> is one request, \<open>api_reach\<close> the stores
  reachable from the empty one.
\<close>

section \<open>Routes\<close>

datatype request =
    Health
  | Register "string + string \<times> string"
  | Login "string + string \<times> string"
  | ListFunctions
  | CreateFunction "string + create_input"
  | GetFunction string
  | DeleteFunction string
  | Deploy string
  | ListVersions string
  | Rollback string string
  | ListInvocations string string
  | Invoke string string
  | GetLogs string string

record req_env =
  rq_auth :: string
  rq_new_id :: uuid
  rq_rand :: "string + char list"
  rq_clock :: "nat \<Rightarrow> int"

record gateway =
  gw_pg :: pg
  gw_ext :: ext
  gw_crypto :: crypto
  gw_auth :: auth_service

definition protected_route :: "request \<Rightarrow> bool" where
  "protected_route r = (case r of
      Health \<Rightarrow> False | Register _ \<Rightarrow> False | Login _ \<Rightarrow> False | Invoke _ _ \<Rightarrow> False | GetLogs _ _ \<Rightarrow> False
    | _ \<Rightarrow> True)"

definition route_handler :: "gateway \<Rightarrow> req_env \<Rightarrow> string option \<Rightarrow> request \<Rightarrow> handler" where
  "route_handler G E uid r = (let P = gw_pg G; X = gw_ext G in case r of
      Health \<Rightarrow> (\<lambda>d. (Reply 200 (JObj [(''status'', JStr ''healthy'')]), d))
    | Register i \<Rightarrow> ah_register P X (gw_crypto G) (gw_auth G) (rq_clock E) i (rq_rand E) (rq_new_id E)
    | Login i \<Rightarrow> ah_login P X (gw_crypto G) (gw_auth G) (rq_clock E) i
    | ListFunctions \<Rightarrow> fh_list P X uid
    | CreateFunction i \<Rightarrow> fh_create P X i uid (rq_new_id E)
    | GetFunction f \<Rightarrow> fh_get P X f
    | DeleteFunction f \<Rightarrow> fh_delete P X f
    | Deploy f \<Rightarrow> fh_deploy P X f (rq_new_id E)
    | ListVersions f \<Rightarrow> fh_list_versions P X f
    | Rollback f v \<Rightarrow> fh_rollback P X f v
    | ListInvocations f l \<Rightarrow> ih_list_by_function P X f l
    | Invoke f k \<Rightarrow> ih_invoke P X f k (rq_new_id E)
    | GetLogs f i \<Rightarrow> ih_get_logs)"

definition recovery :: "reply \<times> db \<Rightarrow> reply \<times> db" where
  "recovery rd = (case rd of (Panicked, d) \<Rightarrow> (NoBody 500, d) | _ \<Rightarrow> rd)"

definition serve :: "gateway \<Rightarrow> req_env \<Rightarrow> request \<Rightarrow> handler" where
  "serve G E r d = recovery
     (if protected_route r then
        (case auth_middleware (gw_crypto G) (gw_ext G) (gw_auth G) (rq_auth E) of
           Inl rep \<Rightarrow> (rep, d)
         | Inr uid \<Rightarrow> route_handler G E (Some uid) r d)
      else route_handler G E None r d)"

section \<open>The gateway as a state machine\<close>

inductive api_step :: "gateway \<Rightarrow> db \<Rightarrow> db \<Rightarrow> bool" for G where
  request: "serve G E r d = (rep, d') \<Longrightarrow> api_step G d d'"

inductive api_reach :: "gateway \<Rightarrow> db \<Rightarrow> db \<Rightarrow> bool" for G and d0 where
  start: "api_reach G d0 d0"
| step: "api_reach G d0 d \<Longrightarrow> api_step G d d' \<Longrightarrow> api_reach G d0 d'"

inductive_cases api_stepE: "api_step G d d'"

text \<open>What the reading halves of \<open>Deploy\<close> and \<open>Invoke\<close> establish for the writing halves.\<close>

lemma deploy_read_calls:
  assumes "deploy_read P X pid d = (res, d1)" obtains m where "d1 = d\<lparr>db_calls := m\<rparr>"
proof -
  have "same_tables d d1"
    using assms by (auto simp: deploy_read_def same_tables_iff
        split: option.splits prod.splits sum.splits dest!: repo_reads)
  then have "d1 = d\<lparr>db_calls := db_calls d1\<rparr>" by (cases d; cases d1) (simp add: same_tables_iff)
  then show thesis by (rule that)
qed

lemma invoke_read_calls:
  assumes "invoke_read P X pid key d = (res, d1)" obtains m where "d1 = d\<lparr>db_calls := m\<rparr>"
proof -
  have "same_tables d d1"
    using assms by (auto simp: invoke_read_def same_tables_iff
        split: option.splits prod.splits sum.splits if_splits dest!: repo_reads)
  then have "d1 = d\<lparr>db_calls := db_calls d1\<rparr>" by (cases d; cases d1) (simp add: same_tables_iff)
  then show thesis by (rule that)
qed

lemma invoke_readE:
  assumes "invoke_read P X pid key d = (Inr (f, v), d1)"
  obtains r where "r \<in> set (db_functions d)" "fr_id r = f"
    "fr_active r = Some v \<or> fr_active r = None \<and> pg_scan_null P = Inr v" "v \<noteq> uuid_nil"
proof -
  obtain fn d2 ver d3 where g: "fn_get_by_id P f d = (Inr fn, d2)" "fn_active fn \<noteq> uuid_nil"
    "ver_get_by_id P (fn_active fn) d2 = (Inr ver, d3)" "v = ver_id ver"
    using assms by (auto simp: invoke_read_def split: option.splits prod.splits sum.splits if_splits)
  then show thesis
    using fn_get_by_idD[OF g(1)] ver_get_by_idD[OF g(3)] that by (auto dest: scan_function_active)
qed

text \<open>
  The statements that write, with what the handlers guarantee about their arguments.  A property of
  well-formed stores that each of them keeps is an invariant of the gateway.
\<close>

locale api_invariant =
  fixes G :: gateway and I :: "db \<Rightarrow> bool"
  assumes calls: "I (d\<lparr>db_calls := n\<rparr>) = I d"
    and user: "db_wf d \<Longrightarrow> I d \<Longrightarrow> sql_insert_user uid e h k now d = Inr d' \<Longrightarrow> I d'"
    and func: "db_wf d \<Longrightarrow> I d \<Longrightarrow> sql_insert_function fn now d = Inr d' \<Longrightarrow> I d'"
    and del: "db_wf d \<Longrightarrow> I d \<Longrightarrow> sql_delete_function f now d = Inr d' \<Longrightarrow> I d'"
    and rollback: "db_wf d \<Longrightarrow> I d \<Longrightarrow> v \<in> set (db_versions d) \<Longrightarrow> ver_fn v = f \<Longrightarrow>
        ver_status v = st_ready \<Longrightarrow> sql_update_active_version f (ver_id v) now d = Inr d' \<Longrightarrow> I d'"
    and deploy: "db_wf d \<Longrightarrow> I d \<Longrightarrow> ver_status v = st_queued \<Longrightarrow> ver_num v = wrap64 (num + 1) \<Longrightarrow>
        sql_max_version (ver_fn v) m d = Inr num \<Longrightarrow> sql_insert_version v now d = Inr d' \<Longrightarrow> I d'"
    and build: "db_wf d \<Longrightarrow> I d \<Longrightarrow> v \<in> set (db_versions d) \<Longrightarrow> ver_status v = st_queued \<Longrightarrow>
        sql_update_version_status (ver_id v) st_building now d = Inr d' \<Longrightarrow> I d'"
    and invoke: "db_wf d \<Longrightarrow> I d \<Longrightarrow> r \<in> set (db_functions d) \<Longrightarrow> fr_id r = inv_fn i \<Longrightarrow>
        fr_active r = Some (inv_ver i) \<or> fr_active r = None \<and> pg_scan_null (gw_pg G) = Inr (inv_ver i) \<Longrightarrow>
        inv_ver i \<noteq> uuid_nil \<Longrightarrow> inv_status i = st_pending \<Longrightarrow>
        sql_insert_invocation i now d = Inr d' \<Longrightarrow> I d'"
begin

lemma exec:
  assumes "pg_exec P st d = (r, d')" and "db_wf d" and "I d"
    and "\<And>now e e'. e = d\<lparr>db_calls := Suc (db_calls d)\<rparr> \<Longrightarrow> db_wf e \<Longrightarrow> I e \<Longrightarrow> st now e = Inr e' \<Longrightarrow> I e'"
  shows "I d'"
  using assms(1)
proof (cases rule: pg_exec_cases)
  case 1
  then show ?thesis using assms(3) calls by simp
next
  case 2
  show ?thesis by (rule assms(4)[OF refl _ _ 2]) (use assms(2,3) calls in auto)
qed

lemma read: "I d \<Longrightarrow> d' = d\<lparr>db_calls := n\<rparr> \<Longrightarrow> I d'"
  by (simp add: calls)

lemma register: "ah_register P X C S clock i rand n d = (rep, d') \<Longrightarrow> db_wf d \<Longrightarrow> I d \<Longrightarrow> I d'"
  by (auto simp: ah_register_def split: sum.splits prod.splits elim!: exec intro: user)

lemma login: "ah_login P X C S clock i d = (rep, d') \<Longrightarrow> I d \<Longrightarrow> I d'"
  by (auto simp: ah_login_def calls split: sum.splits prod.splits option.splits dest!: pg_query_row_tables)

lemma create: "fh_create P X i u n d = (rep, d') \<Longrightarrow> db_wf d \<Longrightarrow> I d \<Longrightarrow> I d'"
  by (auto simp: fh_create_def fn_create_def Let_def split: sum.splits prod.splits option.splits
      elim!: exec intro: func)

lemma delete: "fh_delete P X f d = (rep, d') \<Longrightarrow> db_wf d \<Longrightarrow> I d \<Longrightarrow> I d'"
  by (auto simp: fh_delete_def fn_delete_def split: sum.splits prod.splits option.splits
      elim!: exec intro: del)

lemma reads:
  "fh_list P X u d = (rep, d') \<Longrightarrow> I d \<Longrightarrow> I d'"
  "fh_get P X f d = (rep, d') \<Longrightarrow> I d \<Longrightarrow> I d'"
  "fh_list_versions P X f d = (rep, d') \<Longrightarrow> I d \<Longrightarrow> I d'"
  "ih_list_by_function P X f l d = (rep, d') \<Longrightarrow> I d \<Longrightarrow> I d'"
  by (auto simp: fh_list_def fh_get_def fh_list_versions_def ih_list_by_function_def calls
      split: sum.splits prod.splits option.splits dest!: repo_reads)

lemma rollback_step:
  assumes r: "fh_rollback P X pid pv d = (rep, d')" and sc: "pg_scans P" and wf: "db_wf d" and i: "I d"
  shows "I d'"
proof -
  consider n where "d' = d\<lparr>db_calls := n\<rparr>" | "d' = d"
    | f vs v d1 res where "ver_list_by_function_id P f d = (Inr vs, d1)" "v \<in> set vs"
      "ver_status v = st_ready" "fn_update_active_version P f (ver_id v) d1 = (res, d')"
    using r by (fastforce simp: fh_rollback_def split: option.splits sum.splits prod.splits if_splits
        dest: repo_reads find_SomeD)
  then show ?thesis
  proof cases
    case (3 f vs v d1 res)
    have v: "v \<in> set (db_versions d)" "ver_fn v = f"
      using pg_scans.ver_list_subset[OF sc 3(1)] 3(2) by auto
    have d1: "d1 = d\<lparr>db_calls := Suc (db_calls d)\<rparr>" using 3(1) by (rule repo_reads)
    show ?thesis
      using 3(4) unfolding fn_update_active_version_def
    proof (rule exec)
      fix now e e'
      assume e: "e = d1\<lparr>db_calls := Suc (db_calls d1)\<rparr>" "db_wf e" "I e"
        and upd: "sql_update_active_version f (ver_id v) now e = Inr e'"
      show "I e'" by (rule rollback[OF e(2,3) _ _ _ upd]) (simp_all add: e(1) d1 v 3(3))
    qed (use wf i d1 calls in simp_all)
  qed (use i calls in auto)
qed

lemma deploy_write_step:
  assumes r: "deploy_write P X f n new_id d = (rep, d')" and wf: "db_wf d" and i: "I d"
    and m: "sql_max_version f k d = Inr n"
  shows "I d'"
proof -
  define ver where "ver = \<lparr>ver_id = new_id, ver_fn = f, ver_num = wrap64 (n + 1), ver_image = '''',
                 ver_status = st_queued, ver_created = 0\<rparr>"
  obtain res d1 where c: "ver_create P ver d = (res, d1)" by fastforce
  have i1: "I d1"
    using c unfolding ver_create_def
  proof (rule exec)
    fix now e e'
    assume e: "e = d\<lparr>db_calls := Suc (db_calls d)\<rparr>" "db_wf e" "I e"
      and ins: "sql_insert_version ver now e = Inr e'"
    have "sql_max_version (ver_fn ver) k e = Inr n" using m by (simp add: e(1) ver_def sql_max_version_def)
    from e(2,3) _ _ this ins show "I e'" by (rule deploy) (simp_all add: ver_def)
  qed (use wf i in auto)
  have wf1: "db_wf d1" using c wf unfolding ver_create_def by (rule ins_ver.exec)
  show ?thesis
  proof (cases res)
    case (Inl e)
    then have "d' = d1" using r c by (simp add: deploy_write_def ver_def Let_def)
    then show ?thesis using i1 by simp
  next
    case (Inr u)
    then have u: "ver_update_status P new_id st_building d1 = (fst (ver_update_status P new_id st_building d1), d')"
      using r c by (auto simp: deploy_write_def ver_def Let_def split: prod.splits)
    from c Inr obtain now where "sql_insert_version ver now (d\<lparr>db_calls := Suc (db_calls d)\<rparr>) = Inr d1"
      unfolding ver_create_def by (auto dest: pg_exec_ok)
    then have mem: "ver\<lparr>ver_created := now\<rparr> \<in> set (db_versions d1)"
      by (auto simp: sql_insert_version_def split: if_splits)
    show ?thesis
      using u unfolding ver_update_status_def
    proof (rule exec)
      fix now' e e'
      assume e: "e = d1\<lparr>db_calls := Suc (db_calls d1)\<rparr>" "db_wf e" "I e"
        and upd: "sql_update_version_status new_id st_building now' e = Inr e'"
      have v: "ver\<lparr>ver_created := now\<rparr> \<in> set (db_versions e)" using mem by (simp add: e(1))
      show "I e'" by (rule build[OF e(2,3) v, of now']) (use upd in \<open>simp_all add: ver_def\<close>)
    qed (use wf1 i1 in auto)
  qed
qed

lemma deploy_step:
  assumes r: "fh_deploy P X pid new_id d = (rep, d')" and wf: "db_wf d" and i: "I d"
  shows "I d'"
proof (cases "deploy_read P X pid d")
  case (Pair res d1)
  then obtain m where d1: "d1 = d\<lparr>db_calls := m\<rparr>"
    by (rule deploy_read_calls)
  show ?thesis
  proof (cases res)
    case (Inl x)
    then show ?thesis using r Pair d1 i calls by (auto simp: fh_deploy_def)
  next
    case (Inr fn)
    obtain f n where fn: "fn = (f, n)" by fastforce
    have "\<exists>k. sql_max_version f k d = Inr n"
      using Pair Inr fn by (fastforce simp: deploy_read_def sql_max_version_def
          split: option.splits prod.splits sum.splits dest!: repo_reads(1) ver_latest_numberD)
    then obtain k where k: "sql_max_version f k d = Inr n" ..
    then have "sql_max_version f k d1 = Inr n" using d1 by (auto simp: sql_max_version_def)
    moreover have "deploy_write P X f n new_id d1 = (rep, d')"
      using r Pair Inr fn by (simp add: fh_deploy_def)
    ultimately show ?thesis using d1 wf i calls by (auto intro: deploy_write_step)
  qed
qed

lemma invoke_step:
  assumes r: "ih_invoke (gw_pg G) X pid key new_id d = (rep, d')" and wf: "db_wf d" and i: "I d"
  shows "I d'"
proof (cases "invoke_read (gw_pg G) X pid key d")
  case (Pair res d1)
  then obtain m where d1: "d1 = d\<lparr>db_calls := m\<rparr>"
    by (rule invoke_read_calls)
  show ?thesis
  proof (cases res)
    case (Inl x)
    then show ?thesis using r Pair d1 i calls by (auto simp: ih_invoke_def)
  next
    case (Inr fv)
    obtain f v where fv: "fv = (f, v)" by fastforce
    obtain r0 where r0: "r0 \<in> set (db_functions d)" "fr_id r0 = f"
      "fr_active r0 = Some v \<or> fr_active r0 = None \<and> pg_scan_null (gw_pg G) = Inr v" "v \<noteq> uuid_nil"
      using Pair unfolding Inr fv by (rule invoke_readE)
    define inv where "inv = \<lparr>inv_id = new_id, inv_fn = f, inv_ver = v, inv_worker = uuid_nil,
                 inv_status = st_pending, inv_duration = 0, inv_cold = False, inv_retries = 0,
                 inv_error = '''', inv_key = key, inv_created = 0\<rparr>"
    have w: "invoke_write (gw_pg G) X f v key new_id d1 = (rep, d')"
      using r Pair Inr fv by (simp add: ih_invoke_def)
    obtain res2 where c: "inv_create (gw_pg G) inv d1 = (res2, d')"
      using w by (auto simp: invoke_write_def inv_def Let_def split: prod.splits sum.splits)
    show ?thesis
      using c unfolding inv_create_def
    proof (rule exec)
      fix now e e'
      assume e: "e = d1\<lparr>db_calls := Suc (db_calls d1)\<rparr>" "db_wf e" "I e"
        and ins: "sql_insert_invocation inv now e = Inr e'"
      show "I e'"
        by (rule invoke[OF e(2,3) _ _ _ _ _ ins, of r0]) (use r0 in \<open>simp_all add: e(1) d1 inv_def\<close>)
    qed (use wf i d1 calls in auto)
  qed
qed

lemma serve_step:
  assumes s: "serve G E r d = (rep, d')" and sc: "pg_scans (gw_pg G)" and wf: "db_wf d" and i: "I d"
  shows "I d'"
proof -
  have route: "I d2" if "route_handler G E uid r d = (rep2, d2)" for uid rep2 d2
    using that wf i sc unfolding route_handler_def Let_def
    by (cases r) (auto simp: ih_get_logs_def
        intro: register login create delete reads rollback_step deploy_step invoke_step)
  from s i show ?thesis
    by (auto simp: serve_def recovery_def split: if_splits sum.splits prod.splits reply.splits
        intro: route)
qed

lemma reach:
  assumes "api_reach G d0 d" and sc: "pg_scans (gw_pg G)" and wf: "db_wf d0" and i: "I d0"
    and wf_step: "\<And>d d'. api_step G d d' \<Longrightarrow> db_wf d \<Longrightarrow> db_wf d'"
  shows "I d"
proof -
  have "db_wf d \<and> I d"
    using assms(1)
  proof (induction rule: api_reach.induct)
    case start
    show ?case using wf i by simp
  next
    case (step d d')
    then show ?case using serve_step[OF _ sc] wf_step by (fastforce elim: api_stepE)
  qed
  then show ?thesis ..
qed

end

text \<open>The constraints of the schema are the first invariant.\<close>

interpretation schema: api_invariant G db_wf for G
  by unfold_locales
    (simp, (rule insert_user_wf insert_function_wf delete_function_wf update_active_wf insert_version_wf
       update_version_status_wf insert_invocation_wf; assumption)+)

lemma api_step_wf: "pg_scans (gw_pg G) \<Longrightarrow> api_step G d d' \<Longrightarrow> db_wf d \<Longrightarrow> db_wf d'"
  by (auto elim!: api_stepE intro: schema.serve_step)

section \<open>Invariants of the gateway\<close>

text \<open>The active version of a function is one of its own versions, and is ready.\<close>

definition active_ok :: "db \<Rightarrow> bool" where
  "active_ok d \<longleftrightarrow> (\<forall>r \<in> set (db_functions d). \<forall>v. fr_active r = Some v \<longrightarrow>
     (\<exists>x \<in> set (db_versions d). ver_id x = v \<and> ver_fn x = fr_id r \<and> ver_status x = st_ready))"

text \<open>The versions of a function are numbered 1, 2, 3, ... in the order they were deployed.\<close>

definition numbers_of :: "db \<Rightarrow> uuid \<Rightarrow> int list" where
  "numbers_of d f = map ver_num (rows_where (\<lambda>v. ver_fn v = f) (db_versions d))"

definition numbered :: "db \<Rightarrow> bool" where
  "numbered d \<longleftrightarrow> (\<forall>f. numbers_of d f = [1..int (length (numbers_of d f))]) \<and>
     (\<forall>v \<in> set (db_versions d). in_int32 (ver_num v))"

text \<open>No version is ready, no function has an active version, and nothing was invoked.\<close>

definition nothing_ready :: "db \<Rightarrow> bool" where
  "nothing_ready d \<longleftrightarrow>
     (\<forall>v \<in> set (db_versions d). ver_status v = st_queued \<or> ver_status v = st_building) \<and>
     (\<forall>r \<in> set (db_functions d). fr_active r = None) \<and> db_invocations d = []"

lemma active_ok_cong:
  "db_functions d' = db_functions d \<Longrightarrow> db_versions d' = db_versions d \<Longrightarrow> active_ok d' = active_ok d"
  by (simp add: active_ok_def)

lemma numbered_cong: "db_versions d' = db_versions d \<Longrightarrow> numbered d' = numbered d"
  by (simp add: numbered_def numbers_of_def)

lemma rows_where_append: "rows_where P (xs @ ys) = rows_where P xs @ rows_where P ys"
  by (simp add: rows_where_def)

lemma numbers_of_insert:
  assumes "sql_insert_version v now d = Inr d'"
  shows "numbers_of d' f = numbers_of d f @ (if ver_fn v = f then [ver_num v] else [])"
  using assms by (auto simp: sql_insert_version_def numbers_of_def rows_where_append rows_where_def split: if_splits)

lemma max_of_upto: "sql_max_version f m d = Inr n \<Longrightarrow> numbers_of d f = [1..int k] \<Longrightarrow> n = int k"
proof -
  assume m: "sql_max_version f m d = Inr n" and u: "numbers_of d f = [1..int k]"
  have "Max (set [1..int k]) = int k" if "0 < k" using that by (intro Max_eqI) auto
  with m u show ?thesis by (cases "k = 0") (auto simp: sql_max_version_def numbers_of_def Let_def)
qed

lemma insert_version_range: "sql_insert_version v now d = Inr d' \<Longrightarrow> in_int32 (ver_num v)"
  by (auto simp: sql_insert_version_def split: if_splits)

lemma numbers_of_status:
  "sql_update_version_status v s now d = Inr d' \<Longrightarrow> numbers_of d' f = numbers_of d f"
proof -
  assume "sql_update_version_status v s now d = Inr d'"
  then have d': "d' = d\<lparr>db_versions := update_where (\<lambda>r. ver_id r = v) (\<lambda>r. r\<lparr>ver_status := s\<rparr>) (db_versions d)\<rparr>"
    by (auto simp: sql_update_version_status_def split: if_splits)
  have "map ver_num (rows_where (\<lambda>x. ver_fn x = f) (update_where (\<lambda>r. ver_id r = v) (\<lambda>r. r\<lparr>ver_status := s\<rparr>) vs)) =
      map ver_num (rows_where (\<lambda>x. ver_fn x = f) vs)" for vs
    by (induction vs) (auto simp: rows_where_def update_where_def)
  then show ?thesis by (simp add: d' numbers_of_def)
qed

lemma numbers_of_delete:
  assumes "sql_delete_function g now d = Inr d'"
  shows "numbers_of d' f = numbers_of d f \<or> numbers_of d' f = []"
proof (cases "f = g")
  case True
  with assms show ?thesis
    by (auto simp: sql_delete_function_def numbers_of_def rows_where_def delete_where_def Let_def split: if_splits)
next
  case False
  then have eq: "filter (\<lambda>x. ver_fn x \<noteq> g \<and> ver_fn x = f) vs = filter (\<lambda>v. ver_fn v = f) vs" for vs
    by (induction vs) auto
  from assms show ?thesis
    by (auto simp: eq sql_delete_function_def numbers_of_def rows_where_def delete_where_def Let_def split: if_splits)
qed

lemma upto_extend: "0 \<le> n \<Longrightarrow> [1..n + 1] = [1..n] @ [n + 1]"
  by (simp add: upto_rec2)

lemma max_version_in_range:
  assumes "numbered d" "sql_max_version f k d = Inr n"
  shows "in_int32 n"
proof (cases "numbers_of d f = []")
  case True
  then show ?thesis using assms(2) by (auto simp: sql_max_version_def numbers_of_def in_int32_def Let_def)
next
  case False
  then have "Max (set (numbers_of d f)) \<in> set (numbers_of d f)" by (intro Max_in) auto
  moreover have "n = Max (set (numbers_of d f))"
    using assms(2) False by (simp add: sql_max_version_def numbers_of_def[symmetric] Let_def)
  ultimately have "n \<in> set (numbers_of d f)" by simp
  then show ?thesis using assms(1) by (auto simp: numbered_def numbers_of_def)
qed

lemma numbered_insert:
  assumes n: "numbered d" and num: "ver_num v = wrap64 (n + 1)"
    and m: "sql_max_version (ver_fn v) k d = Inr n" and ins: "sql_insert_version v now d = Inr d'"
  shows "numbered d'"
proof -
  have nd: "numbers_of d f = [1..int (length (numbers_of d f))]" for f
    using n by (simp add: numbered_def)
  have "in_int32 n" using max_version_in_range[OF n m] .
  then have w: "ver_num v = n + 1" unfolding num by (intro wrap64_id) (simp add: in_int32_def in_int64_def)
  have "numbers_of d' f = [1..int (length (numbers_of d' f))]" for f
  proof (cases "ver_fn v = f")
    case True
    let ?k = "int (length (numbers_of d f))"
    have "n = ?k" using max_of_upto[OF m] nd True by metis
    then have new: "numbers_of d' f = numbers_of d f @ [?k + 1]"
      using numbers_of_insert[OF ins, of f] True w by simp
    then have len: "int (length (numbers_of d' f)) = ?k + 1" by simp
    have "[1..?k + 1] = numbers_of d f @ [?k + 1]"
      using upto_extend[of ?k] nd[of f] by simp
    then have nf: "numbers_of d' f = [1..?k + 1]" by (simp only: new)
    show ?thesis unfolding len by (rule nf)
  next
    case False
    then show ?thesis using numbers_of_insert[OF ins, of f] nd[of f] by simp
  qed
  moreover have "\<forall>x \<in> set (db_versions d'). in_int32 (ver_num x)"
    using n ins by (auto simp: numbered_def sql_insert_version_def split: if_splits)
  ultimately show ?thesis by (simp add: numbered_def)
qed

lemma numbered_delete: "sql_delete_function g now d = Inr d' \<Longrightarrow> numbered d \<Longrightarrow> numbered d'"
proof -
  assume del: "sql_delete_function g now d = Inr d'" and n: "numbered d"
  have "numbers_of d' f = [1..int (length (numbers_of d' f))]" for f
    using numbers_of_delete[OF del, of f] n by (auto simp: numbered_def)
  moreover have "set (db_versions d') \<subseteq> set (db_versions d)"
    using del by (auto simp: sql_delete_function_def Let_def split: if_splits)
  ultimately show ?thesis using n by (auto simp: numbered_def)
qed

lemma numbered_status: "sql_update_version_status v s now d = Inr d' \<Longrightarrow> numbered d \<Longrightarrow> numbered d'"
proof -
  assume upd: "sql_update_version_status v s now d = Inr d'" and n: "numbered d"
  have "\<forall>x \<in> set (db_versions d'). in_int32 (ver_num x)"
    using upd n by (auto simp: numbered_def sql_update_version_status_def set_update_where split: if_splits)
  then show ?thesis using n numbers_of_status[OF upd] by (simp add: numbered_def)
qed

interpretation numbering: api_invariant G numbered for G
proof unfold_locales
  fix d d' now v num m
  assume "numbered d" "ver_num v = wrap64 (num + 1)" "sql_max_version (ver_fn v) m d = Inr num"
    "sql_insert_version v now d = Inr d'"
  then show "numbered d'" by (rule numbered_insert)
next
  fix d d' f now assume "sql_delete_function f now d = Inr d'" "numbered d"
  then show "numbered d'" by (rule numbered_delete)
next
  fix d d' now and v :: version
  assume "sql_update_version_status (ver_id v) st_building now d = Inr d'" "numbered d"
  then show "numbered d'" by (rule numbered_status)
qed (auto simp: sql_insert_user_def sql_insert_function_def sql_update_active_version_def
      sql_insert_invocation_def split: if_splits cong: numbered_cong elim: numbered_cong[THEN iffD2, rotated])

lemma active_ok_status:
  assumes wf: "db_wf d" and ok: "active_ok d" and v: "v \<in> set (db_versions d)" "ver_status v = st_queued"
    and upd: "sql_update_version_status (ver_id v) s now d = Inr d'"
  shows "active_ok d'"
proof -
  have pk: "distinct (map ver_id (db_versions d))" using wf by (simp add: db_wf_def pk_ok_def)
  have other: "x \<in> {y \<in> set (db_versions d). ver_id y \<noteq> ver_id v}"
    if "x \<in> set (db_versions d)" "ver_status x = st_ready" for x
  proof -
    have "x \<noteq> v" using that v by auto
    then show ?thesis using that v pk by (auto simp: distinct_map inj_on_def)
  qed
  have d': "db_functions d' = db_functions d"
    "{y \<in> set (db_versions d). ver_id y \<noteq> ver_id v} \<subseteq> set (db_versions d')"
    using upd by (auto simp: sql_update_version_status_def set_update_where split: if_splits)
  show ?thesis
    unfolding active_ok_def d'(1)
  proof (intro ballI allI impI)
    fix r w assume "r \<in> set (db_functions d)" "fr_active r = Some w"
    with ok obtain x where "x \<in> set (db_versions d)" "ver_id x = w" "ver_fn x = fr_id r" "ver_status x = st_ready"
      by (auto simp: active_ok_def)
    with other d'(2) show "\<exists>x \<in> set (db_versions d'). ver_id x = w \<and> ver_fn x = fr_id r \<and> ver_status x = st_ready"
      by blast
  qed
qed

lemma active_ok_delete:
  assumes ok: "active_ok d" and del: "sql_delete_function f now d = Inr d'"
  shows "active_ok d'"
  using del ok by (fastforce simp: active_ok_def sql_delete_function_def Let_def split: if_splits)

lemma active_ok_rollback:
  assumes ok: "active_ok d" and v: "v \<in> set (db_versions d)" "ver_fn v = f" "ver_status v = st_ready"
    and upd: "sql_update_active_version f (ver_id v) now d = Inr d'"
  shows "active_ok d'"
  using upd ok v by (fastforce simp: active_ok_def sql_update_active_version_def set_update_where split: if_splits)

lemma active_ok_inserts:
  "sql_insert_user uid e h k now d = Inr d1 \<Longrightarrow> active_ok d \<Longrightarrow> active_ok d1"
  "sql_insert_function fn now d = Inr d2 \<Longrightarrow> active_ok d \<Longrightarrow> active_ok d2"
  "sql_insert_version v now d = Inr d3 \<Longrightarrow> active_ok d \<Longrightarrow> active_ok d3"
  "sql_insert_invocation i now d = Inr d4 \<Longrightarrow> active_ok d \<Longrightarrow> active_ok d4"
     apply (auto simp: active_ok_def sql_insert_user_def split: if_splits)[1]
    apply (auto simp: active_ok_def sql_insert_function_def split: if_splits)[1]
   apply (force simp: active_ok_def sql_insert_version_def split: if_splits)
  apply (auto simp: active_ok_def sql_insert_invocation_def split: if_splits)[1]
  done

interpretation activation: api_invariant G active_ok for G
proof unfold_locales
  fix d d' now and v :: version
  assume "db_wf d" "active_ok d" "v \<in> set (db_versions d)" "ver_status v = st_queued"
    "sql_update_version_status (ver_id v) st_building now d = Inr d'"
  then show "active_ok d'" by (rule active_ok_status)
next
  fix d d' f now assume "active_ok d" "sql_delete_function f now d = Inr d'"
  then show "active_ok d'" by (rule active_ok_delete)
next
  fix d d' f now and v :: version
  assume "active_ok d" "v \<in> set (db_versions d)" "ver_fn v = f" "ver_status v = st_ready"
    "sql_update_active_version f (ver_id v) now d = Inr d'"
  then show "active_ok d'" by (rule active_ok_rollback)
qed (auto dest: active_ok_inserts simp: active_ok_def)

text \<open>
  What the driver does with a \<open>NULL\<close> scanned into a \<open>uuid.UUID\<close>: it fails or leaves the nil
  identifier.
\<close>

definition null_reads_nil :: "gateway \<Rightarrow> bool" where
  "null_reads_nil G \<longleftrightarrow> (\<forall>u. pg_scan_null (gw_pg G) = Inr u \<longrightarrow> u = uuid_nil)"

definition idle :: "gateway \<Rightarrow> db \<Rightarrow> bool" where
  "idle G d \<longleftrightarrow> null_reads_nil G \<longrightarrow> nothing_ready d"

interpretation idleness: api_invariant G "idle G" for G
proof unfold_locales
  fix d d' now and r :: func_row and i :: invocation
  assume "idle G d" "r \<in> set (db_functions d)"
    "fr_active r = Some (inv_ver i) \<or> fr_active r = None \<and> pg_scan_null (gw_pg G) = Inr (inv_ver i)"
    "inv_ver i \<noteq> uuid_nil"
  then show "idle G d'" by (auto simp: idle_def null_reads_nil_def nothing_ready_def)
next
  fix d d' now f and v :: version
  assume "idle G d" "v \<in> set (db_versions d)" "ver_status v = st_ready"
  then show "idle G d'" by (auto simp: idle_def nothing_ready_def)
qed (auto simp: idle_def nothing_ready_def sql_insert_user_def sql_insert_function_def sql_delete_function_def
      sql_insert_version_def sql_update_version_status_def set_update_where Let_def split: if_splits)

text \<open>
  The invocations of a store are those of an earlier one, in their order and unchanged, followed by
  accepted ones: pending, and for a ready version of their own function.
\<close>

definition accepted_ok :: "db \<Rightarrow> invocation \<Rightarrow> bool" where
  "accepted_ok d i \<longleftrightarrow> inv_status i = st_pending \<and>
     (\<exists>x \<in> set (db_versions d). ver_id x = inv_ver i \<and> ver_fn x = inv_fn i \<and> ver_status x = st_ready)"

definition history_ok :: "gateway \<Rightarrow> db \<Rightarrow> db \<Rightarrow> bool" where
  "history_ok G d0 d \<longleftrightarrow> active_ok d \<and>
     (null_reads_nil G \<longrightarrow> (\<exists>new. db_invocations d = db_invocations d0 @ new \<and> (\<forall>i \<in> set new. accepted_ok d i)))"

lemma history_okI:
  assumes "active_ok d'" "history_ok G d0 d" "db_invocations d' = db_invocations d"
    and "\<And>i. i \<in> set (db_invocations d) \<Longrightarrow> accepted_ok d i \<Longrightarrow> accepted_ok d' i"
  shows "history_ok G d0 d'"
proof (cases "null_reads_nil G")
  case True
  then obtain new where n: "db_invocations d = db_invocations d0 @ new" "\<forall>i \<in> set new. accepted_ok d i"
    using assms(2) by (auto simp: history_ok_def)
  then have "\<forall>i \<in> set new. accepted_ok d' i" using assms(4) by simp
  then show ?thesis using n(1) assms(1,3) by (auto simp: history_ok_def)
qed (simp add: history_ok_def assms(1))

lemma accepted_status:
  assumes wf: "db_wf d" and v: "v \<in> set (db_versions d)" "ver_status v = st_queued"
    and upd: "sql_update_version_status (ver_id v) s now d = Inr d'" and i: "accepted_ok d i"
  shows "accepted_ok d' i"
proof -
  obtain x where x: "x \<in> set (db_versions d)" "ver_id x = inv_ver i" "ver_fn x = inv_fn i" "ver_status x = st_ready"
    using i by (auto simp: accepted_ok_def)
  have "x \<noteq> v" using x(4) v(2) by auto
  then have "ver_id x \<noteq> ver_id v"
    using wf x(1) v(1) by (auto simp: db_wf_def pk_ok_def distinct_map inj_on_def)
  then have "x \<in> set (db_versions d')"
    using upd x(1) by (auto simp: sql_update_version_status_def set_update_where split: if_splits)
  then show ?thesis using x i by (auto simp: accepted_ok_def)
qed

lemma accepted_delete:
  assumes "sql_delete_function f now d = Inr d'" "i \<in> set (db_invocations d)" "accepted_ok d i"
  shows "accepted_ok d' i"
  using assms by (auto simp: accepted_ok_def sql_delete_function_def Let_def split: if_splits)

lemma accepted_insert:
  assumes h: "history_ok G d0 d" and r: "r \<in> set (db_functions d)" "fr_id r = inv_fn i"
    and a: "fr_active r = Some (inv_ver i) \<or> fr_active r = None \<and> pg_scan_null (gw_pg G) = Inr (inv_ver i)"
    and i: "inv_ver i \<noteq> uuid_nil" "inv_status i = st_pending" and ins: "sql_insert_invocation i now d = Inr d'"
  shows "history_ok G d0 d'"
proof -
  have d': "db_functions d' = db_functions d" "db_versions d' = db_versions d"
      "db_invocations d' = db_invocations d @ [i\<lparr>inv_created := now\<rparr>]"
    using ins by (auto simp: sql_insert_invocation_def split: if_splits)
  have act: "active_ok d" using h by (simp add: history_ok_def)
  have "\<exists>new. db_invocations d' = db_invocations d0 @ new \<and> (\<forall>i \<in> set new. accepted_ok d' i)" if n: "null_reads_nil G"
  proof -
    have "fr_active r = Some (inv_ver i)" using a i(1) n by (auto simp: null_reads_nil_def)
    then have "accepted_ok d' (i\<lparr>inv_created := now\<rparr>)"
      using act r i(2) by (auto simp: active_ok_def accepted_ok_def d')
    moreover obtain new where "db_invocations d = db_invocations d0 @ new" "\<forall>i \<in> set new. accepted_ok d i"
      using h n by (auto simp: history_ok_def)
    ultimately show ?thesis by (intro exI[of _ "new @ [i\<lparr>inv_created := now\<rparr>]"]) (auto simp: d' accepted_ok_def)
  qed
  then show ?thesis using act active_ok_cong[OF d'(1,2)] by (simp add: history_ok_def)
qed

interpretation history: api_invariant G "history_ok G d0" for G d0
proof unfold_locales
  fix d d' now and r :: func_row and i :: invocation
  assume "history_ok G d0 d" "r \<in> set (db_functions d)" "fr_id r = inv_fn i"
    "fr_active r = Some (inv_ver i) \<or> fr_active r = None \<and> pg_scan_null (gw_pg G) = Inr (inv_ver i)"
    "inv_ver i \<noteq> uuid_nil" "inv_status i = st_pending" "sql_insert_invocation i now d = Inr d'"
  then show "history_ok G d0 d'" by (rule accepted_insert)
next
  fix d d' now and v :: version
  assume a: "db_wf d" "history_ok G d0 d" "v \<in> set (db_versions d)" "ver_status v = st_queued"
    "sql_update_version_status (ver_id v) st_building now d = Inr d'"
  show "history_ok G d0 d'"
  proof (rule history_okI[OF _ a(2)])
    show "active_ok d'" using a active_ok_status by (auto simp: history_ok_def)
    show "db_invocations d' = db_invocations d" using a(5) by (auto simp: sql_update_version_status_def split: if_splits)
  qed (rule accepted_status[OF a(1,3,4,5)])
next
  fix d d' f now assume a: "history_ok G d0 d" "sql_delete_function f now d = Inr d'"
  show "history_ok G d0 d'"
  proof (rule history_okI[OF _ a(1)])
    show "active_ok d'" using a active_ok_delete by (auto simp: history_ok_def)
    show "db_invocations d' = db_invocations d" using a(2) by (auto simp: sql_delete_function_def Let_def split: if_splits)
  qed (rule accepted_delete[OF a(2)])
next
  fix d d' f now and v :: version
  assume a: "history_ok G d0 d" "v \<in> set (db_versions d)" "ver_fn v = f" "ver_status v = st_ready"
    "sql_update_active_version f (ver_id v) now d = Inr d'"
  show "history_ok G d0 d'"
  proof (rule history_okI[OF _ a(1)])
    show "active_ok d'" using a active_ok_rollback by (auto simp: history_ok_def)
  qed (use a(5) in \<open>auto simp: sql_update_active_version_def accepted_ok_def split: if_splits\<close>)
next
  fix d d' uid e h k now assume a: "history_ok G d0 d" "sql_insert_user uid e h k now d = Inr d'"
  show "history_ok G d0 d'"
    by (rule history_okI[OF _ a(1)])
      (use a active_ok_inserts(1) in \<open>auto simp: history_ok_def sql_insert_user_def accepted_ok_def split: if_splits\<close>)
next
  fix d d' fn now assume a: "history_ok G d0 d" "sql_insert_function fn now d = Inr d'"
  show "history_ok G d0 d'"
    by (rule history_okI[OF _ a(1)])
      (use a active_ok_inserts(2) in \<open>auto simp: history_ok_def sql_insert_function_def accepted_ok_def split: if_splits\<close>)
next
  fix d d' now num m and v :: version assume a: "history_ok G d0 d" "sql_insert_version v now d = Inr d'"
  show "history_ok G d0 d'"
    by (rule history_okI[OF _ a(1)])
      (use a active_ok_inserts(3) in \<open>auto simp: history_ok_def sql_insert_version_def accepted_ok_def split: if_splits\<close>)
qed (auto simp: history_ok_def active_ok_def accepted_ok_def)

lemma empty_db_invariants: "active_ok empty_db" "numbered empty_db" "nothing_ready empty_db"
  by (simp_all add: active_ok_def numbered_def numbers_of_def nothing_ready_def empty_db_def rows_where_def)

end
