(* ===== verification/Gateway.thy ===== *)
theory Gateway
  imports Server
begin

text \<open>
  What the gateway guarantees: its invariants over every reachable store, the functional behaviour
  of its handlers when the server answers every call, what concurrent requests can do to each other
  between the reading and the writing half of a handler, and who may do what.
\<close>

section \<open>A server that answers\<close>

definition pg_calm :: "pg \<Rightarrow> bool" where
  "pg_calm P \<longleftrightarrow> (\<forall>n. pg_fault P n = NoFault)"

lemma pg_calm_fault [simp]: "pg_calm P \<Longrightarrow> pg_fault P n = NoFault"
  by (simp add: pg_calm_def)

lemma calm_pg_calm [simp]: "pg_calm calm_pg"
  by (simp add: pg_calm_def calm_pg_def)

lemma calm_pg_sel [simp]:
  "pg_now calm_pg = int" "pg_scan_null calm_pg = Inr uuid_nil" "pg_scan_functions calm_pg n fs = fs"
  "pg_scan_versions calm_pg n vs = vs" "pg_scan_invocations calm_pg n is = is" "pg_scan_dlq calm_pg n es = es"
  by (simp_all add: calm_pg_def)

abbreviation bump :: "db \<Rightarrow> db" where
  "bump d \<equiv> d\<lparr>db_calls := Suc (db_calls d)\<rparr>"

lemma calm_reads:
  assumes "pg_calm P"
  shows "fn_get_by_id P i d =
      (case find (\<lambda>r. fr_id r = i) (db_functions d) of None \<Rightarrow> Inl NoRows | Some r \<Rightarrow> scan_function P r, bump d)"
    and "ver_get_by_id P i d =
      (case find (\<lambda>r. ver_id r = i) (db_versions d) of None \<Rightarrow> Inl NoRows | Some v \<Rightarrow> Inr v, bump d)"
    and "ver_latest_number P i d = (sql_max_version i 0 d, bump d)"
    and "ver_list_by_function_id P i d = (sql_select_versions_of P i (db_calls d) (bump d), bump d)"
    and "inv_get_by_key P k d =
      (case find (\<lambda>r. inv_key r = k) (pg_scan_invocations P (db_calls d) (db_invocations d)) of
         None \<Rightarrow> Inl NoRows | Some v \<Rightarrow> Inr v, bump d)"
    and "inv_list_by_function_id P i l d = (sql_select_invocations_of P i l (db_calls d) (bump d), bump d)"
  using assms
  by (auto simp: repo_defs pg_query_row_calm pg_query_calm sql_select_function_def sql_select_version_def
      sql_max_version_def sql_select_invocation_by_key_def Let_def split: option.splits sum.splits)

lemma calm_exec:
  "pg_calm P \<Longrightarrow> pg_exec P st d = (case st (pg_now P (db_calls d)) (bump d) of
     Inl e \<Rightarrow> (Inl e, bump d) | Inr d' \<Rightarrow> (Inr (), d'))"
  by (simp add: pg_exec_calm)

section \<open>Concrete packages\<close>

text \<open>
  An executable JWT package: a token is the number of its claims and its key; and a hash that is the
  password itself.  It satisfies the interface, with every claim set in its period of validity.
\<close>

instance json :: countable
  by countable_datatype

definition ref_crypto :: crypto where
  "ref_crypto = \<lparr>jwt_parse = (\<lambda>s kf. case nat_parse s of
       None \<Rightarrow> Inl ''token is malformed''
     | Some n \<Rightarrow> (let (cs, key) = from_nat n in
         case kf (hs256_token cs False) of
           Inl e \<Rightarrow> Inl e
         | Inr k \<Rightarrow> if k = key then Inr (hs256_token cs True) else Inl ''signature is invalid'')),
     jwt_sign = (\<lambda>cs key. Inr (digits10 (to_nat (cs, key)))),
     bcrypt_generate = Inr, bcrypt_compare = (\<lambda>h p. if h = p then None else Some ''mismatch'')\<rparr>"

interpretation ref_crypto: crypto_laws ref_crypto "\<lambda>_. True"
  by unfold_locales
    (auto simp: ref_crypto_def nat_parse_def parse_digits10 digits10_nonempty hs256_token_def Let_def
      split: option.splits prod.splits sum.splits if_splits)

definition ref_gateway :: gateway where
  "ref_gateway = \<lparr>gw_pg = calm_pg, gw_ext = ref_ext, gw_crypto = ref_crypto,
     gw_auth = new_auth_service ''secret'' (24 * 3600 * second)\<rparr>"

lemma ref_gateway_sel [simp]:
  "gw_pg ref_gateway = calm_pg" "gw_ext ref_gateway = ref_ext" "gw_crypto ref_gateway = ref_crypto"
  by (simp_all add: ref_gateway_def)

lemma ref_scans: "pg_scans calm_pg"
  by (rule calm_pg.pg_scans_axioms)

definition demo_function :: func_row where
  "demo_function = \<lparr>fr_id = 1, fr_user = 7, fr_name = ''hello'', fr_entrypoint = ''handler'', fr_memory = 128,
     fr_cpu = 100, fr_timeout = 30, fr_maxconc = 1, fr_active = Some 10, fr_created = 0, fr_updated = 0\<rparr>"

definition demo_version :: "uuid \<Rightarrow> int \<Rightarrow> string \<Rightarrow> version" where
  "demo_version i n st = \<lparr>ver_id = i, ver_fn = 1, ver_num = n, ver_image = '''', ver_status = st, ver_created = 0\<rparr>"

definition demo_db :: db where
  "demo_db = \<lparr>db_users = [\<lparr>ur_id = 7, ur_email = ''a@b.c'', ur_password_hash = ''secret-pw'',
       ur_api_key = ''nimbus_00'', ur_created = 0, ur_updated = 0\<rparr>],
     db_functions = [demo_function],
     db_versions = [demo_version 10 1 st_ready, demo_version 11 2 st_ready, demo_version 12 3 st_building],
     db_invocations = [], db_dlq = [], db_calls = 0\<rparr>"

lemma demo_db_wf: "db_wf demo_db"
  by (simp add: demo_db_def db_wf_def pk_ok_def has_defs demo_function_def demo_version_def)

lemma demo_db_numbered: "numbered demo_db"
proof -
  have "numbers_of demo_db f = (if f = 1 then [1, 2, 3] else [])" for f
    by (auto simp: numbers_of_def rows_where_def demo_db_def demo_version_def)
  moreover have "[1..3] = [1, 2, 3 :: int]" by (simp add: upto_rec1)
  ultimately show ?thesis
    by (auto simp: numbered_def demo_db_def demo_version_def in_int32_def)
qed

lemma demo_db_active_ok: "active_ok demo_db"
  by (simp add: active_ok_def demo_db_def demo_function_def demo_version_def)

text \<open>A request of user 7, with an access token the gateway issued.\<close>

definition demo_token :: string where
  "demo_token = digits10 (to_nat (access_claims ref_ext (gw_auth ref_gateway) 7 0 0, ''secret''))"

definition demo_env :: req_env where
  "demo_env = \<lparr>rq_auth = ''Bearer '' @ demo_token, rq_new_id = 13, rq_rand = Inr [CHR ''x''], rq_clock = (\<lambda>_. 0)\<rparr>"

lemma demo_env_auth [simp]:
  "auth_middleware ref_crypto ref_ext (gw_auth ref_gateway) (rq_auth demo_env) = Inr (uuid_str ref_ext 7)"
proof -
  let ?cs = "access_claims ref_ext (gw_auth ref_gateway) 7 0 0"
  have "jwt_sign ref_crypto ?cs ''secret'' = Inr demo_token"
    by (simp add: ref_crypto_def demo_token_def)
  from ref_crypto.parse_signed[OF this, of "key_func (gw_auth ref_gateway)"]
  have "jwt_parse ref_crypto demo_token (key_func (gw_auth ref_gateway)) = Inr (hs256_token ?cs True)"
    by (simp add: ref_gateway_def new_auth_service_def)
  then have "validate_token ref_crypto ref_ext (gw_auth ref_gateway) demo_token = Inr (7, ''access'')"
    by (simp add: validate_token_def)
  then show ?thesis
    by (auto simp: auth_middleware_Inr_iff validate_access_token_iff demo_env_def)
qed

lemma demo_env_id [simp]: "rq_new_id demo_env = 13"
  by (simp add: demo_env_def)

lemma ref_reach: "api_reach ref_gateway d0 (snd (serve ref_gateway E r d0))"
  by (rule api_reach.step[OF api_reach.start]) (rule api_step.request, rule prod.collapse[symmetric])

lemma demo_texts [simp]:
  "uuid_parse ref_ext ''1'' = Some 1" "atoi ''2'' = Some 2" "uuid_str ref_ext 1 = ''1''"
  "uuid_str ref_ext 11 = ''11''" "uuid_parse ref_ext ''7'' = Some 7" "uuid_str ref_ext 7 = ''7''"
  "uuid_str ref_ext 13 = ''13''" "uuid_str ref_ext 10 = ''10''"
  by code_simp+

lemma demo_rollback:
  "serve ref_gateway demo_env (Rollback ''1'' ''2'') demo_db =
     (Reply 200 (JObj [(''function_id'', JStr ''1''), (''active_version'', JStr ''11''), (''version_number'', JInt 2)]),
      demo_db\<lparr>db_functions := [demo_function\<lparr>fr_active := Some 11, fr_updated := 1\<rparr>], db_calls := 2\<rparr>)"
  by (simp add: serve_def protected_route_def route_handler_def recovery_def fh_rollback_def calm_reads
      sql_select_versions_of_def rows_where_def demo_db_def demo_version_def
      fn_update_active_version_def calm_exec sql_update_active_version_def has_defs update_where_def
      demo_function_def uuid_json_def)

section \<open>Invariants of every reachable store\<close>

text \<open>
  C1. In every store reachable from one where it holds, the active version of a function is a
  version of that very function, and it is READY: no request activates a version of another function
  or one whose build has not finished, and no deletion leaves a dangling active version.
\<close>

theorem gateway_active_version_ready:
  assumes "pg_scans (gw_pg G)" and "api_reach G d0 d" and "db_wf d0" and "active_ok d0"
    and "r \<in> set (db_functions d)" and "fr_active r = Some v"
  shows "\<exists>x \<in> set (db_versions d). ver_id x = v \<and> ver_fn x = fr_id r \<and> ver_status x = st_ready"
proof -
  have "active_ok d" using assms(1-4) by (auto intro: activation.reach api_step_wf)
  then show ?thesis using assms(5,6) by (simp add: active_ok_def)
qed

theorem gateway_active_version_ready_witness:
  "let d = snd (serve ref_gateway demo_env (Rollback ''1'' ''2'') demo_db) in
   \<exists>x \<in> set (db_versions d). ver_id x = 11 \<and> ver_fn x = 1 \<and> ver_status x = st_ready"
proof -
  let ?d = "snd (serve ref_gateway demo_env (Rollback ''1'' ''2'') demo_db)"
  let ?r = "demo_function\<lparr>fr_active := Some 11, fr_updated := 1\<rparr>"
  have "?r \<in> set (db_functions ?d)"
    by (simp add: demo_rollback)
  from gateway_active_version_ready[OF _ ref_reach demo_db_wf demo_db_active_ok this, of 11]
  show ?thesis by (simp add: ref_scans demo_function_def)
qed

text \<open>
  C7. The invocations are a log.  Whatever requests the gateway serves and whichever calls are lost,
  the invocations of a store it reaches are those it started from, in their order and unchanged,
  followed by the accepted ones, and each of these is pending and for a READY version of its own
  function, which still exists: no handler drops, reorders or alters an invocation, none records one
  for a version of another function or one that is not built, and no deletion or status change takes
  its version away.  A \<open>NULL\<close> active version reads as the nil identifier or fails to scan.
\<close>

theorem gateway_logs_accepted_invocations:
  assumes "pg_scans (gw_pg G)" and "null_reads_nil G" and "api_reach G d0 d" and "db_wf d0" and "active_ok d0"
  shows "\<exists>new. db_invocations d = db_invocations d0 @ new \<and>
    (\<forall>i \<in> set new. inv_status i = st_pending \<and>
       (\<exists>x \<in> set (db_versions d). ver_id x = inv_ver i \<and> ver_fn x = inv_fn i \<and> ver_status x = st_ready))"
proof -
  have "history_ok G d0 d0" using assms(5) by (simp add: history_ok_def)
  then have "history_ok G d0 d" using assms(1,3,4) by (auto intro: history.reach api_step_wf)
  then show ?thesis using assms(2) by (auto simp: history_ok_def accepted_ok_def)
qed

lemma demo_invoke:
  "db_invocations (snd (serve ref_gateway demo_env (Invoke ''1'' '''') demo_db)) =
     [\<lparr>inv_id = 13, inv_fn = 1, inv_ver = 10, inv_worker = uuid_nil, inv_status = st_pending, inv_duration = 0,
       inv_cold = False, inv_retries = 0, inv_error = '''', inv_key = '''', inv_created = 2\<rparr>]"
  by (simp add: serve_def protected_route_def route_handler_def recovery_def ih_invoke_def invoke_read_def
      invoke_write_def calm_reads calm_exec inv_create_def scan_function_def sql_insert_invocation_def has_defs
      in_int32_def varchar_def char_length_def demo_db_def demo_function_def demo_version_def Let_def)

theorem gateway_logs_accepted_invocations_witness:
  "let d = snd (serve ref_gateway demo_env (Invoke ''1'' '''') demo_db) in
   \<exists>x \<in> set (db_versions d). ver_id x = 10 \<and> ver_fn x = 1 \<and> ver_status x = st_ready"
proof -
  let ?d = "snd (serve ref_gateway demo_env (Invoke ''1'' '''') demo_db)"
  have "null_reads_nil ref_gateway" by (simp add: null_reads_nil_def)
  from gateway_logs_accepted_invocations[OF _ this ref_reach[of demo_db demo_env "Invoke ''1'' ''''"] demo_db_wf demo_db_active_ok]
  obtain new where n: "db_invocations ?d = db_invocations demo_db @ new"
    "\<forall>i \<in> set new. inv_status i = st_pending \<and>
       (\<exists>x \<in> set (db_versions ?d). ver_id x = inv_ver i \<and> ver_fn x = inv_fn i \<and> ver_status x = st_ready)"
    by (auto simp: ref_scans)
  have "new = db_invocations ?d" using n(1) by (simp add: demo_db_def)
  then show ?thesis using n(2) by (simp add: demo_invoke Let_def)
qed

text \<open>
  C21. As long as requests are served one at a time, the versions of each function are numbered
  1, 2, 3, ... without a gap or a repetition, in the order they were deployed.
\<close>

theorem gateway_versions_numbered:
  assumes "pg_scans (gw_pg G)" and "api_reach G d0 d" and "db_wf d0" and "numbered d0"
  shows "numbers_of d f = [1..int (length (numbers_of d f))]"
proof -
  have "numbered d" using assms by (auto intro: numbering.reach api_step_wf)
  then show ?thesis by (simp add: numbered_def)
qed

theorem gateway_versions_numbered_witness:
  "numbers_of (snd (serve ref_gateway demo_env (Deploy ''1'') demo_db)) 1 =
     [1..int (length (numbers_of (snd (serve ref_gateway demo_env (Deploy ''1'') demo_db)) 1))]"
  by (rule gateway_versions_numbered[OF _ ref_reach demo_db_wf demo_db_numbered]) (simp add: ref_scans)

end
