(* ===== verification/Access.thy ===== *)
theory Access
  imports Gateway
begin

text \<open>
  Who may do what at the gateway, and what it never does: protected routes and tokens, the absence of
  an ownership check, registration and login, API keys, and the invocations a gateway that started
  empty never accepts.
\<close>

section \<open>Protected routes\<close>

lemma auth_middleware_401: "auth_middleware C X S h = Inl rep \<Longrightarrow> \<exists>j. rep = Reply 401 j"
  by (auto simp: auth_middleware_def split: if_splits list.splits sum.splits prod.splits)

text \<open>
  C23. A protected route serves nobody without a valid access token: unless the header is \<open>Bearer\<close> and a
  token that \<open>ValidateAccessToken\<close> accepts, the reply is 401 and the store is not even read.
\<close>

theorem protected_route_needs_token:
  assumes "protected_route r" "serve G E r d = (rep, d')"
    and "\<nexists>tok u. rq_auth E = ''Bearer '' @ tok \<and> validate_access_token (gw_crypto G) (gw_ext G) (gw_auth G) tok = Inr u"
  shows "(\<exists>j. rep = Reply 401 j) \<and> d' = d"
proof -
  obtain rp where m: "auth_middleware (gw_crypto G) (gw_ext G) (gw_auth G) (rq_auth E) = Inl rp"
    using assms(3) auth_middleware_Inr_iff
    by (cases "auth_middleware (gw_crypto G) (gw_ext G) (gw_auth G) (rq_auth E)") blast+
  then obtain j where "rp = Reply 401 j" using auth_middleware_401 by blast
  then show ?thesis using assms(1,2) m by (auto simp: serve_def recovery_def)
qed

definition anonymous_env :: req_env where
  "anonymous_env = demo_env\<lparr>rq_auth := ''Basic YTpi''\<rparr>"

theorem protected_route_needs_token_witness:
  "snd (serve ref_gateway anonymous_env (DeleteFunction ''1'') demo_db) = demo_db"
proof -
  have "\<nexists>tok u. rq_auth anonymous_env = ''Bearer '' @ tok \<and>
      validate_access_token (gw_crypto ref_gateway) (gw_ext ref_gateway) (gw_auth ref_gateway) tok = Inr u"
    by (simp add: anonymous_env_def)
  from protected_route_needs_token[OF _ prod.collapse[symmetric] this] show ?thesis
    by (simp add: protected_route_def)
qed

text \<open>Routes whose handler reads and writes a single function named in the path.\<close>

definition names_a_function :: "request \<Rightarrow> bool" where
  "names_a_function r = (case r of
      GetFunction _ \<Rightarrow> True | DeleteFunction _ \<Rightarrow> True | Deploy _ \<Rightarrow> True | ListVersions _ \<Rightarrow> True
    | Rollback _ _ \<Rightarrow> True | ListInvocations _ _ \<Rightarrow> True | _ \<Rightarrow> False)"

text \<open>
  C39. The gateway does not check who owns a function: whatever function a request names, any two users
  with valid tokens get the same reply and leave the same store.  In particular every user can
  delete, deploy to and roll back every other user's functions.
\<close>

theorem any_user_may_act_on_any_function:
  assumes "names_a_function r" "rq_new_id E' = rq_new_id E"
    and "auth_middleware (gw_crypto G) (gw_ext G) (gw_auth G) (rq_auth E) = Inr u"
    and "auth_middleware (gw_crypto G) (gw_ext G) (gw_auth G) (rq_auth E') = Inr u'"
  shows "serve G E' r d = serve G E r d"
  using assms
  by (cases r) (simp_all add: names_a_function_def serve_def protected_route_def route_handler_def Let_def)

definition other_env :: req_env where
  "other_env = demo_env\<lparr>rq_auth := ''Bearer '' @
     digits10 (to_nat (access_claims ref_ext (gw_auth ref_gateway) 8 0 0, ''secret''))\<rparr>"

lemma ref_token_admits:
  "auth_middleware ref_crypto ref_ext (gw_auth ref_gateway)
     (''Bearer '' @ digits10 (to_nat (access_claims ref_ext (gw_auth ref_gateway) u 0 0, ''secret''))) = Inr (uuid_str ref_ext u)"
proof -
  let ?cs = "access_claims ref_ext (gw_auth ref_gateway) u 0 0"
  have "jwt_sign ref_crypto ?cs ''secret'' = Inr (digits10 (to_nat (?cs, ''secret'')))"
    by (simp add: ref_crypto_def)
  from ref_crypto.parse_signed[OF this, of "key_func (gw_auth ref_gateway)"]
  have "jwt_parse ref_crypto (digits10 (to_nat (?cs, ''secret''))) (key_func (gw_auth ref_gateway)) = Inr (hs256_token ?cs True)"
    by (simp add: ref_gateway_def new_auth_service_def)
  then have "validate_token ref_crypto ref_ext (gw_auth ref_gateway) (digits10 (to_nat (?cs, ''secret''))) = Inr (u, ''access'')"
    by (simp add: validate_token_def)
  then show ?thesis by (auto simp: auth_middleware_Inr_iff validate_access_token_iff)
qed

theorem any_user_may_act_on_any_function_witness:
  "serve ref_gateway other_env (Rollback ''1'' ''2'') demo_db = serve ref_gateway demo_env (Rollback ''1'' ''2'') demo_db"
  using ref_token_admits[of 8]
  by (intro any_user_may_act_on_any_function) (simp_all add: names_a_function_def other_env_def)

section \<open>Tokens, passwords and API keys\<close>

text \<open>
  C22. Of the two tokens issued at registration and login, as long as they have not expired, the access
  token admits its user to the protected routes and the refresh token admits nobody.
\<close>

theorem access_token_admits_refresh_token_does_not:
  assumes "crypto_laws C fresh" "ext_codec X" "issue_tokens C X S clock u = Inr (a, r)"
    and "fresh (access_claims X S u (clock 0) (clock 1))" "fresh (refresh_claims X u (clock 2) (clock 3))"
  shows "auth_middleware C X S (''Bearer '' @ a) = Inr (uuid_str X u) \<and>
    (\<exists>j. auth_middleware C X S (''Bearer '' @ r) = Inl (Reply 401 j))"
proof -
  have va: "validate_token C X S a = Inr (u, ''access'')" and vr: "validate_token C X S r = Inr (u, ''refresh'')"
    using crypto_laws.validate_issued[OF assms(1,3,2)] assms(4,5) by auto
  have "auth_middleware C X S (''Bearer '' @ a) = Inr (uuid_str X u)"
    using va by (auto simp: auth_middleware_Inr_iff validate_access_token_iff)
  moreover have "auth_middleware C X S (''Bearer '' @ r) \<noteq> Inr uid" for uid
    using vr by (auto simp: auth_middleware_Inr_iff validate_access_token_iff)
  then obtain rp where "auth_middleware C X S (''Bearer '' @ r) = Inl rp"
    by (cases "auth_middleware C X S (''Bearer '' @ r)") auto
  ultimately show ?thesis using auth_middleware_401 by blast
qed

theorem access_token_admits_refresh_token_does_not_witness:
  "\<exists>j. auth_middleware ref_crypto ref_ext (gw_auth ref_gateway)
     (''Bearer '' @ snd (projr (issue_tokens ref_crypto ref_ext (gw_auth ref_gateway) (\<lambda>_. 0) 7))) = Inl (Reply 401 j)"
proof -
  obtain a r where i: "issue_tokens ref_crypto ref_ext (gw_auth ref_gateway) (\<lambda>_. 0) 7 = Inr (a, r)"
    by (simp add: issue_tokens_def ref_crypto_def)
  from access_token_admits_refresh_token_does_not[OF ref_crypto.crypto_laws_axioms ref_ext.ext_codec_axioms i] i
  show ?thesis by simp
qed

text \<open>
  C24. Whoever registers can log in: after a registration that was answered with 200, a login with the
  same address and password finds the account, and, if its tokens can be signed, returns the same user
  and the same API key.  The key is the prefix and twice the random bytes in length.
\<close>

theorem registered_user_can_log_in:
  assumes "pg_calm P" "crypto_laws C fresh" "length b = 24"
    and "ah_register P X C S clock (Inr (email, pw)) (Inr b) new_id d = (Reply 200 j, d1)"
    and "issue_tokens C X S clock' new_id = Inr (a, r)"
  shows "fst (ah_login P X C S clock' (Inr (email, pw)) d1) =
      Reply 200 (token_json X new_id email a r (api_key_prefix @ hex_bytes b)) \<and>
    length (api_key_prefix @ hex_bytes b) = 55"
proof -
  obtain h where h: "bcrypt_generate C pw = Inr h"
    using assms(4) by (auto simp: ah_register_def hash_password_def split: sum.splits)
  then have ok: "bcrypt_compare C h pw = None" by (rule crypto_laws.compare_generated[OF assms(2)])
  obtain u where ins: "pg_exec P (sql_insert_user new_id email h (api_key_prefix @ hex_bytes b)) d = (Inr u, d1)"
    using assms(4) h by (auto simp: ah_register_def hash_password_def generate_api_key_def split: sum.splits prod.splits)
  have ins': "sql_insert_user new_id email h (api_key_prefix @ hex_bytes b) (pg_now P (db_calls d)) (bump d) = Inr d1"
    using pg_exec_ok[OF ins] by simp
  have "find (\<lambda>r. ur_email r = email) (db_users d) = None"
    using ins' by (auto simp: sql_insert_user_def find_None_iff split: if_splits)
  then have "find (\<lambda>r. ur_email r = email) (db_users d1) = Some \<lparr>ur_id = new_id, ur_email = email, ur_password_hash = h,
      ur_api_key = api_key_prefix @ hex_bytes b, ur_created = pg_now P (db_calls d), ur_updated = pg_now P (db_calls d)\<rparr>"
    using ins' by (auto simp: sql_insert_user_def find_append split: if_splits)
  then show ?thesis
    using assms(1,3,5) ok
    by (simp add: ah_login_def pg_query_row_calm sql_select_user_by_email_def verify_password_def api_key_prefix_def)
qed

definition demo_key_bytes :: "char list" where
  "demo_key_bytes = replicate 24 CHR ''x''"

theorem registered_user_can_log_in_witness:
  "\<exists>j. fst (ah_login calm_pg ref_ext ref_crypto (gw_auth ref_gateway) (\<lambda>_. 0) (Inr (''a@b.c'', ''pw''))
     (snd (ah_register calm_pg ref_ext ref_crypto (gw_auth ref_gateway) (\<lambda>_. 0) (Inr (''a@b.c'', ''pw'')) (Inr demo_key_bytes) 7 empty_db))) =
   Reply 200 j"
proof -
  obtain a r where i: "issue_tokens ref_crypto ref_ext (gw_auth ref_gateway) (\<lambda>_. 0) 7 = Inr (a, r)"
    by (simp add: issue_tokens_def ref_crypto_def)
  have g: "bcrypt_generate ref_crypto ''pw'' = Inr ''pw''" by (simp add: ref_crypto_def)
  obtain j d1 where reg: "ah_register calm_pg ref_ext ref_crypto (gw_auth ref_gateway) (\<lambda>_. 0) (Inr (''a@b.c'', ''pw''))
      (Inr demo_key_bytes) 7 empty_db = (Reply 200 j, d1)"
    using i g by (simp add: ah_register_def hash_password_def generate_api_key_def calm_exec sql_insert_user_def empty_db_def
        varchar_def char_length_def)
  from registered_user_can_log_in[OF calm_pg_calm ref_crypto.crypto_laws_axioms _ reg i] reg
  show ?thesis by (simp add: demo_key_bytes_def)
qed

section \<open>What an empty gateway never does\<close>

lemma invoke_nothing_active:
  assumes "null_reads_nil G" "nothing_ready d" "ih_invoke (gw_pg G) X f k i d = (rep, d')"
  shows "(\<exists>j. rep = Reply 400 j \<or> rep = Reply 404 j) \<and> db_invocations d' = []"
proof -
  have nil: "fn_active fn = uuid_nil" if "fn_get_by_id (gw_pg G) g d = (Inr fn, d1)" for g fn d1
    using fn_get_by_idD[OF that] assms(1,2) by (auto simp: nothing_ready_def null_reads_nil_def dest: scan_function_active)
  have "db_invocations d = []" using assms(2) by (simp add: nothing_ready_def)
  then show ?thesis
    using assms(3) nil by (auto simp: ih_invoke_def invoke_read_def split: option.splits prod.splits sum.splits if_splits dest!: repo_reads)
qed

lemma rollback_nothing_ready:
  assumes "pg_scans P" "nothing_ready d" "fh_rollback P X pid pv d = (Reply 200 j, d')"
  shows False
proof -
  obtain f vs v d1 where "ver_list_by_function_id P f d = (Inr vs, d1)" "v \<in> set vs" "ver_status v = st_ready"
    using assms(3) by (fastforce simp: fh_rollback_def split: option.splits sum.splits prod.splits if_splits dest: find_SomeD)
  then show False using pg_scans.ver_list_subset[OF assms(1)] assms(2) by (fastforce simp: nothing_ready_def)
qed

text \<open>
  C38. A gateway that started with an empty store never accepts an invocation and never performs a
  rollback, whatever it is asked, in whatever order, and whichever calls fail: no handler ever makes a
  version READY, so no function ever has an active version.  (The driver is only assumed not to read
  an identifier out of a NULL.)
\<close>

theorem gateway_never_accepts_an_invocation:
  assumes "pg_scans (gw_pg G)" "null_reads_nil G" "api_reach G empty_db d"
  shows "db_invocations d = [] \<and> (\<forall>v \<in> set (db_versions d). ver_status v \<noteq> st_ready) \<and>
    (\<exists>j. fst (serve G E (Invoke f k) d) = Reply 400 j \<or> fst (serve G E (Invoke f k) d) = Reply 404 j) \<and>
    (\<forall>j. fst (serve G E (Rollback f n) d) \<noteq> Reply 200 j)"
proof -
  have "idle G empty_db" using empty_db_invariants by (simp add: idle_def)
  then have "idle G d" using assms(1,3) empty_db_wf by (auto intro: idleness.reach api_step_wf)
  then have n: "nothing_ready d" using assms(2) by (simp add: idle_def)
  obtain rep d' where i: "ih_invoke (gw_pg G) (gw_ext G) f k (rq_new_id E) d = (rep, d')" by fastforce
  have inv: "\<exists>j. fst (serve G E (Invoke f k) d) = Reply 400 j \<or> fst (serve G E (Invoke f k) d) = Reply 404 j"
    using invoke_nothing_active[OF assms(2) n i] i
    by (auto simp: serve_def protected_route_def route_handler_def recovery_def Let_def)
  have "fst (serve G E (Rollback f n') d) \<noteq> Reply 200 j" for n' j
  proof
    assume s: "fst (serve G E (Rollback f n') d) = Reply 200 j"
    obtain rep d' where rb: "fh_rollback (gw_pg G) (gw_ext G) f n' d = (rep, d')" by fastforce
    have "rep = Reply 200 j"
      using s rb by (auto simp: serve_def protected_route_def route_handler_def recovery_def Let_def
          split: sum.splits reply.splits dest: auth_middleware_401)
    then show False using rollback_nothing_ready[OF assms(1) n] rb by blast
  qed
  then show ?thesis using n inv by (auto simp: nothing_ready_def)
qed

theorem gateway_never_accepts_an_invocation_witness:
  "db_invocations (snd (serve ref_gateway demo_env (Deploy ''1'') empty_db)) = []"
  using gateway_never_accepts_an_invocation[OF _ _ ref_reach] ref_scans
  by (simp add: null_reads_nil_def)

end
