(* ===== verification/Deployments.thy ===== *)
theory Deployments
  imports Gateway
begin

text \<open>
  What the gateway's operations on functions, versions and invocations do: the effect of a request on
  the tables when the database answers, what two requests running at the same time do to each other
  between the reading and the writing half of a handler, and what a connection lost while rows are
  read does to the reply.
\<close>

section \<open>Functions\<close>

text \<open>
  A function that was created is read back with the fields it was created with, the creator as its
  owner and no active version.
\<close>

theorem created_function_is_read_back:
  assumes "pg_calm P" "ext_codec X" "pg_scan_null P = Inr uuid_nil"
    and "fh_create P X (Inr i) (Some uid) new_id d = (Reply 201 j, d1)"
  shows "\<exists>u now. uuid_parse X uid = Some u \<and> fh_get P X (uuid_str X new_id) d1 = (Reply 200 (func_json X
    \<lparr>fn_id = new_id, fn_user = u, fn_name = ci_name i, fn_entrypoint = ci_entrypoint i, fn_memory = ci_memory i,
     fn_cpu = ci_cpu i, fn_timeout = ci_timeout i, fn_maxconc = ci_maxconc i, fn_active = uuid_nil,
     fn_created = now, fn_updated = now\<rparr>), bump d1)"
proof -
  obtain u x where u: "uuid_parse X uid = Some u" and c: "fn_create P \<lparr>fn_id = new_id, fn_user = u, fn_name = ci_name i,
      fn_entrypoint = ci_entrypoint i, fn_memory = ci_memory i, fn_cpu = ci_cpu i, fn_timeout = ci_timeout i,
      fn_maxconc = ci_maxconc i, fn_active = uuid_nil, fn_created = 0, fn_updated = 0\<rparr> d = (Inr x, d1)"
    using assms(4) by (auto simp: fh_create_def Let_def split: option.splits prod.splits sum.splits)
  let ?now = "pg_now P (db_calls d)"
  have ins: "sql_insert_function \<lparr>fn_id = new_id, fn_user = u, fn_name = ci_name i,
      fn_entrypoint = ci_entrypoint i, fn_memory = ci_memory i, fn_cpu = ci_cpu i, fn_timeout = ci_timeout i,
      fn_maxconc = ci_maxconc i, fn_active = uuid_nil, fn_created = 0, fn_updated = 0\<rparr> ?now (bump d) = Inr d1"
    using c pg_exec_ok unfolding fn_create_def by blast
  have "find (\<lambda>r. fr_id r = new_id) (db_functions d) = None"
    using ins by (auto simp: sql_insert_function_def has_function_def find_None_iff split: if_splits)
  then have "find (\<lambda>r. fr_id r = new_id) (db_functions d1) = Some \<lparr>fr_id = new_id, fr_user = u, fr_name = ci_name i,
      fr_entrypoint = ci_entrypoint i, fr_memory = ci_memory i, fr_cpu = ci_cpu i, fr_timeout = ci_timeout i,
      fr_maxconc = ci_maxconc i, fr_active = None, fr_created = ?now, fr_updated = ?now\<rparr>"
    using ins by (auto simp: sql_insert_function_def find_append split: if_splits)
  then show ?thesis
    using u assms(1,3) ext_codec.uuid_rt[OF assms(2)]
    by (auto simp: fh_get_def calm_reads(1) scan_function_def)
qed

definition demo_input :: create_input where
  "demo_input = \<lparr>ci_name = ''echo'', ci_entrypoint = ''main'', ci_memory = 256, ci_cpu = 200, ci_timeout = 10, ci_maxconc = 4\<rparr>"

theorem created_function_is_read_back_witness:
  "\<exists>j. fst (fh_get calm_pg ref_ext ''13'' (snd (fh_create calm_pg ref_ext (Inr demo_input) (Some ''7'') 13 demo_db))) = Reply 200 j"
proof -
  obtain j d1 where c: "fh_create calm_pg ref_ext (Inr demo_input) (Some ''7'') 13 demo_db = (Reply 201 j, d1)"
    by (simp add: fh_create_def fn_create_def calm_exec sql_insert_function_def demo_db_def demo_function_def demo_input_def
        in_int32_def varchar_def char_length_def has_defs Let_def)
  from created_function_is_read_back[OF calm_pg_calm ref_ext.ext_codec_axioms _ c] c show ?thesis by auto
qed

definition referred :: "db \<Rightarrow> uuid \<Rightarrow> bool" where
  "referred d f \<longleftrightarrow>
     (let gone = ver_id ` {v \<in> set (db_versions d). ver_fn v = f}
      in (\<exists>i \<in> set (db_invocations d). inv_fn i = f \<or> inv_ver i \<in> gone) \<or>
         (\<exists>e \<in> set (db_dlq d). dlq_fn e = f \<or> dlq_ver e \<in> gone))"

text \<open>
  C19. Deleting a function deletes its versions with it and nothing else, unless an invocation or a
  dead-letter entry refers to the function or one of its versions: then the reply is 500 and no table
  changes.
\<close>

theorem delete_cascades_or_refuses:
  assumes "pg_calm P" "db_wf d" "active_ok d" "uuid_parse X pid = Some f" "has_function d f"
  shows "if referred d f
    then (\<exists>j. fst (fh_delete P X pid d) = Reply 500 j) \<and> snd (fh_delete P X pid d) = bump d
    else fst (fh_delete P X pid d) = NoBody 204 \<and>
      snd (fh_delete P X pid d) = (bump d)\<lparr>db_functions := filter (\<lambda>r. fr_id r \<noteq> f) (db_functions d),
        db_versions := filter (\<lambda>v. ver_fn v \<noteq> f) (db_versions d)\<rparr>"
proof -
  let ?gone = "ver_id ` {v \<in> set (db_versions d). ver_fn v = f}"
  have pk: "inj_on ver_id (set (db_versions d))" using assms(2) by (auto simp: db_wf_def pk_ok_def distinct_map)
  have other: "fr_active r \<noteq> Some v" if r: "r \<in> set (db_functions d)" "fr_id r \<noteq> f" "v \<in> ?gone" for r v
  proof
    assume "fr_active r = Some v"
    then obtain x where "x \<in> set (db_versions d)" "ver_id x = v" "ver_fn x = fr_id r"
      using assms(3) r(1) unfolding active_ok_def by blast
    then show False using r(2,3) pk by (auto simp: inj_on_def)
  qed
  have hf: "has_function (bump d) f" using assms(5) by (simp add: has_function_def)
  show ?thesis
    using assms(1,4) hf other
    by (auto simp: fh_delete_def fn_delete_def calm_exec sql_delete_function_def referred_def delete_where_def Let_def)
qed

theorem delete_cascades_or_refuses_witness:
  "db_versions (snd (fh_delete calm_pg ref_ext ''1'' demo_db)) = filter (\<lambda>v. ver_fn v \<noteq> 1) (db_versions demo_db)"
proof -
  have nr: "\<not> referred demo_db 1" by (simp add: referred_def demo_db_def)
  have "has_function demo_db 1" by (simp add: has_function_def demo_db_def demo_function_def)
  from delete_cascades_or_refuses[OF calm_pg_calm demo_db_wf demo_db_active_ok _ this, of ref_ext "''1''"] nr
  show ?thesis by simp
qed

section \<open>Deploying and rolling back\<close>

lemma version_number_unique:
  assumes "numbered d" "x \<in> set (db_versions d)" "y \<in> set (db_versions d)" "ver_fn x = ver_fn y" "ver_num x = ver_num y"
  shows "x = y"
proof -
  have "numbers_of d (ver_fn x) = [1..int (length (numbers_of d (ver_fn x)))]" using assms(1) by (simp add: numbered_def)
  then have "distinct (numbers_of d (ver_fn x))" by (metis distinct_upto)
  then have "inj_on ver_num (set (rows_where (\<lambda>v. ver_fn v = ver_fn x) (db_versions d)))"
    by (simp add: numbers_of_def distinct_map)
  then show ?thesis using assms(2-5) by (auto simp: inj_on_def)
qed

text \<open>
  C20. Rolling back to a READY version of the function, by its number, answers 200 and makes exactly
  that version the function's active one; no other function and no other table changes.
\<close>

theorem rollback_activates_the_version:
  assumes "pg_calm P" "pg_scans P" "numbered d" "uuid_parse X pid = Some f" "atoi pv = Some n"
    and "x \<in> set (db_versions d)" "ver_fn x = f" "ver_num x = n" "ver_status x = st_ready"
  shows "fh_rollback P X pid pv d =
    (Reply 200 (JObj [(''function_id'', uuid_json X f), (''active_version'', uuid_json X (ver_id x)), (''version_number'', JInt n)]),
     (bump (bump d))\<lparr>db_functions := map (\<lambda>r. if fr_id r = f
        then r\<lparr>fr_active := Some (ver_id x), fr_updated := pg_now P (Suc (db_calls d))\<rparr> else r) (db_functions d)\<rparr>)"
proof -
  let ?vs = "sort_key (\<lambda>v. - ver_num v) (rows_where (\<lambda>v. ver_fn v = f) (pg_scan_versions P (db_calls d) (db_versions d)))"
  have vs: "set ?vs = {v \<in> set (db_versions d). ver_fn v = f}"
    using pg_scans.scan_versions[OF assms(2)] by simp
  have "\<exists>y. find (\<lambda>v. ver_num v = n) ?vs = Some y"
    using vs assms(6-8) by (metis (mono_tags, lifting) find_None_iff mem_Collect_eq not_None_eq)
  then obtain y where y: "find (\<lambda>v. ver_num v = n) ?vs = Some y" by blast
  then have "y = x" using vs find_SomeD[OF y] version_number_unique[OF assms(3), of y x] assms(6-8) by auto
  moreover have "has_version d (ver_id x)" using assms(6) by (simp add: has_version_def)
  ultimately show ?thesis
    using assms(1,4,5,8,9) y
    by (simp add: fh_rollback_def calm_reads sql_select_versions_of_def fn_update_active_version_def calm_exec
        sql_update_active_version_def has_version_def update_where_def)
qed

theorem rollback_activates_the_version_witness:
  "db_functions (snd (fh_rollback calm_pg ref_ext ''1'' ''2'' demo_db)) = [demo_function\<lparr>fr_active := Some 11, fr_updated := 1\<rparr>]"
proof -
  have x: "demo_version 11 2 st_ready \<in> set (db_versions demo_db)" by (simp add: demo_db_def)
  show ?thesis
    using rollback_activates_the_version[OF calm_pg_calm ref_scans demo_db_numbered _ _ x, of ref_ext "''1''" 1 "''2''" 2]
    by (simp add: demo_version_def demo_function_def demo_db_def)
qed

text \<open>
  Deploying to a function answers 202 with the next version number, and adds exactly one version:
  that number, no image yet, status BUILDING.
\<close>

theorem deploy_adds_next_version:
  assumes "pg_calm P" "numbered d" "uuid_parse X pid = Some f" "has_function d f" "is_ok (scan_function P row)"
    and "find (\<lambda>r. fr_id r = f) (db_functions d) = Some row" "\<not> has_version d new_id"
    and "k = int (length (numbers_of d f))" "k + 1 < 2 ^ 31"
  shows "\<exists>j d'. fh_deploy P X pid new_id d = (Reply 202 j, d') \<and> db_versions d' = db_versions d @
      [\<lparr>ver_id = new_id, ver_fn = f, ver_num = k + 1, ver_image = '''', ver_status = st_building,
        ver_created = pg_now P (db_calls d + 2)\<rparr>] \<and>
    db_functions d' = db_functions d \<and> db_invocations d' = db_invocations d \<and> db_users d' = db_users d"
proof -
  have n: "numbers_of d f = [1..int (length (numbers_of d f))]" using assms(2) unfolding numbered_def by blast
  obtain m where m: "sql_max_version f 0 d = Inr m" by (simp add: sql_max_version_def Let_def)
  have mk: "m = k" unfolding assms(8) by (rule max_of_upto[OF m n])
  have m': "sql_max_version f 0 (bump d) = Inr k" using m mk by (simp add: sql_max_version_def)
  have w: "wrap64 (k + 1) = k + 1" using assms(8,9) by (intro wrap64_id) (simp add: in_int64_def)
  have i32: "in_int32 (k + 1)" using assms(8,9) by (simp add: in_int32_def)
  obtain fn where fn: "scan_function P row = Inr fn" using assms(5) by (rule is_okE)
  let ?v = "\<lparr>ver_id = new_id, ver_fn = f, ver_num = k + 1, ver_image = '''', ver_status = st_queued, ver_created = 0\<rparr>"
  let ?now = "pg_now P (db_calls d + 2)"
  let ?d3 = "(bump (bump (bump d)))\<lparr>db_versions := db_versions d @ [?v\<lparr>ver_created := ?now\<rparr>]\<rparr>"
  let ?d4 = "(bump ?d3)\<lparr>db_versions := db_versions d @ [?v\<lparr>ver_status := st_building, ver_created := ?now\<rparr>]\<rparr>"
  have rd: "deploy_read P X pid d = (Inr (f, k), bump (bump d))"
    using assms(1,3,6) fn m' by (simp add: deploy_read_def calm_reads)
  have vc: "varchar 20 st_queued" "varchar 20 st_building" by code_simp+
  have cr: "ver_create P ?v (bump (bump d)) = (Inr (), ?d3)"
    using assms(1,4,7) i32 vc
    by (simp add: ver_create_def calm_exec sql_insert_version_def has_version_def has_function_def)
  have "update_where (\<lambda>r. ver_id r = new_id) (\<lambda>r. r\<lparr>ver_status := st_building\<rparr>) (db_versions d) = db_versions d"
    using assms(7) unfolding update_where_def has_version_def by (intro map_idI) auto
  then have up: "ver_update_status P new_id st_building ?d3 = (Inr (), ?d4)"
    using assms(1) vc by (simp add: ver_update_status_def calm_exec sql_update_version_status_def update_where_def)
  have wr: "\<exists>j. deploy_write P X f k new_id (bump (bump d)) = (Reply 202 j, ?d4)"
    using cr up unfolding deploy_write_def w Let_def by simp
  show ?thesis using wr rd by (auto simp: fh_deploy_def)
qed

theorem deploy_adds_next_version_witness:
  "map ver_num (db_versions (snd (fh_deploy calm_pg ref_ext ''1'' 13 demo_db))) = [1, 2, 3, 4]"
proof -
  have n: "int (length (numbers_of demo_db 1)) = 3"
    by (simp add: numbers_of_def rows_where_def demo_db_def demo_version_def)
  have r: "find (\<lambda>r. fr_id r = 1) (db_functions demo_db) = Some demo_function" by (simp add: demo_db_def demo_function_def)
  have ok: "is_ok (scan_function calm_pg demo_function)" by (simp add: scan_function_def demo_function_def)
  have h: "has_function demo_db 1" "\<not> has_version demo_db 13"
    by (simp_all add: has_defs demo_db_def demo_function_def demo_version_def)
  from deploy_adds_next_version[OF calm_pg_calm demo_db_numbered _ h(1) ok r h(2) n[symmetric], of ref_ext "''1''"]
  show ?thesis by (auto simp: demo_db_def demo_version_def)
qed

end
