(* ===== verification/Races.thy ===== *)
theory Races
  imports Deployments
begin

text \<open>
  Requests that run at the same time.  \<open>Deploy\<close> and \<open>Invoke\<close> read before they write, in separate
  statements outside any transaction, so another request can run in between; the two halves of each
  handler are separate definitions (\<open>deploy_read\<close>, \<open>deploy_write\<close>, \<open>invoke_read\<close>, \<open>invoke_write\<close>).
  This theory also has the idempotency of \<open>Invoke\<close>, the listings, and connections lost while rows are
  read.
\<close>

section \<open>Deployments at the same time\<close>

lemma deploy_write_accepted:
  assumes "deploy_write P X f n i d = (Reply 202 j, d')"
  shows "numbers_of d' g = numbers_of d g @ (if f = g then [wrap64 (n + 1)] else [])"
proof -
  let ?v = "\<lparr>ver_id = i, ver_fn = f, ver_num = wrap64 (n + 1), ver_image = '''', ver_status = st_queued, ver_created = 0\<rparr>"
  obtain u d1 where c: "ver_create P ?v d = (Inr u, d1)" and d': "d' = snd (ver_update_status P i st_building d1)"
    using assms by (auto simp: deploy_write_def Let_def split: prod.splits sum.splits)
  have "sql_insert_version ?v (pg_now P (db_calls d)) (bump d) = Inr d1"
    using c pg_exec_ok unfolding ver_create_def by blast
  then have "numbers_of d1 g = numbers_of (bump d) g @ (if f = g then [wrap64 (n + 1)] else [])"
    using numbers_of_insert by fastforce
  moreover obtain res where "pg_exec P (sql_update_version_status i st_building) d1 = (res, d')"
    using d' by (metis prod.collapse ver_update_status_def)
  then have "numbers_of d' g = numbers_of d1 g"
    by (cases rule: pg_exec_cases) (auto dest: numbers_of_status simp: numbers_of_def)
  ultimately show ?thesis by (simp add: numbers_of_def)
qed

text \<open>
  Two deployments of one function whose readings both precede their writings get the same version
  number, and both are accepted: the numbering is broken for good.
\<close>

theorem concurrent_deploys_share_a_number:
  assumes "numbered d" "deploy_read P X pid d = (Inr (f, n), d1)" "deploy_read P X pid d1 = (Inr (f', n'), d2)"
    and "deploy_write P X f n i1 d2 = (Reply 202 j1, d3)" "deploy_write P X f' n' i2 d3 = (Reply 202 j2, d4)"
  shows "numbers_of d4 f = numbers_of d f @ [n + 1, n + 1] \<and> \<not> numbered d4"
proof -
  obtain m1 m2 where m: "d1 = d\<lparr>db_calls := m1\<rparr>" "d2 = d1\<lparr>db_calls := m2\<rparr>"
    using deploy_read_calls[OF assms(2)] deploy_read_calls[OF assms(3)] by metis
  obtain da db' where r: "ver_latest_number P f da = (Inr n, db')" "da = d\<lparr>db_calls := Suc (db_calls d)\<rparr>" "uuid_parse X pid = Some f"
    using assms(2) by (auto simp: deploy_read_def split: option.splits prod.splits sum.splits dest!: repo_reads(1))
  obtain dc dd where r': "ver_latest_number P f' dc = (Inr n', dd)" "dc = d1\<lparr>db_calls := Suc (db_calls d1)\<rparr>" "uuid_parse X pid = Some f'"
    using assms(3) by (auto simp: deploy_read_def split: option.splits prod.splits sum.splits dest!: repo_reads(1))
  have f: "f' = f" using r(3) r'(3) by simp
  have mx: "sql_max_version f 0 d = Inr n" "sql_max_version f 0 d = Inr n'"
    using ver_latest_numberD[OF r(1)] ver_latest_numberD[OF r'(1)] r(2) r'(2) m f by (simp_all add: sql_max_version_def)
  then have n: "n' = n" by simp
  have "in_int32 n" by (rule max_version_in_range[OF assms(1) mx(1)])
  then have w: "wrap64 (n + 1) = n + 1" by (intro wrap64_id) (simp add: in_int32_def in_int64_def)
  have nums: "numbers_of d4 f = numbers_of d f @ [n + 1, n + 1]"
    using deploy_write_accepted[OF assms(4), of f] deploy_write_accepted[OF assms(5), of f] m w f n
    by (simp add: numbers_of_def)
  have "\<not> distinct (numbers_of d4 f)" unfolding nums by simp
  then have "\<not> numbered d4" unfolding numbered_def by (metis distinct_upto)
  then show ?thesis using nums by blast
qed

theorem concurrent_deploys_share_a_number_witness:
  "numbers_of (snd (deploy_write calm_pg ref_ext 1 3 14 (snd (deploy_write calm_pg ref_ext 1 3 13
     (snd (deploy_read calm_pg ref_ext ''1'' (snd (deploy_read calm_pg ref_ext ''1'' demo_db)))))))) 1 =
   numbers_of demo_db 1 @ [4, 4]"
proof -
  have fn: "\<exists>fn. scan_function calm_pg demo_function = Inr fn" by (simp add: scan_function_def demo_function_def)
  have mx: "sql_max_version 1 0 (demo_db\<lparr>db_calls := c\<rparr>) = Inr 3" for c
    by (simp add: sql_max_version_def rows_where_def demo_db_def demo_version_def Let_def)
  have fd: "find (\<lambda>r. fr_id r = 1) (db_functions demo_db) = Some demo_function" by (simp add: demo_db_def demo_function_def)
  have rd: "deploy_read calm_pg ref_ext ''1'' (demo_db\<lparr>db_calls := c\<rparr>) = (Inr (1, 3), demo_db\<lparr>db_calls := c + 2\<rparr>)" for c
    using fn mx fd by (auto simp: deploy_read_def calm_reads)
  have r0: "deploy_read calm_pg ref_ext ''1'' demo_db = (Inr (1, 3), demo_db\<lparr>db_calls := 2\<rparr>)"
    using rd[of 0] by (simp add: demo_db_def)
  have w64: "wrap64 4 = 4" by (simp add: wrap64_id in_int64_def)
  have w1: "\<exists>j. deploy_write calm_pg ref_ext 1 3 13 (demo_db\<lparr>db_calls := 4\<rparr>) =
      (Reply 202 j, demo_db\<lparr>db_calls := 6, db_versions := db_versions demo_db @ [(demo_version 13 4 st_building)\<lparr>ver_created := 4\<rparr>]\<rparr>)"
    by (simp add: deploy_write_def ver_create_def ver_update_status_def calm_exec sql_insert_version_def
        sql_update_version_status_def update_where_def w64 demo_db_def demo_version_def demo_function_def has_defs in_int32_def
        varchar_def char_length_def Let_def)
  then obtain j1 where w1: "deploy_write calm_pg ref_ext 1 3 13 (demo_db\<lparr>db_calls := 4\<rparr>) =
      (Reply 202 j1, demo_db\<lparr>db_calls := 6, db_versions := db_versions demo_db @ [(demo_version 13 4 st_building)\<lparr>ver_created := 4\<rparr>]\<rparr>)"
    by blast
  obtain j2 d4 where w2: "deploy_write calm_pg ref_ext 1 3 14
      (demo_db\<lparr>db_calls := 6, db_versions := db_versions demo_db @ [(demo_version 13 4 st_building)\<lparr>ver_created := 4\<rparr>]\<rparr>) = (Reply 202 j2, d4)"
    by (simp add: deploy_write_def ver_create_def ver_update_status_def calm_exec sql_insert_version_def
        sql_update_version_status_def update_where_def w64 demo_db_def demo_version_def demo_function_def has_defs in_int32_def
        varchar_def char_length_def Let_def)
  have r1: "deploy_read calm_pg ref_ext ''1'' (demo_db\<lparr>db_calls := 2\<rparr>) = (Inr (1, 3), demo_db\<lparr>db_calls := 4\<rparr>)"
    using rd[of 2] by simp
  show ?thesis
    using concurrent_deploys_share_a_number[OF demo_db_numbered r0 r1 w1 w2] r0 r1 w1 w2 by simp
qed

section \<open>Invocations with an idempotency key\<close>

lemma invoke_write_accepted:
  assumes "invoke_write P X f v key i d = (Reply 202 j, d')"
  shows "\<exists>now. d' = (bump d)\<lparr>db_invocations := db_invocations d @ [\<lparr>inv_id = i, inv_fn = f, inv_ver = v, inv_worker = uuid_nil,
    inv_status = st_pending, inv_duration = 0, inv_cold = False, inv_retries = 0, inv_error = '''', inv_key = key,
    inv_created = now\<rparr>]\<rparr>"
proof -
  let ?i = "\<lparr>inv_id = i, inv_fn = f, inv_ver = v, inv_worker = uuid_nil, inv_status = st_pending, inv_duration = 0,
    inv_cold = False, inv_retries = 0, inv_error = '''', inv_key = key, inv_created = 0\<rparr>"
  obtain u where "inv_create P ?i d = (Inr u, d')"
    using assms by (auto simp: invoke_write_def Let_def split: prod.splits sum.splits)
  then have "sql_insert_invocation ?i (pg_now P (db_calls d)) (bump d) = Inr d'"
    using pg_exec_ok unfolding inv_create_def by blast
  then show ?thesis by (auto simp: sql_insert_invocation_def split: if_splits)
qed

text \<open>An accepted invocation whose key was never used created a record.\<close>

lemma invoke_fresh_key:
  assumes "pg_calm P" "pg_scans P" "\<forall>i \<in> set (db_invocations d). inv_key i \<noteq> key" "ih_invoke P X pid key i d = (Reply 202 j, d')"
  obtains f v now m where "d' = d\<lparr>db_calls := m, db_invocations := db_invocations d @ [\<lparr>inv_id = i, inv_fn = f, inv_ver = v,
    inv_worker = uuid_nil, inv_status = st_pending, inv_duration = 0, inv_cold = False, inv_retries = 0, inv_error = '''',
    inv_key = key, inv_created = now\<rparr>]\<rparr>"
proof -
  obtain res d1 where rd: "invoke_read P X pid key d = (res, d1)" by fastforce
  obtain m where d1: "d1 = d\<lparr>db_calls := m\<rparr>" using invoke_read_calls[OF rd] .
  show thesis
  proof (cases res)
    case (Inl rep)
    then have "invoke_read P X pid key d = (Inl (Reply 202 j), d1)" using rd assms(4) by (simp add: ih_invoke_def)
    then obtain e d2 d3 where k: "inv_get_by_key P key d2 = (Inr e, d3)" "db_invocations d2 = db_invocations d"
      by (auto simp: invoke_read_def split: option.splits prod.splits sum.splits if_splits dest!: repo_reads(1,3))
    then have "find (\<lambda>r. inv_key r = key) (pg_scan_invocations P (db_calls d2) (db_invocations d2)) = Some e"
      using assms(1) by (auto simp: calm_reads split: option.splits)
    then have False using find_SomeD[of _ _ e] pg_scans.scan_invocations[OF assms(2)] k(2) assms(3) by metis
    then show ?thesis ..
  next
    case (Inr fv)
    obtain f v where "fv = (f, v)" by fastforce
    then have "invoke_write P X f v key i d1 = (Reply 202 j, d')" using Inr rd assms(4) by (simp add: ih_invoke_def)
    from invoke_write_accepted[OF this] show ?thesis using d1 that by auto
  qed
qed

text \<open>
  C27. An accepted invocation under a fresh key is not repeated: invoking again with the key creates
  nothing and answers with the first invocation's identifier.  The key is not scoped: this also
  holds when the second invocation is for another function, which is then never invoked.
\<close>

theorem same_key_is_deduplicated:
  assumes "pg_calm P" "pg_scans P" "key \<noteq> ''''" "\<forall>i \<in> set (db_invocations d). inv_key i \<noteq> key"
    and "ih_invoke P X pid key i1 d = (Reply 202 j, d1)"
    and "uuid_parse X pid2 = Some g" "find (\<lambda>r. fr_id r = g) (db_functions d) = Some row" "fr_active row = Some w"
    and "w \<noteq> uuid_nil" "has_version d w"
  shows "\<exists>js. ih_invoke P X pid2 key i2 d1 = (Reply 202 (JObj ((''id'', uuid_json X i1) # js)), bump (bump (bump d1)))"
proof -
  obtain f v now m where d1: "d1 = d\<lparr>db_calls := m, db_invocations := db_invocations d @ [\<lparr>inv_id = i1, inv_fn = f, inv_ver = v,
    inv_worker = uuid_nil, inv_status = st_pending, inv_duration = 0, inv_cold = False, inv_retries = 0, inv_error = '''',
    inv_key = key, inv_created = now\<rparr>]\<rparr>" by (rule invoke_fresh_key[OF assms(1,2,4,5)])
  obtain fn where fn: "scan_function P row = Inr fn" "fn_active fn = w" using assms(8) by (auto simp: scan_function_def)
  obtain x where x: "find (\<lambda>r. ver_id r = w) (db_versions d) = Some x"
    using assms(10) by (cases "find (\<lambda>r. ver_id r = w) (db_versions d)") (auto simp: find_None_iff has_version_def)
  let ?sc = "pg_scan_invocations P (Suc (Suc (db_calls d1))) (db_invocations d1)"
  have sc: "set ?sc = set (db_invocations d1)" using pg_scans.scan_invocations[OF assms(2)] by simp
  have "\<exists>y. find (\<lambda>r. inv_key r = key) ?sc = Some y"
    using sc unfolding d1 by (cases "find (\<lambda>r. inv_key r = key) ?sc") (auto simp: find_None_iff d1)
  then obtain y where y: "find (\<lambda>r. inv_key r = key) ?sc = Some y" by blast
  have y1: "y \<in> set (db_invocations d1)" and yk: "inv_key y = key" using find_SomeD[OF y] sc by auto
  from y1 have "y \<in> set (db_invocations d) \<or> inv_id y = i1" by (auto simp: d1)
  then have "inv_id y = i1" using assms(4) yk by blast
  then show ?thesis
    using assms(1,3,6,7,9) fn x y by (simp add: ih_invoke_def invoke_read_def calm_reads d1)
qed

definition two_function_db :: db where
  "two_function_db = demo_db\<lparr>db_functions := [demo_function, demo_function\<lparr>fr_id := 2, fr_active := Some 20\<rparr>],
     db_versions := db_versions demo_db @ [(demo_version 20 1 st_ready)\<lparr>ver_fn := 2\<rparr>]\<rparr>"

theorem same_key_is_deduplicated_witness:
  "\<exists>js. fst (ih_invoke calm_pg ref_ext ''2'' ''k'' 14 (snd (ih_invoke calm_pg ref_ext ''1'' ''k'' 13 two_function_db))) =
     Reply 202 (JObj ((''id'', JStr ''13'') # js))"
proof -
  obtain j d1 where i: "ih_invoke calm_pg ref_ext ''1'' ''k'' 13 two_function_db = (Reply 202 j, d1)"
    by (simp add: ih_invoke_def invoke_read_def calm_reads two_function_db_def demo_db_def demo_function_def scan_function_def
        demo_version_def invoke_write_def inv_create_def calm_exec sql_insert_invocation_def in_int32_def varchar_def
        char_length_def has_defs Let_def)
  have p: "uuid_parse ref_ext ''2'' = Some 2" by code_simp
  from same_key_is_deduplicated[OF calm_pg_calm ref_scans _ _ i p, of "demo_function\<lparr>fr_id := 2, fr_active := Some 20\<rparr>" 20 14] i
  show ?thesis
    by (auto simp: two_function_db_def demo_db_def demo_function_def demo_version_def has_defs uuid_json_def)
qed

text \<open>
  Two invocations with the same key whose checks both precede their records are both accepted and
  both recorded: nothing makes the key unique.
\<close>

theorem concurrent_invocations_share_a_key:
  assumes "invoke_read P X pid key d = (Inr (f, v), d1)" "invoke_read P X pid key d1 = (Inr (f', v'), d2)"
    and "invoke_write P X f v key i1 d2 = (Reply 202 j1, d3)" "invoke_write P X f' v' key i2 d3 = (Reply 202 j2, d4)"
  shows "\<exists>a b. db_invocations d4 = db_invocations d @ [a, b] \<and> inv_key a = key \<and> inv_key b = key \<and> inv_id a = i1 \<and> inv_id b = i2"
proof -
  obtain m1 m2 where m: "d1 = d\<lparr>db_calls := m1\<rparr>" "d2 = d1\<lparr>db_calls := m2\<rparr>"
    using invoke_read_calls[OF assms(1)] invoke_read_calls[OF assms(2)] by metis
  show ?thesis using invoke_write_accepted[OF assms(3)] invoke_write_accepted[OF assms(4)] m by auto
qed

theorem concurrent_invocations_share_a_key_witness:
  "length (filter (\<lambda>i. inv_key i = ''k'') (db_invocations
     (snd (invoke_write calm_pg ref_ext 1 10 ''k'' 14 (snd (invoke_write calm_pg ref_ext 1 10 ''k'' 13
       (demo_db\<lparr>db_calls := 6\<rparr>))))))) = 2"
proof -
  have rd: "invoke_read calm_pg ref_ext ''1'' ''k'' (demo_db\<lparr>db_calls := c\<rparr>) = (Inr (1, 10), demo_db\<lparr>db_calls := c + 3\<rparr>)" for c
    by (simp add: invoke_read_def calm_reads demo_db_def demo_function_def demo_version_def scan_function_def)
  have r0: "invoke_read calm_pg ref_ext ''1'' ''k'' (demo_db\<lparr>db_calls := 0\<rparr>) = (Inr (1, 10), demo_db\<lparr>db_calls := 3\<rparr>)"
    and r1: "invoke_read calm_pg ref_ext ''1'' ''k'' (demo_db\<lparr>db_calls := 3\<rparr>) = (Inr (1, 10), demo_db\<lparr>db_calls := 6\<rparr>)"
    using rd[of 0] rd[of 3] by simp_all
  note defs = invoke_write_def inv_create_def calm_exec sql_insert_invocation_def demo_db_def demo_function_def demo_version_def
    in_int32_def varchar_def char_length_def has_defs Let_def
  obtain j1 d3 where w1: "invoke_write calm_pg ref_ext 1 10 ''k'' 13 (demo_db\<lparr>db_calls := 6\<rparr>) = (Reply 202 j1, d3)"
    by (simp add: defs)
  obtain j2 d4 where w2: "invoke_write calm_pg ref_ext 1 10 ''k'' 14 d3 = (Reply 202 j2, d4)"
    using invoke_write_accepted[OF w1] by (auto simp: defs)
  from concurrent_invocations_share_a_key[OF r0 r1 w1 w2] w1 w2 show ?thesis
    by (auto simp: demo_db_def)
qed

section \<open>Listings\<close>

text \<open>
  C37. A listing of invocations holds at most as many as the limit of the query (fifty by default), all
  of the function asked for, newest first.
\<close>

theorem listing_is_bounded_and_sorted:
  assumes "pg_scans P" "uuid_parse X pid = Some f" "ih_list_by_function P X pid l d = (Reply 200 js, d')"
  shows "\<exists>ivs. js = JArr (map (invocation_item X) ivs) \<and> int (length ivs) \<le> query_limit l \<and>
    set ivs \<subseteq> {i \<in> set (db_invocations d). inv_fn i = f} \<and> sorted (map (\<lambda>i. - inv_created i) ivs)"
proof -
  obtain ivs where r: "inv_list_by_function_id P f (query_limit l) d = (Inr ivs, d')" and js: "js = JArr (map (invocation_item X) ivs)"
    using assms(2,3) by (auto simp: ih_list_by_function_def split: prod.splits sum.splits)
  have lim: "0 < query_limit l" by (auto simp: query_limit_def split: option.splits)
  let ?all = "sort_key (\<lambda>i. - inv_created i) (rows_where (\<lambda>i. inv_fn i = f) (pg_scan_invocations P (db_calls d) (db_invocations d)))"
  obtain n where "ivs = take n (take (nat (query_limit l)) ?all)"
  proof -
    have "ivs = take (nat (query_limit l)) ?all \<or> (\<exists>k. ivs = take k (take (nat (query_limit l)) ?all))"
      using r lim by (auto simp: inv_list_by_function_id_def pg_query_def sql_select_invocations_of_def Let_def split: fault.splits)
    then show thesis using that[of "length ivs"] that by (metis take_all order_refl)
  qed
  then have ivs: "ivs = take (min n (nat (query_limit l))) ?all" by (simp add: min.commute)
  have "set ivs \<subseteq> set ?all" unfolding ivs by (rule set_take_subset)
  then have "set ivs \<subseteq> {i \<in> set (db_invocations d). inv_fn i = f}" using pg_scans.scan_invocations[OF assms(1)] by auto
  moreover have "int (length ivs) \<le> query_limit l" using lim by (simp add: ivs)
  moreover have "sorted (map (\<lambda>i. - inv_created i) ivs)"
    unfolding ivs take_map[symmetric] by (intro sorted_wrt_take) simp
  ultimately show ?thesis using js by blast
qed

theorem listing_is_bounded_and_sorted_witness:
  "\<exists>ivs. fst (ih_list_by_function calm_pg ref_ext ''1'' ''2'' demo_db) = Reply 200 (JArr (map (invocation_item ref_ext) ivs)) \<and>
     int (length ivs) \<le> 2"
proof -
  have q: "query_limit ''2'' = 2" by (simp add: query_limit_def)
  obtain js d' where l: "ih_list_by_function calm_pg ref_ext ''1'' ''2'' demo_db = (Reply 200 js, d')"
    by (simp add: ih_list_by_function_def calm_reads sql_select_invocations_of_def q)
  from listing_is_bounded_and_sorted[OF ref_scans _ l] l q show ?thesis by auto
qed

text \<open>
  A connection lost while rows are read goes unnoticed, because the code never asks \<open>rows.Err()\<close>: a
  listing of versions is then answered with 200 and the rows read so far, and a rollback whose version
  was not among them is answered with 404 although the version exists.
\<close>

theorem lost_connection_shortens_the_list:
  assumes "pg_fault P (db_calls d) = LostDuring m k" "uuid_parse X pid = Some f"
    and "sql_select_versions_of P f (db_calls d) (bump d) = Inr vs"
  shows "(\<exists>js. fst (fh_list_versions P X pid d) = Reply 200 (JArr js) \<and> length js = min k (length vs)) \<and>
    (atoi pv = Some n \<longrightarrow> (\<forall>v \<in> set (take k vs). ver_num v \<noteq> n) \<longrightarrow>
       fh_rollback P X pid pv d = (Reply 404 (err_json ''version not found''), bump d))"
proof -
  have l: "ver_list_by_function_id P f d = (Inr (take k vs), bump d)"
    using assms(1,3) by (simp add: ver_list_by_function_id_def pg_query_def Let_def)
  have "find (\<lambda>v. ver_num v = n) (take k vs) = None" if "\<forall>v \<in> set (take k vs). ver_num v \<noteq> n"
    using that by (simp add: find_None_iff)
  then show ?thesis using l assms(2) by (simp add: fh_list_versions_def fh_rollback_def min.commute)
qed

theorem lost_connection_shortens_the_list_witness:
  "fst (fh_rollback (calm_pg\<lparr>pg_fault := \<lambda>_. LostDuring ''EOF'' 1\<rparr>) ref_ext ''1'' ''2'' demo_db) =
     Reply 404 (err_json ''version not found'')"
proof -
  let ?P = "calm_pg\<lparr>pg_fault := \<lambda>_. LostDuring ''EOF'' 1\<rparr>"
  have v: "sql_select_versions_of ?P 1 (db_calls demo_db) (bump demo_db) =
      Inr [demo_version 12 3 st_building, demo_version 11 2 st_ready, demo_version 10 1 st_ready]"
    by (simp add: sql_select_versions_of_def calm_pg_def rows_where_def demo_db_def demo_version_def)
  have "\<forall>v \<in> set (take 1 [demo_version 12 3 st_building, demo_version 11 2 st_ready, demo_version 10 1 st_ready]). ver_num v \<noteq> 2"
    by (simp add: demo_version_def)
  with lost_connection_shortens_the_list[OF _ _ v, of "''EOF''" 1 ref_ext "''1''" "''2''" 2] show ?thesis by simp
qed

end
