(* ===== verification/Interleaving.thy ===== *)
theory Interleaving
  imports Gateway
begin

text \<open>
  Overlapping requests.  gin serves every request in a goroutine of its own, and PostgreSQL executes single
  statements, so between any two statements of a handler any statements of others may run.  \<open>advance\<close> is a
  handler cut at its statements: one step of a request that is in progress, to its next stage or to its
  reply.  Only \<open>Deploy\<close>, \<open>Rollback\<close> and \<open>Invoke\<close> run more than one statement.
\<close>

section \<open>A handler, statement by statement\<close>

datatype stage =
    Begun request
  | DeployFound uuid
  | DeployNumber uuid int
  | DeployCreated version
  | RollbackTo uuid version
  | InvokeFunction uuid uuid string
  | InvokeVersion uuid uuid string
  | InvokeNew uuid uuid string

fun advance :: "gateway \<Rightarrow> req_env \<Rightarrow> string option \<Rightarrow> stage \<Rightarrow> db \<Rightarrow> (reply + stage) \<times> db" where
  "advance G E uid (Begun (Deploy pid)) d =
     (case uuid_parse (gw_ext G) pid of
        None \<Rightarrow> (Inl (Reply 400 (err_json ''invalid function ID'')), d)
      | Some f \<Rightarrow>
          (case fn_get_by_id (gw_pg G) f d of
             (Inl _, d') \<Rightarrow> (Inl (Reply 404 (err_json ''function not found'')), d')
           | (Inr _, d') \<Rightarrow> (Inr (DeployFound f), d')))"
| "advance G E uid (Begun (Rollback pid pversion)) d =
     (case uuid_parse (gw_ext G) pid of
        None \<Rightarrow> (Inl (Reply 400 (err_json ''invalid function ID'')), d)
      | Some f \<Rightarrow>
          (case atoi pversion of
             None \<Rightarrow> (Inl (Reply 400 (err_json ''invalid version number'')), d)
           | Some num \<Rightarrow>
               (case ver_list_by_function_id (gw_pg G) f d of
                  (Inl _, d') \<Rightarrow> (Inl (Reply 500 (err_json ''failed to list versions'')), d')
                | (Inr vs, d') \<Rightarrow>
                    (case find (\<lambda>v. ver_num v = num) vs of
                       None \<Rightarrow> (Inl (Reply 404 (err_json ''version not found'')), d')
                     | Some target \<Rightarrow>
                         if ver_status target \<noteq> st_ready
                         then (Inl (Reply 400 (err_json ''can only rollback to READY versions'')), d')
                         else (Inr (RollbackTo f target), d')))))"
| "advance G E uid (Begun (Invoke pid key)) d =
     (case uuid_parse (gw_ext G) pid of
        None \<Rightarrow> (Inl (Reply 400 (err_json ''invalid function ID'')), d)
      | Some f \<Rightarrow>
          (case fn_get_by_id (gw_pg G) f d of
             (Inl _, d') \<Rightarrow> (Inl (Reply 404 (err_json ''function not found'')), d')
           | (Inr fn, d') \<Rightarrow>
               if fn_active fn = uuid_nil then (Inl (Reply 400 (err_json ''no active version set'')), d')
               else (Inr (InvokeFunction f (fn_active fn) key), d')))"
| "advance G E uid (Begun r) d = (let (rep, d') = route_handler G E uid r d in (Inl rep, d'))"
| "advance G E uid (DeployFound f) d =
     (case ver_latest_number (gw_pg G) f d of
        (Inl _, d') \<Rightarrow> (Inl (Reply 500 (err_json ''failed to get latest version'')), d')
      | (Inr n, d') \<Rightarrow> (Inr (DeployNumber f n), d'))"
| "advance G E uid (DeployNumber f n) d =
     (let ver = \<lparr>ver_id = rq_new_id E, ver_fn = f, ver_num = wrap64 (n + 1), ver_image = '''',
                 ver_status = st_queued, ver_created = 0\<rparr>
      in case ver_create (gw_pg G) ver d of
           (Inl _, d') \<Rightarrow> (Inl (Reply 500 (err_json ''failed to create version'')), d')
         | (Inr _, d') \<Rightarrow> (Inr (DeployCreated ver), d'))"
| "advance G E uid (DeployCreated ver) d =
     (let (_, d') = ver_update_status (gw_pg G) (ver_id ver) st_building d
      in (Inl (Reply 202 (JObj [(''function_id'', uuid_json (gw_ext G) (ver_fn ver)),
            (''version_id'', uuid_json (gw_ext G) (ver_id ver)),
            (''version'', JInt (ver_num ver)), (''status'', JStr st_building),
            (''message'', JStr ''Build initiated'')])), d'))"
| "advance G E uid (RollbackTo f target) d =
     (case fn_update_active_version (gw_pg G) f (ver_id target) d of
        (Inl _, d') \<Rightarrow> (Inl (Reply 500 (err_json ''failed to rollback'')), d')
      | (Inr _, d') \<Rightarrow>
          (Inl (Reply 200 (JObj [(''function_id'', uuid_json (gw_ext G) f),
             (''active_version'', uuid_json (gw_ext G) (ver_id target)),
             (''version_number'', JInt (ver_num target))])), d'))"
| "advance G E uid (InvokeFunction f v key) d =
     (case ver_get_by_id (gw_pg G) v d of
        (Inl _, d') \<Rightarrow> (Inl (Reply 404 (err_json ''active version not found'')), d')
      | (Inr ver, d') \<Rightarrow>
          if key \<noteq> '''' then (Inr (InvokeVersion f (ver_id ver) key), d') else (Inr (InvokeNew f (ver_id ver) key), d'))"
| "advance G E uid (InvokeVersion f v key) d =
     (case inv_get_by_key (gw_pg G) key d of
        (Inr e, d') \<Rightarrow>
          (Inl (Reply 202 (JObj [(''id'', uuid_json (gw_ext G) (inv_id e)), (''status'', JStr (inv_status e)),
             (''message'', JStr ''Duplicate request deduplicated'')])), d')
      | (Inl _, d') \<Rightarrow> (Inr (InvokeNew f v key), d'))"
| "advance G E uid (InvokeNew f v key) d =
     (let (rep, d') = invoke_write (gw_pg G) (gw_ext G) f v key (rq_new_id E) d in (Inl rep, d'))"

text \<open>A request that no other overlaps: its steps, one after the other.\<close>

fun stages_left :: "stage \<Rightarrow> nat" where
  "stages_left (Begun _) = 4"
| "stages_left (DeployFound _) = 3"
| "stages_left (DeployNumber _ _) = 2"
| "stages_left (InvokeFunction _ _ _) = 2"
| "stages_left (InvokeVersion _ _ _) = 1"
| "stages_left (DeployCreated _) = 0"
| "stages_left (RollbackTo _ _) = 0"
| "stages_left (InvokeNew _ _ _) = 0"

lemma advance_decreases: "advance G E uid s d = (Inr s', d') \<Longrightarrow> stages_left s' < stages_left s"
  by (induction G E uid s d rule: advance.induct)
    (auto simp: Let_def split: option.splits sum.splits prod.splits if_splits)

function complete :: "gateway \<Rightarrow> req_env \<Rightarrow> string option \<Rightarrow> stage \<Rightarrow> db \<Rightarrow> reply \<times> db" where
  "complete G E uid s d =
     (case advance G E uid s d of (Inl rep, d') \<Rightarrow> (rep, d') | (Inr s', d') \<Rightarrow> complete G E uid s' d')"
  by pat_completeness auto
termination
  by (relation "measure (\<lambda>(G, E, uid, s, d). stages_left s)") (auto dest: advance_decreases[OF sym])

declare complete.simps [simp del]

lemmas complete_at = complete.simps[of G E uid "Begun r" for G E uid r] complete.simps[of G E uid "DeployFound f" for G E uid f]
  complete.simps[of G E uid "DeployNumber f n" for G E uid f n] complete.simps[of G E uid "DeployCreated v" for G E uid v]
  complete.simps[of G E uid "RollbackTo f v" for G E uid f v] complete.simps[of G E uid "InvokeFunction f v k" for G E uid f v k]
  complete.simps[of G E uid "InvokeVersion f v k" for G E uid f v k] complete.simps[of G E uid "InvokeNew f v k" for G E uid f v k]

lemma complete_deploy: "complete G E uid (Begun (Deploy pid)) d = fh_deploy (gw_pg G) (gw_ext G) pid (rq_new_id E) d"
  by (simp add: complete_at fh_deploy_def deploy_read_def deploy_write_def Let_def split: option.split sum.split prod.split)

lemma complete_rollback: "complete G E uid (Begun (Rollback pid pv)) d = fh_rollback (gw_pg G) (gw_ext G) pid pv d"
  by (simp add: complete_at fh_rollback_def Let_def split: option.split sum.split prod.split)

lemma complete_invoke: "complete G E uid (Begun (Invoke pid key)) d = ih_invoke (gw_pg G) (gw_ext G) pid key (rq_new_id E) d"
  by (simp add: complete_at ih_invoke_def invoke_read_def Let_def split: option.split sum.split prod.split)

section \<open>Requests in progress\<close>

text \<open>
  The gateway with requests in progress, each under a number, with its environment, its user and its stage.
  \<open>cg_drawn\<close> holds the identifiers in use: those of versions and those \<open>uuid.New\<close> yielded.
\<close>

record conc =
  cg_db :: db
  cg_open :: "nat \<rightharpoonup> req_env \<times> string option \<times> stage"
  cg_drawn :: "uuid set"

definition admitted :: "gateway \<Rightarrow> req_env \<Rightarrow> request \<Rightarrow> string option \<Rightarrow> bool" where
  "admitted G E r uid \<longleftrightarrow>
     (if protected_route r
      then (case auth_middleware (gw_crypto G) (gw_ext G) (gw_auth G) (rq_auth E) of Inl _ \<Rightarrow> False | Inr u \<Rightarrow> uid = Some u)
      else uid = None)"

text \<open>
  A request arrives, with an identifier of its own that was never drawn before; a request takes a step or
  ends; the process ends, and every request in progress with it.
\<close>

inductive conc_step :: "gateway \<Rightarrow> conc \<Rightarrow> conc \<Rightarrow> bool" for G where
  arrive: "admitted G E r uid \<Longrightarrow> cg_open c n = None \<Longrightarrow> rq_new_id E \<notin> cg_drawn c \<Longrightarrow>
    conc_step G c (c\<lparr>cg_open := (cg_open c)(n \<mapsto> (E, uid, Begun r)), cg_drawn := insert (rq_new_id E) (cg_drawn c)\<rparr>)"
| run: "cg_open c n = Some (E, uid, s) \<Longrightarrow> advance G E uid s (cg_db c) = (Inr s', d') \<Longrightarrow>
    conc_step G c (c\<lparr>cg_db := d', cg_open := (cg_open c)(n \<mapsto> (E, uid, s'))\<rparr>)"
| finish: "cg_open c n = Some (E, uid, s) \<Longrightarrow> advance G E uid s (cg_db c) = (Inl rep, d') \<Longrightarrow>
    conc_step G c (c\<lparr>cg_db := d', cg_open := (cg_open c)(n := None)\<rparr>)"
| crash: "conc_step G c (c\<lparr>cg_open := Map.empty\<rparr>)"

inductive_cases conc_stepE: "conc_step G c c'"

definition conc_start :: "db \<Rightarrow> conc" where
  "conc_start d = \<lparr>cg_db = d, cg_open = Map.empty, cg_drawn = ver_id ` set (db_versions d)\<rparr>"

section \<open>The invariant\<close>

text \<open>
  What is known of a request in progress: the identifier it drew names no version until it has created one;
  the version it created is queued, if it is still there; the version it rolls back to is as it was read, if
  it is still there, and its identifier was not drawn by any request in progress.
\<close>

definition stage_ok :: "conc \<Rightarrow> req_env \<Rightarrow> stage \<Rightarrow> bool" where
  "stage_ok c E s \<longleftrightarrow> (case s of
      DeployCreated v \<Rightarrow> ver_id v = rq_new_id E \<and>
        (\<forall>x \<in> set (db_versions (cg_db c)). ver_id x = ver_id v \<longrightarrow> ver_status x = st_queued)
    | RollbackTo f v \<Rightarrow> \<not> has_version (cg_db c) (rq_new_id E) \<and> ver_fn v = f \<and> ver_status v = st_ready \<and> ver_id v \<in> cg_drawn c \<and>
        (\<forall>x \<in> set (db_versions (cg_db c)). ver_id x = ver_id v \<longrightarrow> x = v) \<and>
        (\<forall>m E' uid' s'. cg_open c m = Some (E', uid', s') \<longrightarrow> rq_new_id E' \<noteq> ver_id v)
    | _ \<Rightarrow> \<not> has_version (cg_db c) (rq_new_id E))"

definition conc_ok :: "conc \<Rightarrow> bool" where
  "conc_ok c \<longleftrightarrow> db_wf (cg_db c) \<and> active_ok (cg_db c) \<and> ver_id ` set (db_versions (cg_db c)) \<subseteq> cg_drawn c \<and>
     (\<forall>n E uid s. cg_open c n = Some (E, uid, s) \<longrightarrow> rq_new_id E \<in> cg_drawn c \<and> stage_ok c E s) \<and>
     (\<forall>n m E F uid vid s t. cg_open c n = Some (E, uid, s) \<longrightarrow> cg_open c m = Some (F, vid, t) \<longrightarrow> n \<noteq> m \<longrightarrow>
        rq_new_id E \<noteq> rq_new_id F)"

lemma conc_okD:
  assumes "conc_ok c"
  shows "db_wf (cg_db c)" "active_ok (cg_db c)" "\<And>x. x \<in> set (db_versions (cg_db c)) \<Longrightarrow> ver_id x \<in> cg_drawn c"
    "\<And>n E uid s. cg_open c n = Some (E, uid, s) \<Longrightarrow> rq_new_id E \<in> cg_drawn c"
    "\<And>n E uid s. cg_open c n = Some (E, uid, s) \<Longrightarrow> stage_ok c E s"
    "\<And>n m E F uid vid s t. cg_open c n = Some (E, uid, s) \<Longrightarrow> cg_open c m = Some (F, vid, t) \<Longrightarrow> n \<noteq> m \<Longrightarrow> rq_new_id E \<noteq> rq_new_id F"
  using assms unfolding conc_ok_def by blast+

lemma conc_okI:
  assumes "db_wf (cg_db c)" "active_ok (cg_db c)" "\<And>x. x \<in> set (db_versions (cg_db c)) \<Longrightarrow> ver_id x \<in> cg_drawn c"
    and "\<And>n E uid s. cg_open c n = Some (E, uid, s) \<Longrightarrow> rq_new_id E \<in> cg_drawn c"
    and "\<And>n E uid s. cg_open c n = Some (E, uid, s) \<Longrightarrow> stage_ok c E s"
    and "\<And>n m E F uid vid s t. cg_open c n = Some (E, uid, s) \<Longrightarrow> cg_open c m = Some (F, vid, t) \<Longrightarrow> n \<noteq> m \<Longrightarrow>
      rq_new_id E \<noteq> rq_new_id F"
  shows "conc_ok c"
  using assms unfolding conc_ok_def by blast

lemma stage_ok_RollbackTo:
  "stage_ok c E (RollbackTo f v) \<longleftrightarrow> \<not> has_version (cg_db c) (rq_new_id E) \<and> ver_fn v = f \<and> ver_status v = st_ready \<and>
     ver_id v \<in> cg_drawn c \<and> (\<forall>x \<in> set (db_versions (cg_db c)). ver_id x = ver_id v \<longrightarrow> x = v) \<and>
     (\<forall>m E' uid' s'. cg_open c m = Some (E', uid', s') \<longrightarrow> rq_new_id E' \<noteq> ver_id v)"
  by (simp only: stage_ok_def stage.case)

text \<open>What is known of a request depends on the others by the identifiers they drew only.\<close>

lemma stage_ok_open:
  assumes "stage_ok c E s" "cg_db c' = cg_db c" "cg_drawn c \<subseteq> cg_drawn c'"
    and "\<And>m F vid t. cg_open c' m = Some (F, vid, t) \<Longrightarrow> rq_new_id F \<notin> cg_drawn c \<or> (\<exists>t'. cg_open c m = Some (F, vid, t'))"
  shows "stage_ok c' E s"
proof (cases s)
  case (RollbackTo f v)
  have "rq_new_id F \<noteq> ver_id v" if "cg_open c' m = Some (F, vid, t)" for m F vid t
    using assms(1) assms(4)[OF that] unfolding RollbackTo stage_ok_RollbackTo by metis
  then show ?thesis using assms(1,2,3) unfolding RollbackTo stage_ok_RollbackTo by auto
qed (use assms(1,2) in \<open>simp_all add: stage_ok_def\<close>)

lemma conc_ok_arrive:
  assumes ok: "conc_ok c" and "cg_open c n = None" "rq_new_id E \<notin> cg_drawn c"
  shows "conc_ok (c\<lparr>cg_open := (cg_open c)(n \<mapsto> (E, uid, Begun r)), cg_drawn := insert (rq_new_id E) (cg_drawn c)\<rparr>)"
    (is "conc_ok ?c")
proof -
  note D = conc_okD[OF ok]
  have cases_open: "m = n \<and> F = E \<and> s = Begun r \<or> m \<noteq> n \<and> cg_open c m = Some (F, vid, s)" if "cg_open ?c m = Some (F, vid, s)" for m F vid s
    using that by (auto split: if_splits)
  have neq: "rq_new_id F \<noteq> rq_new_id E" if "cg_open c m = Some (F, vid, s)" for m F vid s
    using D(4)[OF that] assms(3) by metis
  have new: "\<not> has_version (cg_db c) (rq_new_id E)" using D(3) assms(3) by (auto simp: has_version_def)
  show ?thesis
  proof (rule conc_okI)
    show "stage_ok ?c F s" if "cg_open ?c m = Some (F, vid, s)" for m F vid s
      using cases_open[OF that] new
    proof (elim disjE conjE)
      assume "cg_open c m = Some (F, vid, s)"
      then show ?thesis by (rule stage_ok_open[OF D(5)]) (use assms(3) in \<open>auto split: if_splits\<close>)
    qed (simp add: stage_ok_def)
    show "rq_new_id F \<noteq> rq_new_id F'" if "cg_open ?c m = Some (F, vid, s)" "cg_open ?c m' = Some (F', vid', s')" "m \<noteq> m'"
      for m m' F F' vid vid' s s'
      using cases_open[OF that(1)] cases_open[OF that(2)] that(3) neq D(6) by metis
  qed (use D(1,2,3,4) in \<open>auto split: if_splits\<close>)
qed

text \<open>
  How one statement of a request that drew the identifier \<open>i\<close> may change the versions: some disappear, and one
  with that identifier may be new or changed.
\<close>

definition versions_step :: "uuid \<Rightarrow> db \<Rightarrow> db \<Rightarrow> bool" where
  "versions_step i d d' \<longleftrightarrow> (\<forall>x \<in> set (db_versions d'). x \<in> set (db_versions d) \<or> ver_id x = i)"

lemma versions_step_subset: "set (db_versions d') \<subseteq> set (db_versions d) \<Longrightarrow> versions_step i d d'"
  by (auto simp: versions_step_def)

lemma conc_ok_step:
  assumes ok: "conc_ok c" and n: "cg_open c n = Some (E, uid, s)"
    and wf: "db_wf d'" "active_ok d'" and vs: "versions_step (rq_new_id E) (cg_db c) d'"
    and new: "\<And>s'. nxt = Some s' \<Longrightarrow> stage_ok (c\<lparr>cg_db := d'\<rparr>) E s'"
  shows "conc_ok (c\<lparr>cg_db := d', cg_open := (cg_open c)(n := map_option (\<lambda>s'. (E, uid, s')) nxt)\<rparr>)" (is "conc_ok ?c")
proof -
  note D = conc_okD[OF ok]
  have env: "\<exists>t'. cg_open c m = Some (F, vid, t')" if "cg_open ?c m = Some (F, vid, t)" for m F vid t
    using that n by (auto split: if_splits)
  have old: "x \<in> set (db_versions (cg_db c))" if "x \<in> set (db_versions d')" "ver_id x \<noteq> rq_new_id E" for x
    using vs that by (auto simp: versions_step_def)
  have other: "stage_ok (c\<lparr>cg_db := d'\<rparr>) F t" if m: "m \<noteq> n" "cg_open c m = Some (F, vid, t)" for m F vid t
  proof -
    have id: "rq_new_id F \<noteq> rq_new_id E" using D(6)[OF m(2) n m(1)] .
    have hv: "has_version d' (rq_new_id F) \<Longrightarrow> has_version (cg_db c) (rq_new_id F)" using old id by (fastforce simp: has_version_def)
    have t: "stage_ok c F t" using D(5)[OF m(2)] .
    show ?thesis
    proof (cases t)
      case (RollbackTo f v)
      note T = t[unfolded RollbackTo stage_ok_RollbackTo]
      have ne: "rq_new_id E \<noteq> ver_id v" using T n by metis
      have "x = v" if "x \<in> set (db_versions d')" "ver_id x = ver_id v" for x
        using old[OF that(1)] that(2) T ne by metis
      then show ?thesis unfolding RollbackTo stage_ok_RollbackTo using T hv by simp blast
    qed (use t hv old id in \<open>auto simp: stage_ok_def\<close>)
  qed
  show ?thesis
  proof (rule conc_okI)
    show "stage_ok ?c F t" if m: "cg_open ?c m = Some (F, vid, t)" for m F vid t
    proof (rule stage_ok_open)
      show "stage_ok (c\<lparr>cg_db := d'\<rparr>) F t"
        using m other new by (cases "m = n") auto
    qed (use env in simp_all)
    show "ver_id x \<in> cg_drawn ?c" if "x \<in> set (db_versions (cg_db ?c))" for x
      using old[of x] that D(3) D(4)[OF n] by (cases "ver_id x = rq_new_id E") auto
    show "rq_new_id F \<noteq> rq_new_id F'" if "cg_open ?c m = Some (F, vid, t)" "cg_open ?c m' = Some (F', vid', t')" "m \<noteq> m'"
      for m m' F F' vid vid' t t'
      using env[OF that(1)] env[OF that(2)] D(6) that(3) by blast
    show "rq_new_id F \<in> cg_drawn ?c" if "cg_open ?c m = Some (F, vid, t)" for m F vid t
      using env[OF that] D(4) by auto
  qed (use wf in simp_all)
qed

section \<open>Every step keeps it\<close>

text \<open>Requests of a single statement change versions only by deleting a function.\<close>

definition single :: "request \<Rightarrow> bool" where
  "single r = (case r of Deploy _ \<Rightarrow> False | Rollback _ _ \<Rightarrow> False | Invoke _ _ \<Rightarrow> False | _ \<Rightarrow> True)"

lemma advance_single: "single r \<Longrightarrow> advance G E uid (Begun r) d = (let (rep, d') = route_handler G E uid r d in (Inl rep, d'))"
  by (cases r) (simp_all add: single_def)

lemma exec_versions:
  assumes "pg_exec P st d = (r, d')" "\<And>now e e'. st now e = Inr e' \<Longrightarrow> set (db_versions e') \<subseteq> set (db_versions e)"
  shows "set (db_versions d') \<subseteq> set (db_versions d)"
  using assms(1)
proof (cases rule: pg_exec_cases)
  case 2
  from assms(2)[OF 2] show ?thesis by simp
qed simp

lemma write_versions:
  "sql_insert_user uid e h k now d = Inr d1 \<Longrightarrow> set (db_versions d1) \<subseteq> set (db_versions d)"
  "sql_insert_function fn now d = Inr d2 \<Longrightarrow> set (db_versions d2) \<subseteq> set (db_versions d)"
  "sql_delete_function f now d = Inr d3 \<Longrightarrow> set (db_versions d3) \<subseteq> set (db_versions d)"
  "sql_insert_invocation i now d = Inr d4 \<Longrightarrow> set (db_versions d4) \<subseteq> set (db_versions d)"
  "sql_update_active_version f v now d = Inr d5 \<Longrightarrow> set (db_versions d5) \<subseteq> set (db_versions d)"
  by (auto simp: sql_write_defs Let_def split: if_splits)

lemma single_versions:
  assumes "single r" "route_handler G E uid r d = (rep, d')"
  shows "set (db_versions d') \<subseteq> set (db_versions d)"
  using assms unfolding route_handler_def Let_def
  by (cases r)
    (auto simp: single_def ah_register_def ah_login_def fh_list_def fh_create_def fn_create_def fh_get_def fh_delete_def
      fn_delete_def fh_list_versions_def ih_list_by_function_def ih_get_logs_def Let_def
      split: sum.splits prod.splits option.splits dest!: repo_reads pg_query_row_tables
      dest: exec_versions[OF _ write_versions(1)] exec_versions[OF _ write_versions(2)] exec_versions[OF _ write_versions(3)])

lemma single_invariants:
  assumes "single r" "route_handler G E uid r d = (rep, d')" "db_wf d" "active_ok d"
  shows "db_wf d' \<and> active_ok d'"
  using assms unfolding route_handler_def Let_def
  by (cases r) (auto simp: single_def ih_get_logs_def
      intro: schema.register schema.login schema.create schema.delete schema.reads
        activation.register activation.login activation.create activation.delete activation.reads)

lemma update_where_none: "\<forall>r \<in> set t. \<not> Q r \<Longrightarrow> update_where Q f t = t"
  by (induction t) (auto simp: update_where_def)

lemma update_active_ok:
  assumes wf: "db_wf d" "active_ok d" and v: "ver_fn v = f" "ver_status v = st_ready"
    "\<forall>x \<in> set (db_versions d). ver_id x = ver_id v \<longrightarrow> x = v"
    and upd: "sql_update_active_version f (ver_id v) now d = Inr d'"
  shows "active_ok d'"
proof (cases "has_function d f")
  case True
  then obtain x where "x \<in> set (db_versions d)" "ver_id x = ver_id v"
    using upd by (auto simp: sql_update_active_version_def has_version_def split: if_splits)
  then have "v \<in> set (db_versions d)" using v(3) by metis
  then show ?thesis using active_ok_rollback[OF wf(2) _ v(1,2) upd] by simp
next
  case False
  then have "db_functions d' = db_functions d" "db_versions d' = db_versions d"
    using upd by (auto simp: sql_update_active_version_def has_function_def intro!: update_where_none split: if_splits)
  then show ?thesis using wf(2) by (simp add: active_ok_def)
qed

lemma update_status_ok:
  assumes wf: "db_wf d" "active_ok d" and v: "\<forall>x \<in> set (db_versions d). ver_id x = i \<longrightarrow> ver_status x = st_queued"
    and upd: "sql_update_version_status i s now d = Inr d'"
  shows "active_ok d'"
proof (cases "has_version d i")
  case True
  then obtain x where "x \<in> set (db_versions d)" "ver_id x = i" by (auto simp: has_version_def)
  then show ?thesis using active_ok_status[OF wf, of x] v upd by auto
next
  case False
  then have "db_functions d' = db_functions d" "db_versions d' = db_versions d"
    using upd by (auto simp: sql_update_version_status_def has_version_def intro!: update_where_none split: if_splits)
  then show ?thesis using wf(2) by (simp add: active_ok_def)
qed

text \<open>A statement through the driver changes the versions as it does itself, or not at all.\<close>

lemma exec_versions_step:
  assumes "pg_exec P st d = (r, d')" "\<And>now e e'. st now e = Inr e' \<Longrightarrow> versions_step i e e'"
  shows "versions_step i d d'"
  using assms(1)
proof (cases rule: pg_exec_cases)
  case 2
  from assms(2)[OF 2] show ?thesis by (simp add: versions_step_def)
qed (simp add: versions_step_def)

lemma insert_versions_step: "sql_insert_version v now d = Inr d' \<Longrightarrow> versions_step (ver_id v) d d'"
  by (auto simp: sql_insert_version_def versions_step_def split: if_splits)

lemma status_versions_step: "sql_update_version_status i s now d = Inr d' \<Longrightarrow> versions_step i d d'"
  by (auto simp: sql_update_version_status_def versions_step_def set_update_where split: if_splits)

definition step_ok :: "conc \<Rightarrow> req_env \<Rightarrow> reply + stage \<Rightarrow> db \<Rightarrow> bool" where
  "step_ok c E res d' \<longleftrightarrow> db_wf d' \<and> active_ok d' \<and> versions_step (rq_new_id E) (cg_db c) d' \<and>
     (\<forall>s'. res = Inr s' \<longrightarrow> stage_ok (c\<lparr>cg_db := d'\<rparr>) E s')"

lemma step_ok_read:
  assumes "conc_ok c" "d' = (cg_db c)\<lparr>db_calls := k\<rparr>" "\<And>s'. res = Inr s' \<Longrightarrow> stage_ok c E s'"
  shows "step_ok c E res d'"
proof -
  have "stage_ok (c\<lparr>cg_db := d'\<rparr>) E s' = stage_ok c E s'" for s'
    by (simp add: stage_ok_def assms(2) has_version_def split: stage.splits)
  then show ?thesis
    using conc_okD(1,2)[OF assms(1)] assms(2,3) by (simp add: step_ok_def active_ok_def versions_step_def)
qed

text \<open>Stages that have not created a version and are not about to roll back: the identifier is unused.\<close>

definition plain_stage :: "stage \<Rightarrow> bool" where
  "plain_stage s = (case s of DeployCreated _ \<Rightarrow> False | RollbackTo _ _ \<Rightarrow> False | _ \<Rightarrow> True)"

lemma stage_ok_plain: "plain_stage s \<Longrightarrow> stage_ok c E s \<longleftrightarrow> \<not> has_version (cg_db c) (rq_new_id E)"
  by (cases s) (simp_all add: plain_stage_def stage_ok_def)

lemma calls_only [simp]: "\<exists>k. d = d\<lparr>db_calls := k\<rparr>" "\<exists>k. d\<lparr>db_calls := n\<rparr> = d\<lparr>db_calls := k\<rparr>"
  by (rule exI[of _ "db_calls d"]) (auto intro: exI[of _ n])

lemma plain_read:
  assumes "conc_ok c" "stage_ok c E s" "plain_stage s" "\<exists>k. d' = (cg_db c)\<lparr>db_calls := k\<rparr>"
    and "\<forall>s'. res = Inr s' \<longrightarrow> plain_stage s'"
  shows "step_ok c E res d'"
  using assms step_ok_read[OF assms(1)] by (auto simp: stage_ok_plain)

lemma step_ok_single:
  assumes ok: "conc_ok c" and "single r" "advance G E uid (Begun r) (cg_db c) = (res, d')"
  shows "step_ok c E res d'"
proof -
  obtain rep where h: "route_handler G E uid r (cg_db c) = (rep, d')" and res: "res = Inl rep"
    using assms(3) by (auto simp: advance_single[OF assms(2)] split: prod.splits)
  then show ?thesis
    using single_invariants[OF assms(2) h conc_okD(1,2)[OF ok]] single_versions[OF assms(2) h]
    by (simp add: step_ok_def versions_step_subset)
qed

lemma step_ok_deploy:
  assumes ok: "conc_ok c" and s: "stage_ok c E s" and adv: "advance G E uid s (cg_db c) = (res, d')"
    and st: "s = Begun (Deploy pid) \<or> s = DeployFound f \<or> s = DeployNumber f n \<or> s = DeployCreated v"
  shows "step_ok c E res d'"
  using st
proof (elim disjE)
  assume st: "s = Begun (Deploy pid)"
  have "\<exists>k. d' = (cg_db c)\<lparr>db_calls := k\<rparr>" "\<forall>s'. res = Inr s' \<longrightarrow> plain_stage s'"
    using adv unfolding st
    by (auto simp: plain_stage_def split: option.splits sum.splits prod.splits dest!: repo_reads)
  then show ?thesis using plain_read[OF ok s] st by (simp add: plain_stage_def)
next
  assume st: "s = DeployFound f"
  have "\<exists>k. d' = (cg_db c)\<lparr>db_calls := k\<rparr>" "\<forall>s'. res = Inr s' \<longrightarrow> plain_stage s'"
    using adv unfolding st by (auto simp: plain_stage_def split: sum.splits prod.splits dest!: repo_reads)
  then show ?thesis using plain_read[OF ok s] st by (simp add: plain_stage_def)
next
  assume st: "s = DeployNumber f n"
  define ver where "ver = \<lparr>ver_id = rq_new_id E, ver_fn = f, ver_num = wrap64 (n + 1), ver_image = '''',
                 ver_status = st_queued, ver_created = 0\<rparr>"
  obtain x where c: "ver_create (gw_pg G) ver (cg_db c) = (x, d')" and res: "\<And>s'. res = Inr s' \<Longrightarrow> s' = DeployCreated ver \<and> x = Inr ()"
    using adv by (auto simp: st ver_def Let_def split: sum.splits prod.splits)
  have e: "pg_exec (gw_pg G) (sql_insert_version ver) (cg_db c) = (x, d')" using c by (simp add: ver_create_def)
  have "db_wf d'" using ins_ver.exec[OF e] conc_okD(1)[OF ok] by simp
  moreover have "active_ok d'"
    using activation.exec[OF e conc_okD(1,2)[OF ok]] active_ok_inserts(3) by blast
  moreover have "versions_step (rq_new_id E) (cg_db c) d'"
    by (rule exec_versions_step[OF e]) (use insert_versions_step[of ver] in \<open>simp add: ver_def\<close>)
  moreover have "stage_ok (c\<lparr>cg_db := d'\<rparr>) E (DeployCreated ver)"
  proof -
    have gone: "ver_id y \<noteq> rq_new_id E" if "y \<in> set (db_versions (cg_db c))" for y
      using s that unfolding st stage_ok_def has_version_def stage.case by (metis imageI)
    have "ver_status y = st_queued" if "y \<in> set (db_versions d')" "ver_id y = rq_new_id E" for y
      using e
    proof (cases rule: pg_exec_cases)
      case 2
      have "y \<notin> set (db_versions (cg_db c))" using gone that(2) by blast
      then show ?thesis using that(1) 2
        by (auto simp: sql_insert_version_def has_version_def ver_def split: if_splits)
    qed (use that gone in auto)
    then show ?thesis by (simp add: stage_ok_def ver_def)
  qed
  ultimately show ?thesis using res by (auto simp: step_ok_def)
next
  assume st: "s = DeployCreated v"
  obtain x where e: "pg_exec (gw_pg G) (sql_update_version_status (ver_id v) st_building) (cg_db c) = (x, d')"
    and res: "\<exists>rep. res = Inl rep"
    using adv by (auto simp: st ver_update_status_def Let_def split: prod.splits)
  have v: "ver_id v = rq_new_id E" "\<forall>x \<in> set (db_versions (cg_db c)). ver_id x = ver_id v \<longrightarrow> ver_status x = st_queued"
    using s by (simp_all add: st stage_ok_def)
  have "db_wf d'" using upd_ver.exec[OF e] conc_okD(1)[OF ok] by simp
  moreover have "active_ok d'"
    using e conc_okD(1,2)[OF ok]
  proof (rule activation.exec)
    fix now d1 d2
    assume "d1 = (cg_db c)\<lparr>db_calls := Suc (db_calls (cg_db c))\<rparr>" "db_wf d1" "active_ok d1"
      "sql_update_version_status (ver_id v) st_building now d1 = Inr d2"
    then show "active_ok d2" using update_status_ok[of d1 "ver_id v"] v(2) by simp
  qed
  moreover have "versions_step (rq_new_id E) (cg_db c) d'"
    by (rule exec_versions_step[OF e]) (use status_versions_step v(1) in metis)
  ultimately show ?thesis using res by (auto simp: step_ok_def)
qed

lemma step_ok_rollback:
  assumes ok: "conc_ok c" and sc: "pg_scans (gw_pg G)" and n: "cg_open c n = Some (E, uid, s)"
    and adv: "advance G E uid s (cg_db c) = (res, d')"
    and st: "s = Begun (Rollback pid pv) \<or> s = RollbackTo f v"
  shows "step_ok c E res d'"
  using st
proof (elim disjE)
  assume st: "s = Begun (Rollback pid pv)"
  have read: "\<exists>k. d' = (cg_db c)\<lparr>db_calls := k\<rparr>"
    using adv unfolding st
    by (auto split: option.splits sum.splits prod.splits if_splits dest!: repo_reads)
  have s: "\<not> has_version (cg_db c) (rq_new_id E)" using conc_okD(5)[OF ok n] by (simp add: st stage_ok_def)
  have "stage_ok c E s'" if res: "res = Inr s'" for s'
  proof -
    obtain f vs v d1 where l: "ver_list_by_function_id (gw_pg G) f (cg_db c) = (Inr vs, d1)" "v \<in> set vs"
      "ver_status v = st_ready" "s' = RollbackTo f v"
      using adv unfolding st res by (fastforce split: option.splits sum.splits prod.splits if_splits dest: find_SomeD)
    have v: "v \<in> set (db_versions (cg_db c))" "ver_fn v = f"
      using pg_scans.ver_list_subset[OF sc l(1)] l(2) by auto
    have pk: "distinct (map ver_id (db_versions (cg_db c)))" using conc_okD(1)[OF ok] by (simp add: db_wf_def pk_ok_def)
    have same: "\<forall>x \<in> set (db_versions (cg_db c)). ver_id x = ver_id v \<longrightarrow> x = v"
      using pk v(1) by (auto simp: distinct_map inj_on_def)
    have "rq_new_id F \<noteq> ver_id v" if m: "cg_open c m = Some (F, vid, t)" for m F vid t
    proof
      assume eq: "rq_new_id F = ver_id v"
      then have hv: "has_version (cg_db c) (rq_new_id F)" using v(1) by (auto simp: has_version_def)
      have t: "stage_ok c F t" using conc_okD(5)[OF ok m] .
      show False
      proof (cases t)
        case (DeployCreated w)
        then have "ver_status v = st_queued" using t eq v(1) by (simp add: stage_ok_def)
        then show False using l(3) by simp
      qed (use t hv in \<open>simp_all add: stage_ok_def\<close>)
    qed
    then show ?thesis
      unfolding l(4) stage_ok_RollbackTo using s v l(3) same conc_okD(3)[OF ok v(1)] by blast
  qed
  then show ?thesis using step_ok_read[OF ok] read by blast
next
  assume st: "s = RollbackTo f v"
  note v = conc_okD(5)[OF ok n, unfolded st stage_ok_RollbackTo]
  obtain x where e: "pg_exec (gw_pg G) (sql_update_active_version f (ver_id v)) (cg_db c) = (x, d')"
    and res: "\<exists>rep. res = Inl rep"
    using adv by (auto simp: st fn_update_active_version_def Let_def split: prod.splits sum.splits)
  have "db_wf d'" using upd_active.exec[OF e] conc_okD(1)[OF ok] by simp
  moreover have "active_ok d'"
    using e conc_okD(1,2)[OF ok]
  proof (rule activation.exec)
    fix now d1 d2
    assume "d1 = (cg_db c)\<lparr>db_calls := Suc (db_calls (cg_db c))\<rparr>" "db_wf d1" "active_ok d1"
      "sql_update_active_version f (ver_id v) now d1 = Inr d2"
    then show "active_ok d2" using update_active_ok[of d1 v f] v by simp
  qed
  moreover have "versions_step (rq_new_id E) (cg_db c) d'"
    by (rule versions_step_subset) (rule exec_versions[OF e], rule write_versions(5))
  ultimately show ?thesis using res by (auto simp: step_ok_def)
qed

lemma step_ok_invoke:
  assumes ok: "conc_ok c" and s: "stage_ok c E s" and adv: "advance G E uid s (cg_db c) = (res, d')"
    and st: "s = Begun (Invoke pid key) \<or> s = InvokeFunction f v key \<or> s = InvokeVersion f v key \<or> s = InvokeNew f v key"
  shows "step_ok c E res d'"
proof (cases "s = InvokeNew f v key")
  case True
  define inv where "inv = \<lparr>inv_id = rq_new_id E, inv_fn = f, inv_ver = v, inv_worker = uuid_nil,
                 inv_status = st_pending, inv_duration = 0, inv_cold = False, inv_retries = 0,
                 inv_error = '''', inv_key = key, inv_created = 0\<rparr>"
  obtain x where e: "pg_exec (gw_pg G) (sql_insert_invocation inv) (cg_db c) = (x, d')" and res: "\<exists>rep. res = Inl rep"
    using adv by (auto simp: True invoke_write_def inv_create_def inv_def Let_def split: prod.splits sum.splits)
  have "db_wf d'" using ins_inv.exec[OF e] conc_okD(1)[OF ok] by simp
  moreover have "active_ok d'"
    using activation.exec[OF e conc_okD(1,2)[OF ok]] active_ok_inserts(4) by blast
  moreover have "versions_step (rq_new_id E) (cg_db c) d'"
    by (rule versions_step_subset) (rule exec_versions[OF e], rule write_versions(4))
  ultimately show ?thesis using res by (auto simp: step_ok_def)
next
  case False
  have "\<exists>k. d' = (cg_db c)\<lparr>db_calls := k\<rparr>" "\<forall>s'. res = Inr s' \<longrightarrow> plain_stage s'" "plain_stage s"
    using adv st False
    by (auto simp: plain_stage_def split: option.splits sum.splits prod.splits if_splits dest!: repo_reads)
  then show ?thesis using plain_read[OF ok s] by simp
qed

lemma advance_ok:
  assumes ok: "conc_ok c" and sc: "pg_scans (gw_pg G)" and n: "cg_open c n = Some (E, uid, s)"
    and adv: "advance G E uid s (cg_db c) = (res, d')"
  shows "step_ok c E res d'"
proof (cases s)
  case (Begun r)
  note begun = step_ok_single[OF ok _ adv[unfolded Begun]]
  show ?thesis
  proof (cases r)
    case (Deploy p)
    then show ?thesis using step_ok_deploy[OF ok conc_okD(5)[OF ok n] adv] Begun by metis
  next
    case (Rollback p v)
    then show ?thesis using step_ok_rollback[OF ok sc n adv] Begun by metis
  next
    case (Invoke p k)
    then show ?thesis using step_ok_invoke[OF ok conc_okD(5)[OF ok n] adv] Begun by metis
  qed (use begun in \<open>simp_all add: single_def\<close>)
next
  case (RollbackTo f v)
  then show ?thesis using step_ok_rollback[OF ok sc n adv] by metis
qed (use step_ok_deploy[OF ok conc_okD(5)[OF ok n] adv] step_ok_invoke[OF ok conc_okD(5)[OF ok n] adv] in metis)+

lemma conc_step_ok:
  assumes "conc_step G c c'" "pg_scans (gw_pg G)" "conc_ok c"
  shows "conc_ok c'"
  using assms(1)
proof (cases rule: conc_step.cases)
  case (arrive E r uid n)
  then show ?thesis using conc_ok_arrive[OF assms(3)] by simp
next
  case (run n E uid s s' d')
  have "step_ok c E (Inr s') d'" by (rule advance_ok[OF assms(3,2) run(2,3)])
  then show ?thesis using conc_ok_step[OF assms(3) run(2), of d' "Some s'"] run(1) by (simp add: step_ok_def)
next
  case (finish n E uid s rep d')
  have "step_ok c E (Inl rep) d'" by (rule advance_ok[OF assms(3,2) finish(2,3)])
  then show ?thesis using conc_ok_step[OF assms(3) finish(2), of d' None] finish(1) by (simp add: step_ok_def)
next
  case crash
  then show ?thesis using assms(3) by (simp add: conc_ok_def)
qed

lemma conc_reach_ok:
  "(conc_step G)\<^sup>*\<^sup>* c c' \<Longrightarrow> pg_scans (gw_pg G) \<Longrightarrow> conc_ok c \<Longrightarrow> conc_ok c'"
  by (induction rule: rtranclp_induct) (auto intro: conc_step_ok)

lemma conc_start_ok: "db_wf d \<Longrightarrow> active_ok d \<Longrightarrow> conc_ok (conc_start d)"
  by (simp add: conc_ok_def conc_start_def)

section \<open>Requests that do not overlap\<close>

text \<open>
  The stages against the handlers: a request that no other overlaps, taken through its stages, gives the
  reply and the store of its handler, so whatever \<open>serve\<close> does is a run of \<open>conc_step\<close>.
\<close>

lemma handler_is_its_steps:
  "complete G E uid (Begun r) d = route_handler G E uid r d"
proof (cases "single r")
  case True
  then show ?thesis by (simp add: complete_at(1) advance_single split: prod.split)
next
  case False
  then show ?thesis
    by (cases r) (simp_all add: single_def complete_deploy complete_rollback complete_invoke route_handler_def Let_def)
qed

lemma complete_runs:
  "cg_open c n = Some (E, uid, s) \<Longrightarrow> complete G E uid s (cg_db c) = (rep, d') \<Longrightarrow>
   (conc_step G)\<^sup>*\<^sup>* c (c\<lparr>cg_db := d', cg_open := (cg_open c)(n := None)\<rparr>)"
proof (induction "stages_left s" arbitrary: c s rule: less_induct)
  case less
  obtain res d1 where adv: "advance G E uid s (cg_db c) = (res, d1)" by fastforce
  show ?case
  proof (cases res)
    case (Inl r)
    then have "d1 = d'" using less.prems(2) adv by (simp add: complete.simps)
    then show ?thesis using conc_step.finish[OF less.prems(1) adv[unfolded Inl]] by blast
  next
    case (Inr s')
    let ?c = "c\<lparr>cg_db := d1, cg_open := (cg_open c)(n \<mapsto> (E, uid, s'))\<rparr>"
    have "conc_step G c ?c" using conc_step.run[OF less.prems(1) adv[unfolded Inr]] .
    moreover have "complete G E uid s' d1 = (rep, d')"
      using less.prems(2) adv Inr by (subst (asm) complete.simps) simp
    then have "(conc_step G)\<^sup>*\<^sup>* ?c (?c\<lparr>cg_db := d', cg_open := (cg_open ?c)(n := None)\<rparr>)"
      by (intro less.hyps[OF advance_decreases[OF adv[unfolded Inr]]]) simp_all
    ultimately show ?thesis by (simp add: converse_rtranclp_into_rtranclp)
  qed
qed

lemma serve_is_a_run:
  assumes "serve G E r (cg_db c) = (rep, d')" "cg_open c n = None" "rq_new_id E \<notin> cg_drawn c"
  shows "\<exists>c'. (conc_step G)\<^sup>*\<^sup>* c c' \<and> cg_db c' = d' \<and> cg_open c' = cg_open c"
proof (cases "\<exists>uid. admitted G E r uid")
  case True
  then obtain uid where ad: "admitted G E r uid" ..
  let ?c = "c\<lparr>cg_open := (cg_open c)(n \<mapsto> (E, uid, Begun r)), cg_drawn := insert (rq_new_id E) (cg_drawn c)\<rparr>"
  have "conc_step G c ?c" using conc_step.arrive[OF ad assms(2,3)] .
  moreover obtain rep' where "route_handler G E uid r (cg_db c) = (rep', d')"
    using assms(1) ad by (auto simp: serve_def admitted_def recovery_def split: if_splits sum.splits prod.splits reply.splits)
  then have "(conc_step G)\<^sup>*\<^sup>* ?c (?c\<lparr>cg_db := d', cg_open := (cg_open ?c)(n := None)\<rparr>)"
    by (intro complete_runs[of ?c n E uid "Begun r"]) (simp_all add: handler_is_its_steps)
  ultimately have "(conc_step G)\<^sup>*\<^sup>* c (?c\<lparr>cg_db := d', cg_open := (cg_open ?c)(n := None)\<rparr>)"
    by (rule converse_rtranclp_into_rtranclp)
  moreover have "(cg_open ?c)(n := None) = cg_open c" using assms(2) by (auto simp: fun_eq_iff)
  ultimately show ?thesis
    by (intro exI[of _ "?c\<lparr>cg_db := d', cg_open := (cg_open ?c)(n := None)\<rparr>"]) simp
next
  case False
  then have "d' = cg_db c"
    using assms(1) by (auto simp: serve_def admitted_def recovery_def split: if_splits sum.splits prod.splits reply.splits)
  then show ?thesis by (intro exI[of _ c]) simp
qed

section \<open>Properties\<close>

text \<open>
  C4.  Whatever requests overlap, however their statements are interleaved, whichever calls are lost and
  whenever the process ends in between: the constraints of the schema hold and the active version of a
  function is one of its own versions and READY.  In particular a rollback may read a version that a deletion
  removes before the rollback writes.
\<close>

theorem overlapping_requests_keep_versions_ready:
  assumes "pg_scans (gw_pg G)" "(conc_step G)\<^sup>*\<^sup>* (conc_start d0) c" "db_wf d0" "active_ok d0"
  shows "db_wf (cg_db c) \<and>
    (\<forall>r \<in> set (db_functions (cg_db c)). \<forall>v. fr_active r = Some v \<longrightarrow>
      (\<exists>x \<in> set (db_versions (cg_db c)). ver_id x = v \<and> ver_fn x = fr_id r \<and> ver_status x = st_ready))"
proof -
  have "conc_ok c" using conc_reach_ok[OF assms(2,1) conc_start_ok[OF assms(3,4)]] .
  from conc_okD(1,2)[OF this] show ?thesis by (simp add: active_ok_def)
qed

text \<open>A rollback, statement by statement.\<close>

definition rollback_read :: db where
  "rollback_read = demo_db\<lparr>db_calls := 1\<rparr>"

lemma demo_rollback_reads:
  "advance ref_gateway demo_env uid (Begun (Rollback ''1'' ''2'')) demo_db = (Inr (RollbackTo 1 (demo_version 11 2 st_ready)), rollback_read)"
  by (simp add: calm_reads sql_select_versions_of_def rows_where_def demo_db_def demo_version_def rollback_read_def)

lemma demo_rollback_writes:
  "advance ref_gateway demo_env uid (RollbackTo 1 (demo_version 11 2 st_ready)) rollback_read =
     (Inl (Reply 200 (JObj [(''function_id'', JStr ''1''), (''active_version'', JStr ''11''), (''version_number'', JInt 2)])),
      demo_db\<lparr>db_functions := [demo_function\<lparr>fr_active := Some 11, fr_updated := 1\<rparr>], db_calls := 2\<rparr>)"
  by (simp add: demo_db_def demo_version_def rollback_read_def fn_update_active_version_def calm_exec
      sql_update_active_version_def has_defs update_where_def demo_function_def uuid_json_def)

lemma demo_overlap:
  "\<exists>c. (conc_step ref_gateway)\<^sup>*\<^sup>* (conc_start demo_db) c \<and>
     cg_db c = demo_db\<lparr>db_functions := [demo_function\<lparr>fr_active := Some 11, fr_updated := 1\<rparr>], db_calls := 2\<rparr>"
proof -
  let ?G = ref_gateway and ?u = "Some (uuid_str ref_ext 7)" and ?r = "Rollback ''1'' ''2''"
  let ?c1 = "(conc_start demo_db)\<lparr>cg_open := [0 \<mapsto> (demo_env, ?u, Begun ?r)], cg_drawn := insert 13 {10, 11, 12}\<rparr>"
  let ?c2 = "?c1\<lparr>cg_db := rollback_read, cg_open := [0 \<mapsto> (demo_env, ?u, RollbackTo 1 (demo_version 11 2 st_ready))]\<rparr>"
  have "conc_step ?G (conc_start demo_db) ?c1"
    using conc_step.arrive[of ?G demo_env ?r ?u "conc_start demo_db" 0]
    by (simp add: admitted_def protected_route_def conc_start_def demo_db_def demo_version_def)
  moreover have "conc_step ?G ?c1 ?c2"
    using conc_step.run[of ?c1 0 demo_env ?u "Begun ?r" ?G] demo_rollback_reads[of ?u] by (simp add: conc_start_def)
  moreover obtain c3 where "conc_step ?G ?c2 c3"
    "cg_db c3 = demo_db\<lparr>db_functions := [demo_function\<lparr>fr_active := Some 11, fr_updated := 1\<rparr>], db_calls := 2\<rparr>"
    using conc_step.finish[of ?c2 0 demo_env ?u "RollbackTo 1 (demo_version 11 2 st_ready)" ?G] demo_rollback_writes[of ?u] by simp
  ultimately show ?thesis by (meson rtranclp.rtrancl_into_rtrancl rtranclp.rtrancl_refl)
qed

lemma overlapping_requests_keep_versions_ready_witness:
  "\<exists>c. (conc_step ref_gateway)\<^sup>*\<^sup>* (conc_start demo_db) c \<and>
     (\<exists>x \<in> set (db_versions (cg_db c)). ver_id x = 11 \<and> ver_fn x = 1 \<and> ver_status x = st_ready)"
proof -
  obtain c where c: "(conc_step ref_gateway)\<^sup>*\<^sup>* (conc_start demo_db) c"
    "cg_db c = demo_db\<lparr>db_functions := [demo_function\<lparr>fr_active := Some 11, fr_updated := 1\<rparr>], db_calls := 2\<rparr>"
    using demo_overlap by blast
  have "demo_function\<lparr>fr_active := Some 11, fr_updated := 1\<rparr> \<in> set (db_functions (cg_db c))" by (simp add: c(2))
  moreover have "fr_active (demo_function\<lparr>fr_active := Some 11, fr_updated := 1\<rparr>) = Some 11"
    "fr_id (demo_function\<lparr>fr_active := Some 11, fr_updated := 1\<rparr>) = 1" by (simp_all add: demo_function_def)
  ultimately show ?thesis
    using overlapping_requests_keep_versions_ready[OF _ c(1) demo_db_wf demo_db_active_ok] c(1) ref_scans
    by (metis ref_gateway_sel(1))
qed

end
