(* ===== verification/Numbering.thy ===== *)
theory Numbering
  imports Interleaving
begin

text \<open>
  Version numbers when requests overlap.  Two deployments may read the same latest number and then both
  write its successor; what still holds is that no number is skipped.
\<close>

section \<open>One statement\<close>

text \<open>
  What one statement of a request does to the functions and the version numbers: it creates at most the
  function whose identifier the request drew, and then the request is over (\<open>ends\<close>); the numbers of a
  function stay, or go with it, or get the successor of the number the request read.
\<close>

definition table_step :: "uuid \<Rightarrow> bool \<Rightarrow> stage \<Rightarrow> db \<Rightarrow> db \<Rightarrow> bool" where
  "table_step i ends s d d' \<longleftrightarrow>
     (\<forall>g. has_function d' g \<longrightarrow> has_function d g \<or> g = i \<and> ends) \<and>
     (\<forall>g. numbers_of d' g = numbers_of d g \<or> numbers_of d' g = [] \<and> \<not> has_function d' g \<or>
        (\<exists>n. s = DeployNumber g n \<and> has_function d g \<and> in_int32 (wrap64 (n + 1)) \<and>
           numbers_of d' g = numbers_of d g @ [wrap64 (n + 1)]))"

lemma table_step_same: "db_functions d' = db_functions d \<Longrightarrow> db_versions d' = db_versions d \<Longrightarrow> table_step i b s d d'"
  by (simp add: table_step_def has_function_def numbers_of_def)

lemma table_step_calls: "table_step i b s d (d\<lparr>db_calls := n\<rparr>)"
  by (rule table_step_same) simp_all

lemma exec_table_step:
  assumes "pg_exec P st d = (r, d')" "\<And>now e e'. st now e = Inr e' \<Longrightarrow> table_step i b s e e'"
  shows "table_step i b s d d'"
  using assms(1)
proof (cases rule: pg_exec_cases)
  case 2
  from assms(2)[OF 2] show ?thesis by (simp add: table_step_def has_function_def numbers_of_def)
qed (simp add: table_step_calls)

lemma table_step_delete: "sql_delete_function f now d = Inr d' \<Longrightarrow> table_step i b s d d'"
proof -
  assume del: "sql_delete_function f now d = Inr d'"
  have "numbers_of d' g = numbers_of d g \<or> numbers_of d' g = [] \<and> \<not> has_function d' g" for g
  proof (cases "g = f")
    case True
    with del show ?thesis
      by (auto simp: sql_delete_function_def numbers_of_def rows_where_def delete_where_def has_function_def Let_def split: if_splits)
  next
    case False
    then have eq: "filter (\<lambda>x. ver_fn x \<noteq> f \<and> ver_fn x = g) vs = filter (\<lambda>v. ver_fn v = g) vs" for vs
      by (induction vs) auto
    from del show ?thesis
      by (auto simp: eq sql_delete_function_def numbers_of_def rows_where_def delete_where_def Let_def split: if_splits)
  qed
  moreover have "has_function d' g \<Longrightarrow> has_function d g" for g
    using del by (auto simp: sql_delete_function_def delete_where_def has_function_def Let_def split: if_splits)
  ultimately show ?thesis by (auto simp: table_step_def)
qed

lemma table_step_writes:
  "sql_insert_user uid e h k now d = Inr d1 \<Longrightarrow> table_step i b s d d1"
  "sql_insert_function fn now d = Inr d2 \<Longrightarrow> fn_id fn = i \<Longrightarrow> table_step i True s d d2"
  "sql_insert_invocation iv now d = Inr d3 \<Longrightarrow> table_step i b s d d3"
  "sql_update_active_version f v now d = Inr d4 \<Longrightarrow> table_step i b s d d4"
  "sql_update_version_status v st now d = Inr d5 \<Longrightarrow> table_step i b s d d5"
  subgoal by (rule table_step_same) (auto simp: sql_insert_user_def split: if_splits)
  subgoal by (auto simp: sql_insert_function_def table_step_def has_function_def numbers_of_def split: if_splits)
  subgoal by (rule table_step_same) (auto simp: sql_insert_invocation_def split: if_splits)
  subgoal by (auto simp: sql_update_active_version_def table_step_def has_function_def numbers_of_def set_update_where split: if_splits)
  subgoal using numbers_of_status[of v st now d d5]
    by (auto simp: table_step_def has_function_def sql_update_version_status_def split: if_splits)
  done

lemma table_step_insert:
  assumes "sql_insert_version v now d = Inr d'" "ver_num v = wrap64 (n + 1)"
  shows "table_step i b (DeployNumber (ver_fn v) n) d d'"
proof -
  have "in_int32 (wrap64 (n + 1))" "has_function d (ver_fn v)" "db_functions d' = db_functions d"
    using assms by (auto simp: sql_insert_version_def split: if_splits)
  then show ?thesis using numbers_of_insert[OF assms(1)] assms(2) by (auto simp: table_step_def has_function_def)
qed

lemma single_table_step:
  assumes "single r" "route_handler G E uid r d = (rep, d')"
  shows "table_step (rq_new_id E) True s d d'"
proof -
  note exec = exec_table_step[where i = "rq_new_id E" and b = True and s = s]
  note h = assms(2)[unfolded route_handler_def Let_def]
  note same = table_step_same table_step_calls
  show ?thesis
  proof (cases r)
    case (Register x)
    then show ?thesis using h
      by (auto simp: ah_register_def Let_def same split: sum.splits prod.splits elim!: exec intro: table_step_writes(1))
  next
    case (CreateFunction x)
    then show ?thesis using h
      by (auto simp: fh_create_def fn_create_def Let_def same split: sum.splits prod.splits option.splits
          elim!: exec intro: table_step_writes(2))
  next
    case (DeleteFunction x)
    then show ?thesis using h
      by (auto simp: fh_delete_def fn_delete_def same split: sum.splits prod.splits option.splits
          elim!: exec intro: table_step_delete)
  qed (use h assms(1) in \<open>auto simp: single_def ah_login_def fh_list_def fh_get_def fh_list_versions_def ih_list_by_function_def
        ih_get_logs_def same split: sum.splits prod.splits option.splits dest!: repo_reads pg_query_row_tables\<close>)
qed

fun ends :: "reply + stage \<Rightarrow> bool" where
  "ends (Inl rep) = True"
| "ends (Inr s) = False"

text \<open>Every step of a request is such a statement, or only reads.\<close>

lemma advance_table_step:
  assumes "advance G E uid s d = (res, d')"
  shows "table_step (rq_new_id E) (ends res) s d d'"
proof -
  note exec = exec_table_step[where i = "rq_new_id E" and b = "ends res" and s = s]
  note same = table_step_same table_step_calls
  show ?thesis
  proof (cases s)
    case (Begun r)
    show ?thesis
    proof (cases "single r")
      case True
      obtain rep where "route_handler G E uid r d = (rep, d')" "res = Inl rep"
        using assms by (auto simp: Begun advance_single[OF True] split: prod.splits)
      then show ?thesis using single_table_step[OF True] by simp
    next
      case False
      then show ?thesis using assms Begun
        by (cases r) (auto simp: single_def same split: sum.splits prod.splits option.splits if_splits dest!: repo_reads)
    qed
  next
    case (DeployNumber f n)
    then obtain x where "ver_create (gw_pg G) \<lparr>ver_id = rq_new_id E, ver_fn = f, ver_num = wrap64 (n + 1), ver_image = '''',
                 ver_status = st_queued, ver_created = 0\<rparr> d = (x, d')"
      using assms by (auto simp: Let_def split: sum.splits prod.splits)
    then show ?thesis unfolding ver_create_def
      by (rule exec) (use table_step_insert DeployNumber in fastforce)
  next
    case (DeployCreated v)
    then obtain x where "ver_update_status (gw_pg G) (ver_id v) st_building d = (x, d')"
      using assms by (auto simp: Let_def split: sum.splits prod.splits)
    then show ?thesis unfolding ver_update_status_def by (rule exec) (rule table_step_writes(5))
  next
    case (RollbackTo f v)
    then obtain x where "fn_update_active_version (gw_pg G) f (ver_id v) d = (x, d')"
      using assms by (auto simp: Let_def split: sum.splits prod.splits)
    then show ?thesis unfolding fn_update_active_version_def by (rule exec) (rule table_step_writes(4))
  next
    case (InvokeNew f v k)
    then obtain i x where "inv_create (gw_pg G) i d = (x, d')"
      using assms by (auto simp: invoke_write_def Let_def split: sum.splits prod.splits)
    then show ?thesis unfolding inv_create_def by (rule exec) (rule table_step_writes(3))
  qed (use assms in \<open>auto simp: same split: sum.splits prod.splits option.splits if_splits dest!: repo_reads\<close>)
qed

section \<open>The invariant\<close>

text \<open>
  An identifier no request can create any more: it was drawn, and by no request in progress.  The functions
  there are have such identifiers, and so has the function a deployment found; the number it read is one of
  the function's, or zero, as long as the function exists.
\<close>

definition settled_id :: "conc \<Rightarrow> uuid \<Rightarrow> bool" where
  "settled_id c f \<longleftrightarrow> f \<in> cg_drawn c \<and> (\<forall>m E uid s. cg_open c m = Some (E, uid, s) \<longrightarrow> rq_new_id E \<noteq> f)"

definition gapless :: "int list \<Rightarrow> bool" where
  "gapless ns \<longleftrightarrow> (\<exists>k :: nat. set ns = {1..int k}) \<and> (\<forall>n \<in> set ns. in_int32 n)"

fun number_ok :: "conc \<Rightarrow> stage \<Rightarrow> bool" where
  "number_ok c (DeployFound f) = settled_id c f"
| "number_ok c (DeployNumber f n) = (settled_id c f \<and> (has_function (cg_db c) f \<longrightarrow> n = 0 \<or> n \<in> set (numbers_of (cg_db c) f)))"
| "number_ok c s = True"

definition numbering_ok :: "conc \<Rightarrow> bool" where
  "numbering_ok c \<longleftrightarrow> (\<forall>f. gapless (numbers_of (cg_db c) f)) \<and>
     (\<forall>f. has_function (cg_db c) f \<longrightarrow> settled_id c f) \<and>
     (\<forall>m E uid s. cg_open c m = Some (E, uid, s) \<longrightarrow> number_ok c s)"

lemma numbering_okD:
  assumes "numbering_ok c"
  shows "gapless (numbers_of (cg_db c) f)" "has_function (cg_db c) f \<Longrightarrow> settled_id c f"
    "cg_open c m = Some (E, uid, s) \<Longrightarrow> number_ok c s"
  using assms by (auto simp: numbering_ok_def)

lemma numbering_okI:
  assumes "\<And>f. gapless (numbers_of (cg_db c) f)" "\<And>f. has_function (cg_db c) f \<Longrightarrow> settled_id c f"
    and "\<And>m E uid s. cg_open c m = Some (E, uid, s) \<Longrightarrow> number_ok c s"
  shows "numbering_ok c"
  using assms by (auto simp: numbering_ok_def)

lemma gapless_Nil: "gapless []"
  unfolding gapless_def by (intro conjI exI[of _ 0]) auto

lemma gapless_next:
  assumes g: "gapless ns" and n: "n = 0 \<or> n \<in> set ns" and r: "in_int32 (wrap64 (n + 1))"
  shows "gapless (ns @ [wrap64 (n + 1)])"
proof -
  obtain k where k: "set ns = {1..int k}" using g by (auto simp: gapless_def)
  have "in_int32 n" using n g by (auto simp: gapless_def in_int32_def)
  then have w: "wrap64 (n + 1) = n + 1" by (intro wrap64_id) (simp add: in_int32_def in_int64_def)
  have n0: "0 \<le> n" "n \<le> int k" using n k by auto
  have "set (ns @ [n + 1]) = {1..int (max k (nat (n + 1)))}"
    using n0 by (auto simp: k max_def)
  then show ?thesis using g r unfolding gapless_def w by (metis (no_types, lifting) Un_iff empty_iff empty_set insertE list.set(2) set_append)
qed

lemma settled_id_open:
  assumes "settled_id c f" "cg_drawn c \<subseteq> cg_drawn c'"
    and "\<And>m E uid s. cg_open c' m = Some (E, uid, s) \<Longrightarrow> rq_new_id E \<notin> cg_drawn c \<or> (\<exists>uid' s'. cg_open c m = Some (E, uid', s'))"
  shows "settled_id c' f"
  using assms unfolding settled_id_def by blast

lemma number_ok_open:
  assumes "number_ok c s" "cg_db c' = cg_db c" "\<And>f. settled_id c f \<Longrightarrow> settled_id c' f"
  shows "number_ok c' s"
  using assms by (cases s) auto

lemma latest_number:
  assumes "ver_latest_number P f d = (Inr n, d')"
  shows "n = 0 \<or> n \<in> set (numbers_of d f)"
proof (cases "numbers_of d f = []")
  case True
  then show ?thesis using ver_latest_numberD[OF assms] by (simp add: sql_max_version_def numbers_of_def Let_def)
next
  case False
  then have "Max (set (numbers_of d f)) \<in> set (numbers_of d f)" by (intro Max_in) auto
  moreover have "n = Max (set (numbers_of d f))"
    using ver_latest_numberD[OF assms] False by (simp add: sql_max_version_def numbers_of_def[symmetric] Let_def)
  ultimately show ?thesis by simp
qed

text \<open>The stage a request steps to is accounted for.\<close>

lemma next_number_ok:
  assumes ok: "numbering_ok c" and n: "cg_open c m = Some (E, uid, s)" and adv: "advance G E uid s (cg_db c) = (Inr s', d')"
  shows "number_ok (c\<lparr>cg_db := d'\<rparr>) s'"
proof -
  have idem: "settled_id (c\<lparr>cg_db := d'\<rparr>) f = settled_id c f" for f by (simp add: settled_id_def)
  consider p where "s = Begun (Deploy p)" | f where "s = DeployFound f"
    | "\<forall>f. s' \<noteq> DeployFound f" "\<forall>f k. s' \<noteq> DeployNumber f k"
  proof (cases s)
    case (Begun r)
    then show thesis using adv that by (cases r) (auto split: sum.splits prod.splits option.splits if_splits)
  qed (use adv that in \<open>auto simp: Let_def split: sum.splits prod.splits option.splits if_splits\<close>)
  then show ?thesis
  proof cases
    case (1 p)
    then obtain f fn where f: "fn_get_by_id (gw_pg G) f (cg_db c) = (Inr fn, d')" "s' = DeployFound f"
      using adv by (auto split: sum.splits prod.splits option.splits)
    then have "has_function (cg_db c) f" using fn_get_by_idD[OF f(1)] by (auto simp: has_function_def)
    then show ?thesis using numbering_okD(2)[OF ok] f(2) idem by simp
  next
    case (2 f)
    then obtain k where k: "ver_latest_number (gw_pg G) f (cg_db c) = (Inr k, d')" "s' = DeployNumber f k"
      using adv by (auto split: sum.splits prod.splits)
    have "numbers_of d' f = numbers_of (cg_db c) f" using repo_reads(5)[OF k(1)] by (simp add: numbers_of_def)
    then show ?thesis using latest_number[OF k(1)] numbering_okD(3)[OF ok n] 2 k(2) idem by simp
  next
    case 3
    then show ?thesis by (cases s') auto
  qed
qed

lemma numbering_ok_advance:
  assumes ok: "conc_ok c" "numbering_ok c" and n: "cg_open c n = Some (E, uid, s)" and adv: "advance G E uid s (cg_db c) = (res, d')"
    and c': "c' = c\<lparr>cg_db := d', cg_open := (cg_open c)(n := (case res of Inl rep \<Rightarrow> None | Inr s' \<Rightarrow> Some (E, uid, s')))\<rparr>"
  shows "numbering_ok c'"
proof -
  note T = advance_table_step[OF adv, unfolded table_step_def]
  have env: "\<exists>t. cg_open c m = Some (F, vid, t) \<and> (m \<noteq> n \<longrightarrow> t = s')" if "cg_open c' m = Some (F, vid, s')" for m F vid s'
    using that n by (auto simp: c' split: if_splits sum.splits)
  have drawn: "cg_drawn c' = cg_drawn c" by (simp add: c')
  have keep: "settled_id c' f" if "settled_id c f" for f
    by (rule settled_id_open[OF that]) (use env drawn in blast)+
  have cases_T: "numbers_of d' f = numbers_of (cg_db c) f \<or> numbers_of d' f = [] \<and> \<not> has_function d' f \<or>
     (\<exists>k. s = DeployNumber f k \<and> has_function (cg_db c) f \<and> in_int32 (wrap64 (k + 1)) \<and>
        numbers_of d' f = numbers_of (cg_db c) f @ [wrap64 (k + 1)])" for f
    using T by blast
  show ?thesis
  proof (rule numbering_okI)
    fix f
    show "gapless (numbers_of (cg_db c') f)"
      using cases_T[of f] numbering_okD(1)[OF ok(2), of f] numbering_okD(3)[OF ok(2) n]
      by (auto simp: c' gapless_Nil intro: gapless_next)
  next
    fix f assume "has_function (cg_db c') f"
    then have "has_function (cg_db c) f \<or> f = rq_new_id E \<and> ends res" using T by (simp add: c')
    then show "settled_id c' f"
    proof
      assume f: "f = rq_new_id E \<and> ends res"
      then have "cg_open c' = (cg_open c)(n := None)" by (cases res) (simp_all add: c')
      then have "rq_new_id F \<noteq> rq_new_id E" if "cg_open c' m = Some (F, vid, t)" for m F vid t
        using that conc_okD(6)[OF ok(1) _ n] by (auto split: if_splits)
      then show ?thesis using f conc_okD(4)[OF ok(1) n] by (auto simp: settled_id_def c')
    qed (use numbering_okD(2)[OF ok(2)] keep in blast)
  next
    fix m F vid t assume m: "cg_open c' m = Some (F, vid, t)"
    show "number_ok c' t"
    proof (cases "m = n")
      case True
      then have r: "res = Inr t" "E = F" using m by (auto simp: c' split: sum.splits)
      have "number_ok (c\<lparr>cg_db := d'\<rparr>) t" by (rule next_number_ok[OF ok(2) n adv[unfolded r(1)]])
      then show ?thesis
        by (rule number_ok_open) (use keep in \<open>auto simp: c' settled_id_def\<close>)
    next
      case False
      then have "number_ok c t" using env[OF m] numbering_okD(3)[OF ok(2)] by metis
      then show ?thesis
      proof (cases t)
        case (DeployNumber f k)
        then have s: "settled_id c f" "has_function (cg_db c) f \<longrightarrow> k = 0 \<or> k \<in> set (numbers_of (cg_db c) f)"
          using \<open>number_ok c t\<close> by auto
        have "k = 0 \<or> k \<in> set (numbers_of d' f)" if "has_function d' f"
        proof -
          have "f \<noteq> rq_new_id E" using s(1) n by (auto simp: settled_id_def)
          then have "has_function (cg_db c) f" using T that by blast
          then show ?thesis using s(2) cases_T[of f] that by auto
        qed
        then show ?thesis using keep[OF s(1)] DeployNumber by (simp add: c')
      qed (use keep in simp_all)
    qed
  qed
qed

lemma numbering_ok_step:
  assumes "conc_step G c c'" "conc_ok c" "numbering_ok c"
  shows "numbering_ok c'"
  using assms(1)
proof (cases rule: conc_step.cases)
  case (arrive E r uid n)
  have keep: "settled_id c' f" if "settled_id c f" for f
    by (rule settled_id_open[OF that]) (use arrive in \<open>auto split: if_splits\<close>)
  show ?thesis
  proof (rule numbering_okI)
    show "number_ok c' s" if "cg_open c' m = Some (F, vid, s)" for m F vid s
    proof (cases "m = n")
      case False
      then have "number_ok c s" using that numbering_okD(3)[OF assms(3)] arrive(1) by auto
      then show ?thesis by (rule number_ok_open) (use keep arrive(1) in auto)
    qed (use that arrive(1) in auto)
  qed (use numbering_okD(1,2)[OF assms(3)] keep arrive(1) in auto)
next
  case (run n E uid s s' d')
  then show ?thesis by (intro numbering_ok_advance[OF assms(2,3) run(2,3)]) simp
next
  case (finish n E uid s rep d')
  then show ?thesis by (intro numbering_ok_advance[OF assms(2,3) finish(2,3)]) simp
next
  case crash
  then show ?thesis using assms(3) by (auto simp: numbering_ok_def settled_id_def)
qed

lemma numbering_ok_reach:
  "(conc_step G)\<^sup>*\<^sup>* c c' \<Longrightarrow> pg_scans (gw_pg G) \<Longrightarrow> conc_ok c \<Longrightarrow> numbering_ok c \<Longrightarrow> conc_ok c' \<and> numbering_ok c'"
  by (induction rule: rtranclp_induct) (auto intro: conc_step_ok numbering_ok_step)

section \<open>Properties\<close>

text \<open>A gateway that begins to serve: every identifier of a version or a function counts as drawn.\<close>

definition numbered_start :: "db \<Rightarrow> conc" where
  "numbered_start d = (conc_start d)\<lparr>cg_drawn := ver_id ` set (db_versions d) \<union> fr_id ` set (db_functions d)\<rparr>"

lemma numbered_start_ok: "db_wf d \<Longrightarrow> active_ok d \<Longrightarrow> numbered d \<Longrightarrow> conc_ok (numbered_start d) \<and> numbering_ok (numbered_start d)"
proof
  assume a: "db_wf d" "active_ok d" "numbered d"
  show "conc_ok (numbered_start d)" using a by (auto simp: conc_ok_def numbered_start_def conc_start_def)
  have "gapless (numbers_of d f)" for f
  proof -
    have "numbers_of d f = [1..int (length (numbers_of d f))]" using a(3) by (simp add: numbered_def)
    moreover have "in_int32 n" if n: "n \<in> set (numbers_of d f)" for n
    proof -
      obtain v where "v \<in> set (db_versions d)" "n = ver_num v" using n by (auto simp: numbers_of_def rows_where_def)
      then show ?thesis using a(3) by (simp add: numbered_def)
    qed
    ultimately show ?thesis unfolding gapless_def by (metis set_upto)
  qed
  then show "numbering_ok (numbered_start d)"
    by (auto simp: numbering_ok_def numbered_start_def conc_start_def settled_id_def has_function_def)
qed

lemma gapless_card: "gapless ns \<Longrightarrow> set ns = {1..int (card (set ns))}"
  by (auto simp: gapless_def)

text \<open>
  C15.  Deployments that overlap skip no number.  However the statements of any requests are interleaved,
  whichever calls are lost and whenever the process ends: the numbers of the versions of a function are
  1 to some k, each at least once.  A number may occur twice, because two deployments may read the same
  latest number, but a function deleted in between leaves no deployment behind that numbers on.
\<close>

theorem overlapping_deployments_skip_no_number:
  assumes "pg_scans (gw_pg G)" "(conc_step G)\<^sup>*\<^sup>* (numbered_start d0) c" "db_wf d0" "active_ok d0" "numbered d0"
  shows "set (numbers_of (cg_db c) f) = {1..int (card (set (numbers_of (cg_db c) f)))}"
proof -
  have "numbering_ok c" using numbering_ok_reach[OF assms(2,1)] numbered_start_ok[OF assms(3-5)] by blast
  then show ?thesis by (intro gapless_card numbering_okD(1))
qed

theorem overlapping_deployments_skip_no_number_witness:
  "set (numbers_of (snd (serve ref_gateway demo_env (Deploy ''1'') demo_db)) 1) =
     {1..int (card (set (numbers_of (snd (serve ref_gateway demo_env (Deploy ''1'') demo_db)) 1)))}"
proof -
  let ?c = "numbered_start demo_db"
  have "cg_db ?c = demo_db" "cg_open ?c 0 = None" "rq_new_id demo_env \<notin> cg_drawn ?c"
    by (simp_all add: numbered_start_def conc_start_def) (simp add: demo_db_def demo_version_def demo_function_def)
  then obtain c' where c': "(conc_step ref_gateway)\<^sup>*\<^sup>* ?c c'" "cg_db c' = snd (serve ref_gateway demo_env (Deploy ''1'') demo_db)"
    using serve_is_a_run[of ref_gateway demo_env "Deploy ''1''" ?c _ _ 0] by (metis prod.collapse)
  have "pg_scans (gw_pg ref_gateway)" by (simp add: ref_scans)
  from overlapping_deployments_skip_no_number[OF this c'(1) demo_db_wf demo_db_active_ok demo_db_numbered, of 1]
  show ?thesis by (simp only: c'(2))
qed

end
