(* ===== verification/Jobs.thy ===== *)
theory Jobs
  imports Json "HOL-Library.Monad_Syntax"
begin

text \<open>
  The messages of \<open>internal/queue/types.go\<close> and of \<open>internal/worker/service.go\<close>: jobs, results and
  heartbeats, the JSON text each is stored as, and the methods of \<open>WorkerHeartbeat\<close>.  A Go struct is
  a record; \<open>*_json\<close> is what \<open>json.Marshal\<close> writes (\<open>None\<close> where it returns an error) and
  \<open>unmarshal_*\<close> is \<open>json.Unmarshal\<close> into a zero value.
\<close>

section \<open>Jobs\<close>

record job =
  job_id :: uuid
  job_inv :: string
  job_fn :: string
  job_ver :: string
  job_image :: string
  job_entry :: string
  job_payload :: jmap
  job_memory :: int
  job_cpu :: int
  job_timeout :: int
  job_retries :: int
  job_max_retries :: int
  job_key :: string
  job_worker :: string
  job_created :: int

definition zero_job :: job where
  "zero_job = \<lparr>job_id = uuid_nil, job_inv = '''', job_fn = '''', job_ver = '''', job_image = '''', job_entry = '''',
     job_payload = None, job_memory = 0, job_cpu = 0, job_timeout = 0, job_retries = 0, job_max_retries = 0,
     job_key = '''', job_worker = '''', job_created = 0\<rparr>"

definition job_json :: "ext \<Rightarrow> job \<Rightarrow> json option" where
  "job_json X j = (if \<not> json_year (job_created j) then None else Some (JObj
     ([(''id'', JStr (uuid_str X (job_id j))), (''invocation_id'', JStr (job_inv j)),
       (''function_id'', JStr (job_fn j)), (''version_id'', JStr (job_ver j)),
       (''image_uri'', JStr (job_image j)), (''entrypoint'', JStr (job_entry j)),
       (''payload'', enc_map (job_payload j)), (''memory_limit_mb'', JInt (job_memory j)),
       (''cpu_limit_millicores'', JInt (job_cpu j)), (''timeout_seconds'', JInt (job_timeout j)),
       (''retry_count'', JInt (job_retries j)), (''max_retries'', JInt (job_max_retries j))]
      @ omit_empty_str ''idempotency_key'' (job_key j) @ omit_empty_str ''worker_id'' (job_worker j)
      @ [(''created_at'', JStr (time_str X (job_created j)))])))"

definition unmarshal_job :: "ext \<Rightarrow> jtext \<Rightarrow> job option" where
  "unmarshal_job X t = do {
     kvs \<leftarrow> unmarshal_object t;
     i \<leftarrow> dec_field ''id'' (dec_uuid X) kvs uuid_nil;
     inv \<leftarrow> dec_field ''invocation_id'' dec_string kvs '''';
     fn \<leftarrow> dec_field ''function_id'' dec_string kvs '''';
     ver \<leftarrow> dec_field ''version_id'' dec_string kvs '''';
     img \<leftarrow> dec_field ''image_uri'' dec_string kvs '''';
     ent \<leftarrow> dec_field ''entrypoint'' dec_string kvs '''';
     pay \<leftarrow> dec_field ''payload'' dec_map kvs None;
     mem \<leftarrow> dec_field ''memory_limit_mb'' dec_int kvs 0;
     cpu \<leftarrow> dec_field ''cpu_limit_millicores'' dec_int kvs 0;
     tmo \<leftarrow> dec_field ''timeout_seconds'' dec_int kvs 0;
     ret \<leftarrow> dec_field ''retry_count'' dec_int kvs 0;
     mx \<leftarrow> dec_field ''max_retries'' dec_int kvs 0;
     key \<leftarrow> dec_field ''idempotency_key'' dec_string kvs '''';
     wrk \<leftarrow> dec_field ''worker_id'' dec_string kvs '''';
     cre \<leftarrow> dec_field ''created_at'' (dec_time X) kvs 0;
     Some \<lparr>job_id = i, job_inv = inv, job_fn = fn, job_ver = ver, job_image = img, job_entry = ent,
       job_payload = pay, job_memory = mem, job_cpu = cpu, job_timeout = tmo, job_retries = ret,
       job_max_retries = mx, job_key = key, job_worker = wrk, job_created = cre\<rparr>}"

text \<open>A job the Go type can hold, with a payload whose numbers are \<open>float64\<close> values.\<close>

definition job_ok :: "job \<Rightarrow> bool" where
  "job_ok j \<longleftrightarrow> in_int64 (job_memory j) \<and> in_int64 (job_cpu j) \<and> in_int64 (job_timeout j) \<and>
     in_int64 (job_retries j) \<and> in_int64 (job_max_retries j) \<and> jmap_stable (job_payload j) \<and>
     json_year (job_created j)"

text \<open>\<open>QueuedJob\<close>: a job with the identifier of its stream entry and the consumer that claimed it.\<close>

record queued_job =
  qj_id :: string
  qj_job :: job
  qj_claim :: string

section \<open>Results\<close>

record job_result =
  jr_inv :: string
  jr_fn :: string
  jr_ver :: string
  jr_status :: string
  jr_exit :: int
  jr_duration :: int
  jr_stdout :: string
  jr_stderr :: string
  jr_worker :: string
  jr_error :: string
  jr_msg :: string
  jr_time :: int

definition result_json :: "ext \<Rightarrow> job_result \<Rightarrow> json option" where
  "result_json X r = (if \<not> json_year (jr_time r) then None else Some (JObj
     ([(''invocation_id'', JStr (jr_inv r)), (''function_id'', JStr (jr_fn r)), (''version_id'', JStr (jr_ver r)),
       (''status'', JStr (jr_status r)), (''exit_code'', JInt (jr_exit r)), (''duration_ms'', JInt (jr_duration r)),
       (''stdout'', JStr (jr_stdout r)), (''stderr'', JStr (jr_stderr r)), (''worker_id'', JStr (jr_worker r))]
      @ omit_empty_str ''error'' (jr_error r) @ [(''timestamp'', JStr (time_str X (jr_time r)))])))"

definition unmarshal_result :: "ext \<Rightarrow> jtext \<Rightarrow> job_result option" where
  "unmarshal_result X t = do {
     kvs \<leftarrow> unmarshal_object t;
     inv \<leftarrow> dec_field ''invocation_id'' dec_string kvs '''';
     fn \<leftarrow> dec_field ''function_id'' dec_string kvs '''';
     ver \<leftarrow> dec_field ''version_id'' dec_string kvs '''';
     st \<leftarrow> dec_field ''status'' dec_string kvs '''';
     ex \<leftarrow> dec_field ''exit_code'' dec_int kvs 0;
     du \<leftarrow> dec_field ''duration_ms'' dec_int kvs 0;
     so \<leftarrow> dec_field ''stdout'' dec_string kvs '''';
     se \<leftarrow> dec_field ''stderr'' dec_string kvs '''';
     wk \<leftarrow> dec_field ''worker_id'' dec_string kvs '''';
     er \<leftarrow> dec_field ''error'' dec_string kvs '''';
     ts \<leftarrow> dec_field ''timestamp'' (dec_time X) kvs 0;
     Some \<lparr>jr_inv = inv, jr_fn = fn, jr_ver = ver, jr_status = st, jr_exit = ex, jr_duration = du,
       jr_stdout = so, jr_stderr = se, jr_worker = wk, jr_error = er, jr_msg = '''', jr_time = ts\<rparr>}"

section \<open>Heartbeats\<close>

record heartbeat =
  hb_id :: string
  hb_host :: string
  hb_cpu :: f64
  hb_mem :: f64
  hb_running :: int
  hb_avail :: int
  hb_total :: int
  hb_time :: int

definition calculate_load :: "heartbeat \<Rightarrow> f64" where
  "calculate_load h =
     (if hb_avail h \<le> 0 then Fin 1
      else let task_load = f64_div_fin (f64_of_int (hb_running h)) (f64_of_int (hb_avail h))
           in f64_add (f64_mul (Fin (1 / 2)) (hb_cpu h)) (f64_mul (Fin (1 / 2)) task_load))"

text \<open>
  \<open>MarshalJSON\<close>: the fields of the embedded \<open>alias\<close> and the load.  A value that is not finite is an
  error.
\<close>

definition heartbeat_json :: "heartbeat \<Rightarrow> json option" where
  "heartbeat_json h = do {
     c \<leftarrow> enc_f64 (hb_cpu h);
     m \<leftarrow> enc_f64 (hb_mem h);
     l \<leftarrow> enc_f64 (calculate_load h);
     Some (JObj [(''worker_id'', JStr (hb_id h)), (''hostname'', JStr (hb_host h)), (''cpu_usage'', c),
       (''memory_usage'', m), (''running_tasks'', JInt (hb_running h)),
       (''available_slots'', JInt (hb_avail h)), (''total_slots'', JInt (hb_total h)),
       (''timestamp'', JInt (hb_time h)), (''load_score'', l)])}"

definition unmarshal_heartbeat :: "jtext \<Rightarrow> heartbeat option" where
  "unmarshal_heartbeat t = do {
     kvs \<leftarrow> unmarshal_object t;
     w \<leftarrow> dec_field ''worker_id'' dec_string kvs '''';
     h \<leftarrow> dec_field ''hostname'' dec_string kvs '''';
     c \<leftarrow> dec_field ''cpu_usage'' dec_f64 kvs (Fin 0);
     m \<leftarrow> dec_field ''memory_usage'' dec_f64 kvs (Fin 0);
     r \<leftarrow> dec_field ''running_tasks'' dec_int kvs 0;
     a \<leftarrow> dec_field ''available_slots'' dec_int kvs 0;
     n \<leftarrow> dec_field ''total_slots'' dec_int kvs 0;
     ts \<leftarrow> dec_field ''timestamp'' dec_int kvs 0;
     Some \<lparr>hb_id = w, hb_host = h, hb_cpu = c, hb_mem = m, hb_running = r, hb_avail = a, hb_total = n,
       hb_time = ts\<rparr>}"

text \<open>\<open>Validate\<close>: the error, if any.\<close>

definition validate_heartbeat :: "heartbeat \<Rightarrow> string option" where
  "validate_heartbeat h =
     (if hb_id h = '''' then Some ''worker_id required''
      else if hb_avail h < 0 then Some ''available_slots must be non-negative''
      else None)"

definition is_healthy :: "heartbeat \<Rightarrow> int \<Rightarrow> bool" where
  "is_healthy h now \<longleftrightarrow> time_sub now (time_unix (hb_time h)) \<le> 15 * second"

section \<open>Decoding what was encoded\<close>

lemma fold_tags [simp]:
  "fold_key ''id'' = ''id''" "fold_key ''invocation_id'' = ''invocation_id''"
  "fold_key ''function_id'' = ''function_id''" "fold_key ''version_id'' = ''version_id''"
  "fold_key ''image_uri'' = ''image_uri''" "fold_key ''entrypoint'' = ''entrypoint''"
  "fold_key ''payload'' = ''payload''" "fold_key ''memory_limit_mb'' = ''memory_limit_mb''"
  "fold_key ''cpu_limit_millicores'' = ''cpu_limit_millicores''"
  "fold_key ''timeout_seconds'' = ''timeout_seconds''" "fold_key ''retry_count'' = ''retry_count''"
  "fold_key ''max_retries'' = ''max_retries''" "fold_key ''idempotency_key'' = ''idempotency_key''"
  "fold_key ''worker_id'' = ''worker_id''" "fold_key ''created_at'' = ''created_at''"
  "fold_key ''status'' = ''status''" "fold_key ''exit_code'' = ''exit_code''"
  "fold_key ''duration_ms'' = ''duration_ms''" "fold_key ''stdout'' = ''stdout''"
  "fold_key ''stderr'' = ''stderr''" "fold_key ''error'' = ''error''"
  "fold_key ''timestamp'' = ''timestamp''" "fold_key ''hostname'' = ''hostname''"
  "fold_key ''cpu_usage'' = ''cpu_usage''" "fold_key ''memory_usage'' = ''memory_usage''"
  "fold_key ''running_tasks'' = ''running_tasks''" "fold_key ''available_slots'' = ''available_slots''"
  "fold_key ''total_slots'' = ''total_slots''" "fold_key ''load_score'' = ''load_score''"
  "fold_key ''result'' = ''result''"
  by code_simp+

lemma dec_field_append:
  "dec_field tag d (xs @ ys) cur =
     (case dec_field tag d xs cur of None \<Rightarrow> None | Some c \<Rightarrow> dec_field tag d ys c)"
  by (induction tag d xs cur rule: dec_field.induct) (auto split: option.splits)

lemma dec_field_omit_same [simp]: "dec_field t dec_string (omit_empty_str t s) '''' = Some s"
  by (simp add: omit_empty_str_def)

lemma dec_field_omit_other [simp]: "fold_key t' \<noteq> fold_key t \<Longrightarrow> dec_field t d (omit_empty_str t' s) c = Some c"
  by (simp add: omit_empty_str_def)

text \<open>A float64 that is a value of the type and finite.\<close>

definition f64_ok :: "f64 \<Rightarrow> bool" where
  "f64_ok x = (case x of Fin r \<Rightarrow> rnd r = r \<and> \<bar>r\<bar> < 2 ^ 1024 | _ \<Rightarrow> False)"

lemma enc_dec_f64: "f64_ok x \<Longrightarrow> \<exists>j. enc_f64 x = Some j \<and> dec_f64 j cur = Some x"
  by (cases x) (auto simp: f64_ok_def enc_f64_def dec_f64_enc_number)

definition heartbeat_ok :: "heartbeat \<Rightarrow> bool" where
  "heartbeat_ok h \<longleftrightarrow> f64_ok (hb_cpu h) \<and> f64_ok (hb_mem h) \<and> is_fin (calculate_load h) \<and>
     in_int64 (hb_running h) \<and> in_int64 (hb_avail h) \<and> in_int64 (hb_total h) \<and> in_int64 (hb_time h)"

lemma job_json_decodes:
  assumes "ext_codec X" "job_ok j" "job_json X j = Some js"
  shows "unmarshal_job X (JsonText js) = Some j"
  using assms(2,3) ext_codec.uuid_rt[OF assms(1)] ext_codec.time_rt[OF assms(1)]
  by (cases j) (auto simp: job_json_def unmarshal_job_def job_ok_def dec_field_append dec_map_enc_map)

lemma result_json_decodes:
  assumes "ext_codec X" "in_int64 (jr_exit r)" "in_int64 (jr_duration r)" "result_json X r = Some js"
  shows "unmarshal_result X (JsonText js) = Some (r\<lparr>jr_msg := ''''\<rparr>)"
  using assms(2-4) ext_codec.time_rt[OF assms(1)]
  by (cases r) (auto simp: result_json_def unmarshal_result_def dec_field_append split: if_splits)

lemma heartbeat_json_decodes:
  assumes "heartbeat_ok h"
  shows "\<exists>js. heartbeat_json h = Some js \<and> unmarshal_heartbeat (JsonText js) = Some h"
proof -
  obtain c where c: "enc_f64 (hb_cpu h) = Some c" "dec_f64 c (Fin 0) = Some (hb_cpu h)"
    using assms enc_dec_f64 by (auto simp: heartbeat_ok_def)
  obtain m where m: "enc_f64 (hb_mem h) = Some m" "dec_f64 m (Fin 0) = Some (hb_mem h)"
    using assms enc_dec_f64 by (auto simp: heartbeat_ok_def)
  obtain l where l: "enc_f64 (calculate_load h) = Some l"
    using assms by (cases "calculate_load h") (auto simp: heartbeat_ok_def enc_f64_def)
  show ?thesis
    using assms by (simp add: heartbeat_json_def unmarshal_heartbeat_def heartbeat_ok_def c m l)
qed

section \<open>The load of a worker\<close>

text \<open>The load of a worker with free slots, with the rounding of every operation.\<close>

definition load_value :: "rat \<Rightarrow> int \<Rightarrow> int \<Rightarrow> rat" where
  "load_value c r a = rnd (rnd (1 / 2 * c) + rnd (1 / 2 * rnd (of_int r / of_int a)))"

lemma load_value_mono: "0 < a \<Longrightarrow> c \<le> c' \<Longrightarrow> r \<le> r' \<Longrightarrow> load_value c r a \<le> load_value c' r' a"
  unfolding load_value_def by (intro f64.mono add_mono mult_left_mono divide_right_mono) auto

lemma load_value_nonneg: "0 < a \<Longrightarrow> 0 \<le> c \<Longrightarrow> 0 \<le> r \<Longrightarrow> 0 \<le> load_value c r a"
  unfolding load_value_def by (intro f64.nonneg add_nonneg_nonneg mult_nonneg_nonneg divide_nonneg_nonneg) auto

lemma load_value_le_1:
  assumes "0 < a" "c \<le> 1" "r \<le> a" shows "load_value c r a \<le> 1"
proof -
  have "rnd (1 / 2 * c) \<le> 1 / 2" using assms f64.mono[of "1 / 2 * c" "1 / 2"] f64.exact_half by simp
  moreover have "rnd (of_int r / of_int a) \<le> 1"
    using assms f64.le_int[of 1 "of_int r / of_int a"] by (simp add: divide_le_eq)
  then have "rnd (1 / 2 * rnd (of_int r / of_int a)) \<le> 1 / 2"
    using f64.mono[of "1 / 2 * rnd (of_int r / of_int a)" "1 / 2"] f64.exact_half by simp
  ultimately show ?thesis unfolding load_value_def using f64.le_int[of 1] by simp
qed

lemma rnd_abs_le: "0 \<le> n \<Longrightarrow> n \<le> 2 ^ 53 \<Longrightarrow> \<bar>x\<bar> \<le> of_int n \<Longrightarrow> \<bar>rnd x\<bar> \<le> of_int n"
  using f64.le_int[of n x] f64.ge_int[of "- n" x] by (simp add: abs_le_iff)

lemma calculate_load_value:
  assumes "hb_cpu h = Fin c" "\<bar>c\<bar> \<le> 2 ^ 52" "\<bar>hb_running h\<bar> \<le> 2 ^ 52" "0 < hb_avail h" "hb_avail h \<le> 2 ^ 52"
  shows "calculate_load h = Fin (load_value c (hb_running h) (hb_avail h))"
proof -
  let ?q = "of_int (hb_running h) / of_int (hb_avail h) :: rat"
  have "\<bar>?q\<bar> \<le> \<bar>of_int (hb_running h)\<bar>"
    using assms(4) by (simp add: abs_divide divide_le_eq mult_le_cancel_left1)
  also have "\<dots> \<le> of_int (2 ^ 52)" using assms(3) by (metis of_int_abs of_int_le_iff)
  finally have q: "\<bar>?q\<bar> \<le> of_int (2 ^ 52)" .
  then have rq: "\<bar>rnd ?q\<bar> \<le> of_int (2 ^ 52)" by (intro rnd_abs_le) auto
  have h: "\<bar>1 / 2 * x\<bar> \<le> of_int (2 ^ 51)" if "\<bar>x\<bar> \<le> of_int (2 ^ 52)" for x :: rat
    using that by (simp add: abs_mult)
  have c: "\<bar>1 / 2 * c\<bar> \<le> of_int (2 ^ 51)" using assms(2) by (intro h) simp
  have t: "\<bar>1 / 2 * rnd ?q\<bar> \<le> of_int (2 ^ 51)" by (rule h[OF rq])
  have "\<bar>rnd (1 / 2 * c)\<bar> \<le> of_int (2 ^ 51)" "\<bar>rnd (1 / 2 * rnd ?q)\<bar> \<le> of_int (2 ^ 51)"
    using c t by (intro rnd_abs_le; simp)+
  then have s: "\<bar>rnd (1 / 2 * c) + rnd (1 / 2 * rnd ?q)\<bar> \<le> 2 ^ 53" by simp
  show ?thesis
    using assms q c t s
    by (simp add: calculate_load_def load_value_def Let_def f64_of_rat_small)
qed

lemma f64_of_rat_not_NaN [simp]: "f64_of_rat x \<noteq> NaN"
  by (simp add: f64_of_rat_def Let_def)

lemma rnd_abs_pow2: "\<bar>x\<bar> \<le> 2 ^ k \<Longrightarrow> \<bar>rnd x\<bar> \<le> 2 ^ k"
  using f64.mono[of x "2 ^ k"] f64.mono[of "- (2 ^ k)" x] f64.exact[of 1 "int k"] rnd_minus[of "2 ^ k"]
  by (simp add: abs_le_iff)

lemma f64_of_rat_pow2: "\<bar>x\<bar> \<le> 2 ^ k \<Longrightarrow> k < 1024 \<Longrightarrow> f64_of_rat x = Fin (rnd x)"
proof -
  assume x: "\<bar>x\<bar> \<le> 2 ^ k" and k: "k < 1024"
  have "\<bar>rnd x\<bar> \<le> 2 ^ k" using x by (rule rnd_abs_pow2)
  also have "(2::rat) ^ k < 2 ^ 1024" using k by (intro power_strict_increasing) auto
  finally show ?thesis by (simp add: f64_of_rat_def Let_def abs_less_iff)
qed

text \<open>A finite processor usage never gives a NaN, so loads can always be compared.\<close>

lemma calculate_load_not_NaN:
  assumes "hb_cpu h = Fin c" "in_int64 (hb_running h)" "in_int64 (hb_avail h)"
  shows "calculate_load h \<noteq> NaN"
proof (cases "0 < hb_avail h")
  case True
  have i: "\<bar>of_int n :: rat\<bar> \<le> 2 ^ 63" if "in_int64 n" for n
  proof -
    have "\<bar>n\<bar> \<le> 2 ^ 63" using that by (auto simp: in_int64_def abs_le_iff)
    then have "of_int \<bar>n\<bar> \<le> (of_int (2 ^ 63) :: rat)" by (rule of_int_le_iff[THEN iffD2])
    then show ?thesis by simp
  qed
  have r: "f64_of_int (hb_running h) = Fin (rnd (of_int (hb_running h)))"
    and a: "f64_of_int (hb_avail h) = Fin (rnd (of_int (hb_avail h)))"
    unfolding f64_of_int_def by (rule f64_of_rat_pow2[of _ 63]; use i assms in simp)+
  have ra: "\<bar>rnd (of_int (hb_running h))\<bar> \<le> 2 ^ 63" by (rule rnd_abs_pow2[OF i[OF assms(2)]])
  have a1: "1 \<le> rnd (of_int (hb_avail h))" using True f64.ge_int[of 1 "of_int (hb_avail h)"] by simp
  let ?q = "rnd (of_int (hb_running h)) / rnd (of_int (hb_avail h))"
  have "\<bar>?q\<bar> \<le> \<bar>rnd (of_int (hb_running h))\<bar>"
    using a1 by (simp add: abs_divide divide_le_eq mult_le_cancel_left1)
  then have q: "\<bar>?q\<bar> \<le> 2 ^ 63" using ra by linarith
  then have rq: "\<bar>rnd ?q\<bar> \<le> 2 ^ 63" by (rule rnd_abs_pow2)
  then have "\<bar>1 / 2 * rnd ?q\<bar> \<le> 2 ^ 63" by (simp add: abs_mult)
  then have t: "f64_mul (Fin (1 / 2)) (f64_div_fin (f64_of_int (hb_running h)) (f64_of_int (hb_avail h))) =
      Fin (rnd (1 / 2 * rnd ?q))"
    using q a1 by (simp add: r a f64_of_rat_pow2[of _ 63])
  have "f64_mul (Fin (1 / 2)) (hb_cpu h) \<noteq> NaN" by (simp add: assms(1))
  then show ?thesis
    using True by (cases "f64_mul (Fin (1 / 2)) (hb_cpu h)") (simp_all add: calculate_load_def Let_def t)
qed (simp add: calculate_load_def)

section \<open>Properties\<close>

text \<open>
  C25. A job written to a stream is read back unchanged: every job with a creation time a JSON text can
  carry encodes, and decoding the text gives the same job, the optional fields included.
\<close>

theorem job_roundtrip:
  assumes "ext_codec X" "job_ok j"
  shows "\<exists>js. job_json X j = Some js \<and> unmarshal_job X (JsonText js) = Some j"
  using assms job_json_decodes[OF assms] by (simp add: job_json_def job_ok_def)

definition demo_job :: job where
  "demo_job = zero_job\<lparr>job_id := 5, job_inv := ''21'', job_fn := ''1'', job_ver := ''10'', job_image := ''img'',
     job_entry := ''handler'', job_payload := Some [(''n'', JInt 3)], job_memory := 128, job_cpu := 100,
     job_timeout := 30, job_max_retries := 3, job_key := ''k''\<rparr>"

lemma demo_job_ok: "job_ok demo_job"
  by (simp add: job_ok_def demo_job_def zero_job_def jmap_stable_def in_int64_def json_year_def second_def
      any_number_small_int[of 3, simplified])

theorem job_roundtrip_witness:
  "\<exists>js. job_json ref_ext demo_job = Some js \<and> unmarshal_job ref_ext (JsonText js) = Some demo_job"
  by (rule job_roundtrip[OF ref_ext.ext_codec_axioms demo_job_ok])

text \<open>
  A heartbeat with finite measurements is read back unchanged by the scheduler, the extra
  \<open>load_score\<close> of \<open>MarshalJSON\<close> being ignored.
\<close>

theorem heartbeat_roundtrip:
  assumes "heartbeat_ok h"
  shows "\<exists>js. heartbeat_json h = Some js \<and> unmarshal_heartbeat (JsonText js) = Some h"
  by (rule heartbeat_json_decodes[OF assms])

definition idle_heartbeat :: heartbeat where
  "idle_heartbeat = \<lparr>hb_id = ''worker-7'', hb_host = ''localhost'', hb_cpu = Fin 0, hb_mem = Fin 0,
     hb_running = 0, hb_avail = 10, hb_total = 0, hb_time = 1000\<rparr>"

lemma idle_heartbeat_ok: "heartbeat_ok idle_heartbeat"
  by (simp add: heartbeat_ok_def idle_heartbeat_def f64_ok_def in_int64_def calculate_load_value[of _ 0])

theorem heartbeat_roundtrip_witness:
  "\<exists>js. heartbeat_json idle_heartbeat = Some js \<and> unmarshal_heartbeat (JsonText js) = Some idle_heartbeat"
  by (rule heartbeat_roundtrip[OF idle_heartbeat_ok])

end
