(* ===== verification/Redis.thy ===== *)
theory Redis
  imports Jobs
begin

text \<open>
  The Redis client the program talks to.  Redis is not part of the repository: its commands are the
  fields of the record \<open>redis\<close>, over an unspecified server state \<open>'r\<close>, and what the program relies on
  is stated as two interfaces, \<open>redis_streams\<close> (streams and consumer groups) and \<open>redis_keys\<close> (string
  keys with an expiry).  A command may fail with the command lost or with its reply lost, so after an
  error the command has taken effect or not.  A small executable server at the end satisfies both
  interfaces.
\<close>

section \<open>Commands\<close>

text \<open>What a command returns: a value, \<open>redis.Nil\<close>, or another error.\<close>

datatype 'a rres = RVal 'a | RNil | RErr string

type_synonym fields = "(string \<times> jtext) list"

record xmsg =
  xm_id :: string
  xm_values :: fields

text \<open>
  Text values are \<open>jtext\<close>s: the JSON texts the program writes, or raw texts.  \<open>rd_now\<close> arguments are the
  server's clock when it executes the command.  \<open>rd_eval\<close> runs a script atomically; \<open>sv_get\<close> and
  \<open>sv_del\<close> are \<open>redis.call("get", ...)\<close> and \<open>redis.call("del", ...)\<close> inside a script.
\<close>

record 'r redis =
  rd_xadd :: "string \<Rightarrow> fields \<Rightarrow> 'r \<Rightarrow> string rres \<times> 'r"
  rd_xgroup_create :: "string \<Rightarrow> string \<Rightarrow> 'r \<Rightarrow> unit rres \<times> 'r"
  rd_xreadgroup :: "string \<Rightarrow> string \<Rightarrow> string \<Rightarrow> nat \<Rightarrow> 'r \<Rightarrow> (string \<times> xmsg list) list rres \<times> 'r"
  rd_xread :: "string \<Rightarrow> string \<Rightarrow> nat \<Rightarrow> 'r \<Rightarrow> (string \<times> xmsg list) list rres \<times> 'r"
  rd_xrange :: "string \<Rightarrow> 'r \<Rightarrow> xmsg list rres \<times> 'r"
  rd_xack :: "string \<Rightarrow> string \<Rightarrow> string \<Rightarrow> 'r \<Rightarrow> nat rres \<times> 'r"
  rd_xdel :: "string \<Rightarrow> string \<Rightarrow> 'r \<Rightarrow> nat rres \<times> 'r"
  rd_xlen :: "string \<Rightarrow> 'r \<Rightarrow> nat rres \<times> 'r"
  rd_xpending :: "string \<Rightarrow> string \<Rightarrow> 'r \<Rightarrow> nat rres \<times> 'r"
  rd_get :: "int \<Rightarrow> string \<Rightarrow> 'r \<Rightarrow> jtext rres \<times> 'r"
  rd_set :: "int \<Rightarrow> string \<Rightarrow> jtext \<Rightarrow> int \<Rightarrow> 'r \<Rightarrow> unit rres \<times> 'r"
  rd_setnx :: "int \<Rightarrow> string \<Rightarrow> jtext \<Rightarrow> int \<Rightarrow> 'r \<Rightarrow> bool rres \<times> 'r"
  rd_del :: "string \<Rightarrow> 'r \<Rightarrow> nat rres \<times> 'r"
  rd_eval :: "('r \<Rightarrow> nat \<times> 'r) \<Rightarrow> 'r \<Rightarrow> nat rres \<times> 'r"
  sv_get :: "int \<Rightarrow> string \<Rightarrow> 'r \<Rightarrow> jtext option"
  sv_del :: "string \<Rightarrow> 'r \<Rightarrow> nat \<times> 'r"

section \<open>Streams and consumer groups\<close>

text \<open>
  \<open>strm r s\<close> are the entries of stream \<open>s\<close>, oldest first; \<open>grps r\<close> the consumer groups, with their
  stream; \<open>seen r s g\<close> the entries delivered to a group and \<open>pend r s g\<close> those delivered and not
  acknowledged.
\<close>

locale redis_streams =
  fixes R :: "'r redis" and strm :: "'r \<Rightarrow> string \<Rightarrow> xmsg list" and grps :: "'r \<Rightarrow> (string \<times> string) set"
    and seen :: "'r \<Rightarrow> string \<Rightarrow> string \<Rightarrow> string set" and pend :: "'r \<Rightarrow> string \<Rightarrow> string \<Rightarrow> string set"
  assumes xadd_groups: "rd_xadd R s fs r = (res, r') \<Longrightarrow> grps r' = grps r \<and> seen r' = seen r \<and> pend r' = pend r"
    and xadd_ok: "rd_xadd R s fs r = (RVal i, r') \<Longrightarrow>
      strm r' = (strm r)(s := strm r s @ [\<lparr>xm_id = i, xm_values = fs\<rparr>]) \<and> (\<forall>g. i \<notin> seen r s g)"
    and xadd_err: "rd_xadd R s fs r = (res, r') \<Longrightarrow>
      strm r' = strm r \<or> (\<exists>i. strm r' = (strm r)(s := strm r s @ [\<lparr>xm_id = i, xm_values = fs\<rparr>]))"
    and group_streams: "rd_xgroup_create R s g r = (res1, r') \<Longrightarrow>
      strm r' = strm r \<and> grps r \<subseteq> grps r' \<and> grps r' \<subseteq> insert (s, g) (grps r) \<and> seen r' = seen r \<and> pend r' = pend r"
    and group_ok: "rd_xgroup_create R s g r = (RVal u, r') \<Longrightarrow> (s, g) \<in> grps r'"
    and readgroup_streams: "rd_xreadgroup R g c s n r = (res2, r') \<Longrightarrow> strm r' = strm r \<and> grps r' = grps r"
    and readgroup_nogroup: "(s, g) \<notin> grps r \<Longrightarrow> rd_xreadgroup R g c s n r = (res2, r') \<Longrightarrow>
      (\<exists>e. res2 = RErr e) \<and> seen r' = seen r \<and> pend r' = pend r"
    and readgroup_pending: "rd_xreadgroup R g c s n r = (res2, r') \<Longrightarrow> pend r s' g' \<subseteq> pend r' s' g'"
    and readgroup_ok: "rd_xreadgroup R g c s n r = (RVal ss, r') \<Longrightarrow> 0 < n \<Longrightarrow>
      ss = [(s, take n (filter (\<lambda>m. xm_id m \<notin> seen r s g) (strm r s)))] \<and>
      (\<forall>m \<in> set (take n (filter (\<lambda>m. xm_id m \<notin> seen r s g) (strm r s))). xm_id m \<in> pend r' s g)"
    and readgroup_nil: "rd_xreadgroup R g c s n r = (RNil, r') \<Longrightarrow> 0 < n \<Longrightarrow>
      (\<forall>m \<in> set (strm r s). xm_id m \<in> seen r s g)"
    and xack_effect: "rd_xack R s g i r = (res3, r') \<Longrightarrow> strm r' = strm r \<and> grps r' = grps r \<and> seen r' = seen r \<and>
      (\<forall>s' g'. pend r s' g' - (if s' = s \<and> g' = g then {i} else {}) \<subseteq> pend r' s' g')"

section \<open>String keys\<close>

text \<open>
  \<open>live r t k\<close> is the value of key \<open>k\<close> at time \<open>t\<close>, if it has not expired by then.  The lifetimes the
  program sets are positive, 24 hours for a result and what the caller passes for a lock (30 seconds); the
  client takes a duration of zero for no expiry at all, which \<open>set_ok\<close>, about the lifetime \<open>d\<close> of the
  written key, is not meant for.
\<close>

locale redis_keys =
  fixes R :: "'r redis" and live :: "'r \<Rightarrow> int \<Rightarrow> string \<Rightarrow> jtext option"
  assumes expiry: "live r t k = Some v \<Longrightarrow> t' \<le> t \<Longrightarrow> live r t' k = Some v"
    and get_state: "rd_get R now k r = (res, r') \<Longrightarrow> live r' = live r"
    and get_val: "rd_get R now k r = (RVal v, r') \<Longrightarrow> live r now k = Some v"
    and get_nil: "rd_get R now k r = (RNil, r') \<Longrightarrow> live r now k = None"
    and set_ok: "rd_set R now k v d r = (RVal u, r') \<Longrightarrow> now \<le> t \<Longrightarrow>
      live r' t k' = (if k' = k then (if t < now + d then Some v else None) else live r t k')"
    and set_any: "rd_set R now k v d r = (res5, r') \<Longrightarrow> now \<le> t \<Longrightarrow> k' \<noteq> k \<Longrightarrow> live r' t k' = live r t k'"
    and setnx_free: "rd_setnx R now k v d r = (RVal True, r') \<Longrightarrow> live r now k = None"
    and setnx_true: "rd_setnx R now k v d r = (RVal True, r') \<Longrightarrow> 0 < d \<Longrightarrow> now \<le> t \<Longrightarrow>
      live r' t k' = (if k' = k then (if t < now + d then Some v else None) else live r t k')"
    and setnx_false: "rd_setnx R now k v d r = (RVal False, r') \<Longrightarrow> live r now k \<noteq> None \<and> live r' = live r"
    and eval_ok: "rd_eval R f r = (RVal n, r') \<Longrightarrow> f r = (n, r')"
    and eval_err: "rd_eval R f r = (res4, r') \<Longrightarrow> r' = r \<or> r' = snd (f r)"
    and sv_get_live: "sv_get R now k r = live r now k"
    and sv_del_live: "sv_del R k r = (n, r') \<Longrightarrow> live r' t k' = (if k' = k then None else live r t k')"

section \<open>Streams and keys together\<close>

text \<open>
  Streams and string keys share one name space: a command on a name leaves every other name alone.
\<close>

locale redis_server =
  redis_streams R strm grps seen pend + redis_keys R live
  for R :: "'r redis" and strm :: "'r \<Rightarrow> string \<Rightarrow> xmsg list" and grps :: "'r \<Rightarrow> (string \<times> string) set"
    and seen :: "'r \<Rightarrow> string \<Rightarrow> string \<Rightarrow> string set" and pend :: "'r \<Rightarrow> string \<Rightarrow> string \<Rightarrow> string set"
    and live :: "'r \<Rightarrow> int \<Rightarrow> string \<Rightarrow> jtext option" +
  assumes set_streams: "rd_set R now k v d r = (res6, r') \<Longrightarrow> s \<noteq> k \<Longrightarrow> strm r' s = strm r s"
    and xadd_live: "rd_xadd R s fs r = (res, r') \<Longrightarrow> k \<noteq> s \<Longrightarrow> live r' t k = live r t k"

section \<open>A reference server\<close>

text \<open>
  A server that never fails.  An entry's identifier is longer than any the stream has or ever
  delivered; keys are kept with the time they expire at.
\<close>

record ref_state =
  rs_strm :: "string \<Rightarrow> xmsg list"
  rs_grps :: "(string \<times> string) list"
  rs_seen :: "(string \<times> string \<times> string) list"
  rs_pend :: "(string \<times> string \<times> string) list"
  rs_keys :: "string \<Rightarrow> (jtext \<times> int) option"

definition ref_state0 :: ref_state where
  "ref_state0 = \<lparr>rs_strm = (\<lambda>_. []), rs_grps = [], rs_seen = [], rs_pend = [], rs_keys = (\<lambda>_. None)\<rparr>"

definition ref_id :: "string \<Rightarrow> ref_state \<Rightarrow> string" where
  "ref_id s r = replicate (Suc (sum_list (map (\<lambda>m. length (xm_id m)) (rs_strm r s)) +
     sum_list (map (\<lambda>(_, _, i). length i) (rs_seen r)))) CHR ''x''"

definition ref_seen :: "ref_state \<Rightarrow> string \<Rightarrow> string \<Rightarrow> string list" where
  "ref_seen r s g = map (\<lambda>(_, _, i). i) (filter (\<lambda>(s', g', _). s' = s \<and> g' = g) (rs_seen r))"

definition ref_pend :: "ref_state \<Rightarrow> string \<Rightarrow> string \<Rightarrow> string list" where
  "ref_pend r s g = map (\<lambda>(_, _, i). i) (filter (\<lambda>(s', g', _). s' = s \<and> g' = g) (rs_pend r))"

definition ref_live :: "ref_state \<Rightarrow> int \<Rightarrow> string \<Rightarrow> jtext option" where
  "ref_live r t k = (case rs_keys r k of None \<Rightarrow> None | Some (v, e) \<Rightarrow> if t < e then Some v else None)"

definition ref_xadd :: "string \<Rightarrow> fields \<Rightarrow> ref_state \<Rightarrow> string rres \<times> ref_state" where
  "ref_xadd s fs r = (RVal (ref_id s r),
     r\<lparr>rs_strm := (rs_strm r)(s := rs_strm r s @ [\<lparr>xm_id = ref_id s r, xm_values = fs\<rparr>])\<rparr>)"

definition ref_group :: "string \<Rightarrow> string \<Rightarrow> ref_state \<Rightarrow> unit rres \<times> ref_state" where
  "ref_group s g r =
     (if (s, g) \<in> set (rs_grps r) then (RErr ''BUSYGROUP Consumer Group name already exists'', r)
      else (RVal (), r\<lparr>rs_grps := (s, g) # rs_grps r\<rparr>))"

definition ref_readgroup ::
  "string \<Rightarrow> string \<Rightarrow> string \<Rightarrow> nat \<Rightarrow> ref_state \<Rightarrow> (string \<times> xmsg list) list rres \<times> ref_state" where
  "ref_readgroup g c s n r =
     (if (s, g) \<notin> set (rs_grps r) then (RErr ''NOGROUP No such consumer group'', r)
      else let new = filter (\<lambda>m. xm_id m \<notin> set (ref_seen r s g)) (rs_strm r s);
               ms = (if n = 0 then new else take n new);
               ds = map (\<lambda>m. (s, g, xm_id m)) ms
           in if ms = [] then (RNil, r)
              else (RVal [(s, ms)], r\<lparr>rs_seen := ds @ rs_seen r, rs_pend := ds @ rs_pend r\<rparr>))"

definition ref_ack :: "string \<Rightarrow> string \<Rightarrow> string \<Rightarrow> ref_state \<Rightarrow> nat rres \<times> ref_state" where
  "ref_ack s g i r =
     (RVal (length (filter (\<lambda>x. x = (s, g, i)) (rs_pend r))), r\<lparr>rs_pend := filter (\<lambda>x. x \<noteq> (s, g, i)) (rs_pend r)\<rparr>)"

definition ref_xdel :: "string \<Rightarrow> string \<Rightarrow> ref_state \<Rightarrow> nat rres \<times> ref_state" where
  "ref_xdel s i r =
     (RVal (length (filter (\<lambda>m. xm_id m = i) (rs_strm r s))),
      r\<lparr>rs_strm := (rs_strm r)(s := filter (\<lambda>m. xm_id m \<noteq> i) (rs_strm r s))\<rparr>)"

definition ref_set :: "int \<Rightarrow> string \<Rightarrow> jtext \<Rightarrow> int \<Rightarrow> ref_state \<Rightarrow> ref_state" where
  "ref_set now k v d r = r\<lparr>rs_keys := (rs_keys r)(k := Some (v, now + d))\<rparr>"

definition ref_del :: "string \<Rightarrow> ref_state \<Rightarrow> nat \<times> ref_state" where
  "ref_del k r = (if rs_keys r k = None then 0 else 1, r\<lparr>rs_keys := (rs_keys r)(k := None)\<rparr>)"

definition ref_redis :: "ref_state redis" where
  "ref_redis = \<lparr>rd_xadd = ref_xadd, rd_xgroup_create = ref_group, rd_xreadgroup = ref_readgroup,
     rd_xread = (\<lambda>s last n r. (let ms = filter (\<lambda>m. length last < length (xm_id m)) (rs_strm r s)
        in if ms = [] then RNil else RVal [(s, if n = 0 then ms else take n ms)], r)),
     rd_xrange = (\<lambda>s r. (RVal (rs_strm r s), r)), rd_xack = ref_ack, rd_xdel = ref_xdel,
     rd_xlen = (\<lambda>s r. (RVal (length (rs_strm r s)), r)),
     rd_xpending = (\<lambda>s g r. (RVal (length (ref_pend r s g)), r)),
     rd_get = (\<lambda>now k r. (case ref_live r now k of None \<Rightarrow> RNil | Some v \<Rightarrow> RVal v, r)),
     rd_set = (\<lambda>now k v d r. (RVal (), ref_set now k v d r)),
     rd_setnx = (\<lambda>now k v d r. if ref_live r now k = None then (RVal True, ref_set now k v d r) else (RVal False, r)),
     rd_del = (\<lambda>k r. let (n, r') = ref_del k r in (RVal n, r')),
     rd_eval = (\<lambda>f r. let (n, r') = f r in (RVal n, r')),
     sv_get = (\<lambda>now k r. ref_live r now k), sv_del = ref_del\<rparr>"

lemma ref_redis_sel [simp]:
  "rd_xadd ref_redis = ref_xadd" "rd_xgroup_create ref_redis = ref_group" "rd_xreadgroup ref_redis = ref_readgroup"
  "rd_xack ref_redis = ref_ack" "rd_xdel ref_redis = ref_xdel"
  "rd_get ref_redis now k r = (case ref_live r now k of None \<Rightarrow> RNil | Some v \<Rightarrow> RVal v, r)"
  "rd_set ref_redis now k v d r = (RVal (), ref_set now k v d r)"
  "rd_setnx ref_redis now k v d r = (if ref_live r now k = None then (RVal True, ref_set now k v d r) else (RVal False, r))"
  "sv_get ref_redis now k r = ref_live r now k" "sv_del ref_redis = ref_del"
  by (simp_all add: ref_redis_def)

lemma ref_id_fresh: "(s, g, ref_id s r) \<notin> set (rs_seen r)"
proof
  assume "(s, g, ref_id s r) \<in> set (rs_seen r)"
  then have "length (ref_id s r) \<le> sum_list (map (\<lambda>(_, _, i). length i) (rs_seen r))"
    by (force intro: member_le_sum_list)
  then show False by (simp add: ref_id_def)
qed

lemma ref_pend_simps:
  "set (ref_pend r s g) = {i. (s, g, i) \<in> set (rs_pend r)}"
  by (force simp: ref_pend_def)

lemma ref_seen_simps:
  "set (ref_seen r s g) = {i. (s, g, i) \<in> set (rs_seen r)}"
  by (force simp: ref_seen_def)

interpretation ref_streams: redis_streams ref_redis rs_strm "\<lambda>r. set (rs_grps r)"
    "\<lambda>r s g. set (ref_seen r s g)" "\<lambda>r s g. set (ref_pend r s g)"
  by unfold_locales
    (auto simp: ref_xadd_def ref_group_def ref_readgroup_def ref_ack_def ref_id_fresh ref_pend_simps Let_def
      ref_seen_simps filter_empty_conv fun_eq_iff split: if_splits)

interpretation ref_keys: redis_keys ref_redis ref_live
  by unfold_locales
    (auto simp: ref_live_def ref_set_def ref_del_def fun_eq_iff ref_redis_def
      split: if_splits option.splits prod.splits)

interpretation ref_server: redis_server ref_redis rs_strm "\<lambda>r. set (rs_grps r)"
    "\<lambda>r s g. set (ref_seen r s g)" "\<lambda>r s g. set (ref_pend r s g)" ref_live
  by unfold_locales (auto simp: ref_set_def ref_xadd_def ref_live_def)

end
