(* ===== verification/JobQueue.thy ===== *)
theory JobQueue
  imports Redis
begin

text \<open>
  \<open>RedisStreamQueue\<close> of \<open>internal/queue/redis.go\<close>, method by method, over the commands of \<open>Redis\<close>.
  A Go \<open>error\<close> is a \<open>string option\<close>; a method takes the server state and returns it last.
\<close>

section \<open>Operations\<close>

record rqueue =
  q_jobs :: string
  q_results :: string

text \<open>\<open>Err()\<close> of a command.\<close>

fun go_err :: "'a rres \<Rightarrow> string option" where
  "go_err (RVal _) = None"
| "go_err RNil = Some ''redis: nil''"
| "go_err (RErr e) = Some e"

definition job_fields :: "string \<Rightarrow> json \<Rightarrow> fields" where
  "job_fields i js = [(''job_id'', RawText i), (''data'', JsonText js)]"

definition enqueue_job :: "'r redis \<Rightarrow> ext \<Rightarrow> rqueue \<Rightarrow> job \<Rightarrow> 'r \<Rightarrow> string option \<times> 'r" where
  "enqueue_job R X q j r =
     (case job_json X j of
        None \<Rightarrow> (Some ''marshaling job'', r)
      | Some js \<Rightarrow>
          (let (res, r') = rd_xadd R (q_jobs q) (job_fields (uuid_str X (job_id j)) js) r
           in (map_option (\<lambda>e. ''xadd to stream: '' @ e) (go_err res), r')))"

definition enqueue_job_to_stream ::
  "'r redis \<Rightarrow> ext \<Rightarrow> uuid \<Rightarrow> string \<Rightarrow> job \<Rightarrow> 'r \<Rightarrow> string option \<times> 'r" where
  "enqueue_job_to_stream R X new_id s j r =
     (case job_json X j of
        None \<Rightarrow> (Some ''marshaling job'', r)
      | Some js \<Rightarrow>
          (let (res, r') = rd_xadd R s (job_fields (uuid_str X new_id) js) r in (go_err res, r')))"

definition register_consumer_group :: "'r redis \<Rightarrow> rqueue \<Rightarrow> string \<Rightarrow> 'r \<Rightarrow> string option \<times> 'r" where
  "register_consumer_group R q g r =
     (let (res, r') = rd_xgroup_create R (q_jobs q) g r
      in (case go_err res of
            None \<Rightarrow> None
          | Some e \<Rightarrow> if e \<noteq> ''BUSYGROUP Consumer Group name already exists''
                       then Some (''creating consumer group: '' @ e) else None, r'))"

text \<open>\<open>ErrNoJobs\<close> is a value of its own.\<close>

datatype dequeue_err = ErrNoJobs | DequeueErr string

text \<open>The value of field \<open>data\<close> of a message, when there is one.\<close>

definition msg_data :: "xmsg \<Rightarrow> jtext option" where
  "msg_data m = map_of (xm_values m) ''data''"

text \<open>One message of the loop: skipped when it has no data or does not parse.\<close>

definition queued_of :: "ext \<Rightarrow> string \<Rightarrow> xmsg \<Rightarrow> queued_job option" where
  "queued_of X c m =
     (case msg_data m of None \<Rightarrow> None
      | Some t \<Rightarrow> (case unmarshal_job X t of None \<Rightarrow> None
                   | Some j \<Rightarrow> Some \<lparr>qj_id = xm_id m, qj_job = j, qj_claim = c\<rparr>))"

definition dequeue_jobs ::
  "'r redis \<Rightarrow> ext \<Rightarrow> rqueue \<Rightarrow> string \<Rightarrow> string \<Rightarrow> nat \<Rightarrow> 'r \<Rightarrow> (dequeue_err + queued_job list) \<times> 'r" where
  "dequeue_jobs R X q g c n r =
     (let (res, r') = rd_xreadgroup R g c (q_jobs q) n r
      in (case res of
            RNil \<Rightarrow> Inl ErrNoJobs
          | RErr e \<Rightarrow> Inl (DequeueErr (''xreadgroup: '' @ e))
          | RVal ss \<Rightarrow> Inr (List.map_filter (queued_of X c) (concat (map snd ss))), r'))"

definition ack_job :: "'r redis \<Rightarrow> rqueue \<Rightarrow> string \<Rightarrow> string \<Rightarrow> 'r \<Rightarrow> string option \<times> 'r" where
  "ack_job R q g i r = (let (res, r') = rd_xack R (q_jobs q) g i r in (go_err res, r'))"

definition get_pending_count :: "'r redis \<Rightarrow> rqueue \<Rightarrow> 'r \<Rightarrow> (string + nat) \<times> 'r" where
  "get_pending_count R q r =
     (let (res, r') = rd_xpending R (q_jobs q) ''nimbusrun:workers'' r
      in (case res of RVal n \<Rightarrow> Inr n | RNil \<Rightarrow> Inl ''redis: nil'' | RErr e \<Rightarrow> Inl e, r'))"

definition get_queue_depth :: "'r redis \<Rightarrow> rqueue \<Rightarrow> 'r \<Rightarrow> (string + nat) \<times> 'r" where
  "get_queue_depth R q r =
     (let (res, r') = rd_xlen R (q_jobs q) r
      in (case res of RVal n \<Rightarrow> Inr n | RNil \<Rightarrow> Inl ''redis: nil'' | RErr e \<Rightarrow> Inl e, r'))"

definition delete_job :: "'r redis \<Rightarrow> rqueue \<Rightarrow> string \<Rightarrow> 'r \<Rightarrow> string option \<times> 'r" where
  "delete_job R q i r = (let (res, r') = rd_xdel R (q_jobs q) i r in (go_err res, r'))"

text \<open>\<open>EnqueueDLQ\<close> ignores a marshalling error: the data is then the empty text.\<close>

definition enqueue_dlq :: "'r redis \<Rightarrow> ext \<Rightarrow> rqueue \<Rightarrow> uuid \<Rightarrow> int \<Rightarrow> job \<Rightarrow> string \<Rightarrow> 'r \<Rightarrow> string option \<times> 'r" where
  "enqueue_dlq R X q new_id now j msg r =
     (let (res, r') = rd_xadd R (q_jobs q @ '':dlq'')
            [(''job_id'', RawText (uuid_str X new_id)),
             (''data'', case job_json X j of None \<Rightarrow> RawText '''' | Some js \<Rightarrow> JsonText js),
             (''error'', RawText msg), (''timestamp'', RawText (itoa (unix_of now)))] r
      in (go_err res, r'))"

definition result_of :: "ext \<Rightarrow> xmsg \<Rightarrow> job_result option" where
  "result_of X m =
     (case msg_data m of None \<Rightarrow> None
      | Some t \<Rightarrow> (case unmarshal_result X t of None \<Rightarrow> None | Some jr \<Rightarrow> Some (jr\<lparr>jr_msg := xm_id m\<rparr>)))"

definition read_results ::
  "'r redis \<Rightarrow> ext \<Rightarrow> rqueue \<Rightarrow> string \<Rightarrow> nat \<Rightarrow> 'r \<Rightarrow> (string + job_result list) \<times> 'r" where
  "read_results R X q after n r =
     (let (res, r') = rd_xread R (q_results q) after n r
      in (case res of
            RNil \<Rightarrow> Inr []
          | RErr e \<Rightarrow> Inl e
          | RVal ss \<Rightarrow> Inr (List.map_filter (result_of X) (concat (map snd ss))), r'))"

text \<open>\<open>GetDLQEntries\<close> does not use its \<open>count\<close>.\<close>

definition get_dlq_entries :: "'r redis \<Rightarrow> rqueue \<Rightarrow> nat \<Rightarrow> 'r \<Rightarrow> (string + xmsg list) \<times> 'r" where
  "get_dlq_entries R q n r =
     (let (res, r') = rd_xrange R (q_jobs q @ '':dlq'') r
      in (case res of RVal ms \<Rightarrow> Inr ms | RNil \<Rightarrow> Inl ''redis: nil'' | RErr e \<Rightarrow> Inl e, r'))"

section \<open>Effects\<close>

lemma go_err_None: "go_err res = None \<longleftrightarrow> (\<exists>v. res = RVal v)"
  by (cases res) auto

lemma msg_data_fields [simp]: "msg_data \<lparr>xm_id = i, xm_values = job_fields k js\<rparr> = Some (JsonText js)"
  by (simp add: msg_data_def job_fields_def)

context redis_streams
begin

text \<open>What sending a job to a stream does, on success and in general.\<close>

lemma enqueue_ok:
  assumes "enqueue_job R X q j r = (None, r')"
  obtains i js where "job_json X j = Some js"
    "strm r' = (strm r)(q_jobs q := strm r (q_jobs q) @ [\<lparr>xm_id = i, xm_values = job_fields (uuid_str X (job_id j)) js\<rparr>])"
    "\<And>g. i \<notin> seen r (q_jobs q) g"
  using assms xadd_ok
  by (fastforce simp: enqueue_job_def go_err_None split: option.splits prod.splits)

lemma to_stream_ok:
  assumes "enqueue_job_to_stream R X new_id s j r = (None, r')"
  obtains i js where "job_json X j = Some js"
    "strm r' = (strm r)(s := strm r s @ [\<lparr>xm_id = i, xm_values = job_fields (uuid_str X new_id) js\<rparr>])"
  using assms xadd_ok
  by (fastforce simp: enqueue_job_to_stream_def go_err_None split: option.splits prod.splits)

lemma enqueue_dlq_ok:
  assumes "enqueue_dlq R X q new_id now j msg r = (None, r')" "job_json X j = Some js"
  obtains i where "strm r' = (strm r)(q_jobs q @ '':dlq'' := strm r (q_jobs q @ '':dlq'') @
    [\<lparr>xm_id = i, xm_values = [(''job_id'', RawText (uuid_str X new_id)), (''data'', JsonText js), (''error'', RawText msg),
       (''timestamp'', RawText (itoa (unix_of now)))]\<rparr>])"
  using assms xadd_ok
  by (fastforce simp: enqueue_dlq_def go_err_None split: prod.splits)

lemma enqueue_groups:
  "enqueue_job R X q j r = (e, r') \<Longrightarrow> grps r' = grps r \<and> seen r' = seen r \<and> pend r' = pend r"
  by (auto simp: enqueue_job_def split: option.splits prod.splits dest: xadd_groups)

lemma to_stream_groups:
  "enqueue_job_to_stream R X i s j r = (e, r') \<Longrightarrow> grps r' = grps r \<and> seen r' = seen r \<and> pend r' = pend r"
  by (auto simp: enqueue_job_to_stream_def split: option.splits prod.splits dest: xadd_groups)

lemma enqueue_grows: "enqueue_job R X q j r = (e, r') \<Longrightarrow> \<exists>ms. strm r' s = strm r s @ ms"
  by (fastforce simp: enqueue_job_def split: option.splits prod.splits dest: xadd_err)

lemma to_stream_grows: "enqueue_job_to_stream R X i t j r = (e, r') \<Longrightarrow> \<exists>ms. strm r' s = strm r s @ ms"
  by (fastforce simp: enqueue_job_to_stream_def split: option.splits prod.splits dest: xadd_err)

lemma dequeue_streams: "dequeue_jobs R X q g c n r = (res, r') \<Longrightarrow> strm r' = strm r \<and> grps r' = grps r"
  by (auto simp: dequeue_jobs_def split: prod.splits dest: readgroup_streams)

text \<open>A dequeue returns the jobs of the oldest entries not delivered to the group, in order.\<close>

lemma dequeue_fifo:
  assumes "dequeue_jobs R X q g c n r = (Inr js, r')" "0 < n"
  shows "js = List.map_filter (queued_of X c)
      (take n (filter (\<lambda>m. xm_id m \<notin> seen r (q_jobs q) g) (strm r (q_jobs q))))"
    and "\<forall>j \<in> set js. qj_id j \<in> pend r' (q_jobs q) g"
proof -
  obtain ss where ss: "rd_xreadgroup R g c (q_jobs q) n r = (RVal ss, r')"
    "js = List.map_filter (queued_of X c) (concat (map snd ss))"
    using assms(1) by (auto simp: dequeue_jobs_def split: prod.splits rres.splits)
  show "js = List.map_filter (queued_of X c)
      (take n (filter (\<lambda>m. xm_id m \<notin> seen r (q_jobs q) g) (strm r (q_jobs q))))"
    using ss readgroup_ok[OF ss(1) assms(2)] by simp
  then show "\<forall>j \<in> set js. qj_id j \<in> pend r' (q_jobs q) g"
    using readgroup_ok[OF ss(1) assms(2)]
    by (fastforce simp: List.map_filter_def queued_of_def split: option.splits)
qed

end

text \<open>What a message carries.\<close>

definition carries :: "ext \<Rightarrow> xmsg \<Rightarrow> job \<Rightarrow> bool" where
  "carries X m j \<longleftrightarrow> (\<exists>t. msg_data m = Some t \<and> unmarshal_job X t = Some j)"

section \<open>Properties\<close>

text \<open>
  A job that was enqueued is delivered intact: when a consumer group has been delivered everything
  older, its next read of the stream returns the job, field by field, and leaves the entry pending for
  the group until it is acknowledged.
\<close>

theorem enqueued_job_is_delivered:
  assumes "redis_streams R strm grps seen pend" "ext_codec X" "job_ok j" "0 < n"
    and "enqueue_job R X q j r = (None, r1)" "\<forall>m \<in> set (strm r (q_jobs q)). xm_id m \<in> seen r (q_jobs q) g"
    and "dequeue_jobs R X q g c n r1 = (Inr js, r2)"
  shows "\<exists>i. js = [\<lparr>qj_id = i, qj_job = j, qj_claim = c\<rparr>] \<and> i \<in> pend r2 (q_jobs q) g"
proof -
  obtain i js' where enq: "job_json X j = Some js'"
    "strm r1 = (strm r)(q_jobs q := strm r (q_jobs q) @ [\<lparr>xm_id = i, xm_values = job_fields (uuid_str X (job_id j)) js'\<rparr>])"
    "\<And>g. i \<notin> seen r (q_jobs q) g"
    using redis_streams.enqueue_ok[OF assms(1,5)] by metis
  have "seen r1 = seen r" using redis_streams.enqueue_groups[OF assms(1,5)] by simp
  then have "filter (\<lambda>m. xm_id m \<notin> seen r1 (q_jobs q) g) (strm r1 (q_jobs q)) =
      [\<lparr>xm_id = i, xm_values = job_fields (uuid_str X (job_id j)) js'\<rparr>]"
    using assms(6) enq(2,3) by (simp add: filter_empty_conv)
  moreover have "unmarshal_job X (JsonText js') = Some j"
    by (rule job_json_decodes[OF assms(2,3) enq(1)])
  ultimately have js: "js = [\<lparr>qj_id = i, qj_job = j, qj_claim = c\<rparr>]"
    using redis_streams.dequeue_fifo(1)[OF assms(1,7,4)] assms(4)
    by (simp add: take_Cons' map_filter_simps queued_of_def)
  then show ?thesis using redis_streams.dequeue_fifo(2)[OF assms(1,7,4)] by simp
qed

definition demo_queue :: rqueue where
  "demo_queue = \<lparr>q_jobs = ''nimbusrun:jobs'', q_results = ''nimbusrun:results''\<rparr>"

definition demo_enqueued :: ref_state where
  "demo_enqueued = snd (enqueue_job ref_redis ref_ext demo_queue demo_job
     (ref_state0\<lparr>rs_grps := [(''nimbusrun:jobs'', ''scheduler'')]\<rparr>))"

lemma demo_job_json: "\<exists>js. job_json ref_ext demo_job = Some js"
  using demo_job_ok by (simp add: job_json_def job_ok_def)

theorem enqueued_job_is_delivered_witness:
  "\<exists>i. fst (dequeue_jobs ref_redis ref_ext demo_queue ''scheduler'' ''dispatcher-1'' 1 demo_enqueued) =
     Inr [\<lparr>qj_id = i, qj_job = demo_job, qj_claim = ''dispatcher-1''\<rparr>]"
proof -
  let ?r = "ref_state0\<lparr>rs_grps := [(''nimbusrun:jobs'', ''scheduler'')]\<rparr>"
  obtain js where js: "job_json ref_ext demo_job = Some js" using demo_job_json by blast
  have e: "enqueue_job ref_redis ref_ext demo_queue demo_job ?r = (None, demo_enqueued)"
    by (simp add: demo_enqueued_def enqueue_job_def js ref_xadd_def)
  obtain qs r2 where d: "dequeue_jobs ref_redis ref_ext demo_queue ''scheduler'' ''dispatcher-1'' 1 demo_enqueued = (Inr qs, r2)"
    by (simp add: demo_enqueued_def enqueue_job_def js ref_xadd_def dequeue_jobs_def ref_readgroup_def
        demo_queue_def ref_state0_def ref_seen_def Let_def)
  from enqueued_job_is_delivered[OF ref_streams.redis_streams_axioms ref_ext.ext_codec_axioms demo_job_ok _ e _ d]
  show ?thesis using d by (auto simp: ref_state0_def demo_queue_def)
qed

end
