(* ===== verification/WorkerPool.thy ===== *)
theory WorkerPool
  imports Jobs
begin

text \<open>
  Which workers exist and which one gets the next job: \<open>internal/scheduler/heartbeat_store.go\<close> and
  the selection of \<open>internal/scheduler/scheduler.go\<close>.  The Go maps are ranged over in an order the
  language leaves open: an operation that ranges takes that order \<open>ks\<close> (\<open>ranges_over\<close> in \<open>Prelude\<close>),
  and what does not depend on it is a theorem.  Entries are replaced, never modified in place, so a
  pointer to a heartbeat is its value.
\<close>

section \<open>WorkerHeartbeatStore\<close>

record hb_store =
  hs_workers :: "string \<rightharpoonup> heartbeat"
  hs_ttl :: int

definition new_hb_store :: hb_store where
  "new_hb_store = \<lparr>hs_workers = Map.empty, hs_ttl = 30 * second\<rparr>"

definition hs_update :: "heartbeat \<Rightarrow> hb_store \<Rightarrow> hb_store" where
  "hs_update hb s = s\<lparr>hs_workers := (hs_workers s)(hb_id hb \<mapsto> hb)\<rparr>"

definition hs_get :: "string \<Rightarrow> hb_store \<Rightarrow> heartbeat option" where
  "hs_get w s = hs_workers s w"

definition hs_list :: "string list \<Rightarrow> hb_store \<Rightarrow> heartbeat list" where
  "hs_list ks s = map_values ks (hs_workers s)"

definition hs_list_healthy :: "string list \<Rightarrow> int \<Rightarrow> hb_store \<Rightarrow> heartbeat list" where
  "hs_list_healthy ks now s = filter (\<lambda>w. is_healthy w now) (map_values ks (hs_workers s))"

definition hs_remove :: "string \<Rightarrow> hb_store \<Rightarrow> hb_store" where
  "hs_remove w s = s\<lparr>hs_workers := (hs_workers s)(w := None)\<rparr>"

text \<open>The loop of \<open>CleanStale\<close>: the map it deletes from while ranging, and the counter.\<close>

fun clean_loop :: "int \<Rightarrow> string list \<Rightarrow> (string \<rightharpoonup> heartbeat) \<Rightarrow> nat \<Rightarrow> (string \<rightharpoonup> heartbeat) \<times> nat" where
  "clean_loop now [] m n = (m, n)"
| "clean_loop now (k # ks) m n =
     (case m k of
        None \<Rightarrow> clean_loop now ks m n
      | Some w \<Rightarrow> if is_healthy w now then clean_loop now ks m n else clean_loop now ks (m(k := None)) (n + 1))"

definition hs_clean_stale :: "string list \<Rightarrow> int \<Rightarrow> hb_store \<Rightarrow> nat \<times> hb_store" where
  "hs_clean_stale ks now s = (let (m, n) = clean_loop now ks (hs_workers s) 0 in (n, s\<lparr>hs_workers := m\<rparr>))"

definition hs_count :: "hb_store \<Rightarrow> nat" where
  "hs_count s = card (dom (hs_workers s))"

fun count_loop :: "int \<Rightarrow> heartbeat list \<Rightarrow> nat \<Rightarrow> nat" where
  "count_loop now [] n = n"
| "count_loop now (w # ws) n = count_loop now ws (if is_healthy w now then n + 1 else n)"

definition hs_count_healthy :: "string list \<Rightarrow> int \<Rightarrow> hb_store \<Rightarrow> nat" where
  "hs_count_healthy ks now s = count_loop now (map_values ks (hs_workers s)) 0"

subsection \<open>A store of workers by their identifier\<close>

text \<open>What a client of the store relies on: \<open>get\<close> sees the last \<open>put\<close> or \<open>del\<close> of the key.\<close>

locale worker_registry =
  fixes get :: "string \<Rightarrow> 's \<Rightarrow> heartbeat option" and put :: "heartbeat \<Rightarrow> 's \<Rightarrow> 's" and del :: "string \<Rightarrow> 's \<Rightarrow> 's"
  assumes get_put: "get k (put h s) = (if k = hb_id h then Some h else get k s)"
    and get_del: "get k (del j s) = (if k = j then None else get k s)"
begin

definition keyed :: "'s \<Rightarrow> bool" where
  "keyed s \<longleftrightarrow> (\<forall>k h. get k s = Some h \<longrightarrow> hb_id h = k)"

lemma keyed_put: "keyed s \<Longrightarrow> keyed (put h s)"
  by (simp add: keyed_def get_put)

lemma keyed_del: "keyed s \<Longrightarrow> keyed (del k s)"
  by (simp add: keyed_def get_del)

text \<open>Only the latest heartbeat of each worker counts.\<close>

lemma get_fold_put:
  "get k (fold put hs s) =
     (case filter (\<lambda>h. hb_id h = k) hs of [] \<Rightarrow> get k s | h # hs' \<Rightarrow> Some (last (h # hs')))"
proof (induction hs arbitrary: s)
  case (Cons h hs)
  then show ?case by (cases "filter (\<lambda>h. hb_id h = k) hs") (auto simp: get_put)
qed simp

end

interpretation hs: worker_registry hs_get hs_update hs_remove
  by unfold_locales (simp_all add: hs_get_def hs_update_def hs_remove_def)

subsection \<open>Cleaning\<close>

lemma card_dom_del: "finite (dom m) \<Longrightarrow> m k = Some w \<Longrightarrow> card (dom m) = Suc (card (dom (m(k := None))))"
  using card_Suc_Diff1[of "dom m" k] by (metis domI dom_fun_upd)

text \<open>The healthy part of a map.\<close>

definition healthy_map :: "int \<Rightarrow> (string \<rightharpoonup> heartbeat) \<Rightarrow> string \<rightharpoonup> heartbeat" where
  "healthy_map now m k = (case m k of None \<Rightarrow> None | Some w \<Rightarrow> if is_healthy w now then Some w else None)"

lemma clean_loop_map:
  "fst (clean_loop now ks m n) k = (if k \<in> set ks then healthy_map now m k else m k)"
  by (induction ks arbitrary: m n) (auto simp: healthy_map_def split: option.splits)

lemma clean_loop_count:
  "distinct ks \<Longrightarrow> set ks \<subseteq> dom m \<Longrightarrow> finite (dom m) \<Longrightarrow>
   snd (clean_loop now ks m n) + card (dom (fst (clean_loop now ks m n))) = n + card (dom m)"
proof (induction ks arbitrary: m n)
  case (Cons k ks)
  obtain w where w: "m k = Some w" using Cons.prems(2) by auto
  show ?case
  proof (cases "is_healthy w now")
    case True
    then show ?thesis using Cons w by simp
  next
    case False
    define m' where "m' = m(k := None)"
    have c: "card (dom m) = Suc (card (dom m'))"
      unfolding m'_def using Cons.prems(3) w by (rule card_dom_del)
    have "set ks \<subseteq> dom m'" "finite (dom m')" using Cons.prems by (auto simp: m'_def)
    then have "snd (clean_loop now ks m' (Suc n)) + card (dom (fst (clean_loop now ks m' (Suc n)))) = Suc n + card (dom m')"
      using Cons.IH Cons.prems(1) by simp
    moreover have "clean_loop now (k # ks) m n = clean_loop now ks m' (Suc n)"
      using False w by (simp add: m'_def)
    ultimately show ?thesis using c by simp
  qed
qed simp

lemma filter_map_values: "filter (\<lambda>w. is_healthy w now) (map_values ks m) = map_values ks (healthy_map now m)"
  unfolding map_values_def healthy_map_def by (induction ks) (auto simp: map_filter_simps split: option.splits)

lemma count_loop_filter: "count_loop now ws n = n + length (filter (\<lambda>w. is_healthy w now) ws)"
  by (induction now ws n rule: count_loop.induct) auto

text \<open>Cleaning does not depend on the order in which the map is visited.\<close>

lemma clean_stale_workers:
  "ranges_over ks (hs_workers s) \<Longrightarrow> hs_workers (snd (hs_clean_stale ks now s)) = healthy_map now (hs_workers s)"
proof -
  assume r: "ranges_over ks (hs_workers s)"
  have "fst (clean_loop now ks (hs_workers s) 0) k = healthy_map now (hs_workers s) k" for k
    using r unfolding clean_loop_map
    by (auto simp: ranges_over_def healthy_map_def split: option.splits)
  then show ?thesis by (auto simp: hs_clean_stale_def split: prod.splits)
qed

lemma dom_healthy_map: "dom (healthy_map now m) \<subseteq> dom m"
  by (auto simp: healthy_map_def split: option.splits)

lemma map_values_dom: "map_values (filter (\<lambda>k. k \<in> dom m) ks) m = map_values ks m"
  unfolding map_values_def by (induction ks) (auto simp: map_filter_simps split: option.splits)

lemma count_healthy_card:
  assumes "ranges_over ks (hs_workers s)"
  shows "hs_count_healthy ks now s = card (dom (healthy_map now (hs_workers s)))"
proof -
  let ?m = "healthy_map now (hs_workers s)" and ?ks = "filter (\<lambda>k. k \<in> dom (healthy_map now (hs_workers s))) ks"
  have "hs_count_healthy ks now s = length (map_values ks ?m)"
    by (simp add: hs_count_healthy_def count_loop_filter filter_map_values)
  also have "\<dots> = length ?ks"
    unfolding map_values_dom[of ?m ks, symmetric] by (rule length_map_values) auto
  also have "\<dots> = card (set ?ks)"
    using assms by (metis distinct_card distinct_filter ranges_over_def)
  also have "set ?ks = dom ?m"
    using assms dom_healthy_map[of now "hs_workers s"] by (auto simp: ranges_over_def)
  finally show ?thesis .
qed

section \<open>Choosing a worker\<close>

text \<open>
  The loop of \<open>selectLowestLoadWorker\<close> over the remaining workers, with the best so far and its score;
  the score and the comparison are arguments.
\<close>

fun select_loop :: "('w \<Rightarrow> 's) \<Rightarrow> ('s \<Rightarrow> 's \<Rightarrow> bool) \<Rightarrow> 'w \<Rightarrow> 's \<Rightarrow> 'w list \<Rightarrow> 'w" where
  "select_loop score lt best best_load [] = best"
| "select_loop score lt best best_load (w # ws) =
     (let load = score w
      in if lt load best_load then select_loop score lt w load ws
         else select_loop score lt best best_load ws)"

definition select_lowest_load_worker :: "heartbeat list \<Rightarrow> heartbeat option" where
  "select_lowest_load_worker ws =
     (case ws of [] \<Rightarrow> None
      | best # rest \<Rightarrow> Some (select_loop calculate_load f64_lt best (calculate_load best) rest))"

text \<open>A score whose comparison is a strict weak order on the scores that occur.\<close>

locale load_order =
  fixes lt :: "'s \<Rightarrow> 's \<Rightarrow> bool" and proper :: "'s \<Rightarrow> bool"
  assumes irrefl: "\<not> lt x x"
    and not_lt_trans: "proper y \<Longrightarrow> \<not> lt x y \<Longrightarrow> \<not> lt y z \<Longrightarrow> \<not> lt x z"
    and asym: "lt x y \<Longrightarrow> \<not> lt y x"
begin

lemma loop_in: "select_loop score lt b (score b) ws \<in> set (b # ws)"
proof (induction ws arbitrary: b)
  case (Cons w ws)
  then show ?case using Cons[of w] Cons[of b] by (auto simp: Let_def)
qed simp

text \<open>The loop returns an element that none is less than.\<close>

lemma loop_least:
  "\<forall>w \<in> set (b # ws). proper (score w) \<Longrightarrow> w \<in> set (b # ws) \<Longrightarrow>
   \<not> lt (score w) (score (select_loop score lt b (score b) ws))"
proof (induction ws arbitrary: b w)
  case Nil
  then show ?case by (simp add: irrefl)
next
  case (Cons v ws)
  let ?b = "if lt (score v) (score b) then v else b"
  have r: "select_loop score lt b (score b) (v # ws) = select_loop score lt ?b (score ?b) ws"
    by (simp add: Let_def)
  have p: "\<forall>w \<in> set (?b # ws). proper (score w)" using Cons.prems(1) by auto
  have least: "\<not> lt (score u) (score (select_loop score lt ?b (score ?b) ws))" if "u \<in> set (?b # ws)" for u
    using Cons.IH[OF p that] .
  show ?case
  proof (cases "w \<in> set (?b # ws)")
    case True
    then show ?thesis using least unfolding r by simp
  next
    case False
    then have "\<not> lt (score w) (score ?b)" using Cons.prems(2) asym by (auto split: if_splits)
    moreover have "proper (score ?b)" using p by simp
    moreover have "\<not> lt (score ?b) (score (select_loop score lt ?b (score ?b) ws))" using least by simp
    ultimately show ?thesis using not_lt_trans unfolding r by blast
  qed
qed

end

interpretation load: load_order f64_lt "\<lambda>x. x \<noteq> NaN"
proof
  fix x y :: f64
  show "f64_lt x y \<Longrightarrow> \<not> f64_lt y x" by (metis f64_lt_irrefl f64_lt_trans)
qed (simp_all add: f64_not_lt_trans)

section \<open>The scheduler's workers\<close>

text \<open>
  The state of \<open>Scheduler\<close> that selection uses.  \<open>workerStore\<close> is allocated and never used; \<open>SelectFunc\<close>
  is a field that can be replaced.
\<close>

record scheduler =
  sch_worker_store :: hb_store
  sch_select :: "heartbeat list \<Rightarrow> heartbeat option"
  sch_running :: bool
  sch_workers :: "string \<rightharpoonup> heartbeat"

definition new_scheduler :: scheduler where
  "new_scheduler = \<lparr>sch_worker_store = new_hb_store, sch_select = select_lowest_load_worker,
     sch_running = False, sch_workers = Map.empty\<rparr>"

definition get_worker_stats :: "string list \<Rightarrow> int \<Rightarrow> scheduler \<Rightarrow> heartbeat list" where
  "get_worker_stats ks now s = filter (\<lambda>w. is_healthy w now) (map_values ks (sch_workers s))"

definition select_worker :: "string list \<Rightarrow> int \<Rightarrow> scheduler \<Rightarrow> heartbeat option" where
  "select_worker ks now s =
     (let candidates = filter (\<lambda>w. is_healthy w now) (map_values ks (sch_workers s))
      in if candidates = [] then None else sch_select s candidates)"

definition select_by_invocation :: "string list \<Rightarrow> int \<Rightarrow> uuid \<Rightarrow> scheduler \<Rightarrow> heartbeat option" where
  "select_by_invocation ks now i s = select_worker ks now s"

lemma select_worker_None_iff:
  assumes "ranges_over ks (sch_workers s)" "sch_select s = select_lowest_load_worker"
  shows "select_worker ks now s = None \<longleftrightarrow> (\<forall>w \<in> ran (sch_workers s). \<not> is_healthy w now)"
proof -
  have "filter (\<lambda>w. is_healthy w now) (map_values ks (sch_workers s)) = [] \<longleftrightarrow>
      (\<forall>w \<in> ran (sch_workers s). \<not> is_healthy w now)"
    using set_map_values_ran[OF assms(1)] by (simp add: filter_empty_conv)
  then show ?thesis
    by (auto simp: select_worker_def assms(2) select_lowest_load_worker_def Let_def split: list.splits)
qed

lemma select_worker_least:
  assumes "ranges_over ks (sch_workers s)" "sch_select s = select_lowest_load_worker"
    and "\<forall>w \<in> ran (sch_workers s). calculate_load w \<noteq> NaN"
    and "select_worker ks now s = Some w"
  shows "w \<in> ran (sch_workers s) \<and> is_healthy w now"
    and "w' \<in> ran (sch_workers s) \<Longrightarrow> is_healthy w' now \<Longrightarrow> \<not> f64_lt (calculate_load w') (calculate_load w)"
proof -
  let ?c = "filter (\<lambda>w. is_healthy w now) (map_values ks (sch_workers s))"
  have set: "set ?c = {w \<in> ran (sch_workers s). is_healthy w now}"
    using set_map_values_ran[OF assms(1)] by auto
  obtain b bs where c: "?c = b # bs"
    using assms(4) by (cases ?c) (auto simp: select_worker_def Let_def)
  have w: "w = select_loop calculate_load f64_lt b (calculate_load b) bs"
    using assms(4) c by (simp add: select_worker_def Let_def assms(2) select_lowest_load_worker_def)
  have proper: "\<forall>v \<in> set (b # bs). calculate_load v \<noteq> NaN"
    using set assms(3) unfolding c by blast
  show "w \<in> ran (sch_workers s) \<and> is_healthy w now"
    using load.loop_in[of calculate_load b bs] set unfolding c w by blast
  show "\<not> f64_lt (calculate_load w') (calculate_load w)" if "w' \<in> ran (sch_workers s)" "is_healthy w' now"
    using load.loop_least[OF proper, of w'] that set unfolding c w by blast
qed

section \<open>Properties\<close>

definition demo_heartbeat :: "string \<Rightarrow> int \<Rightarrow> int \<Rightarrow> heartbeat" where
  "demo_heartbeat w run av = \<lparr>hb_id = w, hb_host = ''localhost'', hb_cpu = Fin (1 / 4), hb_mem = Fin 0,
     hb_running = run, hb_avail = av, hb_total = 10, hb_time = 1000\<rparr>"

definition demo_scheduler :: scheduler where
  "demo_scheduler = new_scheduler\<lparr>sch_workers :=
     [''a'' \<mapsto> demo_heartbeat ''a'' 2 8, ''b'' \<mapsto> demo_heartbeat ''b'' 5 5]\<rparr>"

lemma demo_ranges: "ranges_over [''b'', ''a''] (sch_workers demo_scheduler)"
  by (auto simp: ranges_over_def demo_scheduler_def)

lemma demo_loads: "w \<in> ran (sch_workers demo_scheduler) \<Longrightarrow> calculate_load w \<noteq> NaN"
  by (rule calculate_load_not_NaN[of _ "1 / 4"])
    (auto simp: demo_scheduler_def demo_heartbeat_def in_int64_def ran_def split: if_splits)

text \<open>
  A heartbeat with processor usage in [0, 1] and no more running tasks than free slots has a load
  in [0, 1], rounding included.
\<close>

theorem load_in_unit_interval:
  assumes "hb_cpu h = Fin c" "0 \<le> c" "c \<le> 1" "0 \<le> hb_running h" "hb_running h \<le> hb_avail h" "hb_avail h \<le> 2 ^ 52"
  shows "\<exists>l. calculate_load h = Fin l \<and> 0 \<le> l \<and> l \<le> 1"
proof (cases "0 < hb_avail h")
  case True
  then show ?thesis
    using assms load_value_nonneg[of "hb_avail h" c "hb_running h"] load_value_le_1[of "hb_avail h" c "hb_running h"]
    by (simp add: calculate_load_value[of h c])
qed (simp add: calculate_load_def)

theorem load_in_unit_interval_witness:
  "\<exists>l. calculate_load (demo_heartbeat ''a'' 2 8) = Fin l \<and> 0 \<le> l \<and> l \<le> 1"
  by (rule load_in_unit_interval[of _ "1 / 4"]) (simp_all add: demo_heartbeat_def)

text \<open>
  With the same number of free slots, a worker with at least the processor usage and at least the
  running tasks of another is never scored below it: rounding does not break the order.
\<close>

theorem load_monotone:
  assumes "hb_cpu h = Fin c" "hb_cpu h' = Fin c'" "\<bar>c\<bar> \<le> 2 ^ 52" "\<bar>c'\<bar> \<le> 2 ^ 52" "c \<le> c'"
    and "\<bar>hb_running h\<bar> \<le> 2 ^ 52" "\<bar>hb_running h'\<bar> \<le> 2 ^ 52" "hb_running h \<le> hb_running h'"
    and "hb_avail h = hb_avail h'" "hb_avail h \<le> 2 ^ 52"
  shows "\<not> f64_lt (calculate_load h') (calculate_load h)"
proof (cases "0 < hb_avail h")
  case True
  then show ?thesis
    using assms load_value_mono[of "hb_avail h" c c' "hb_running h" "hb_running h'"]
    by (simp add: calculate_load_value[of h c] calculate_load_value[of h' c'])
qed (use assms in \<open>simp add: calculate_load_def\<close>)

theorem load_monotone_witness:
  "\<not> f64_lt (calculate_load (demo_heartbeat ''b'' 5 8)) (calculate_load (demo_heartbeat ''a'' 2 8))"
  by (rule load_monotone[of _ "1 / 4" _ "1 / 4"]) (simp_all add: demo_heartbeat_def)

text \<open>
  C8. Whatever order the map of workers is visited in, the scheduler picks a worker exactly when one
  is healthy, and then a healthy worker that no other healthy worker is less loaded than.
\<close>

theorem scheduler_picks_least_loaded:
  assumes "ranges_over ks (sch_workers s)" "sch_select s = select_lowest_load_worker"
    and "\<forall>w \<in> ran (sch_workers s). calculate_load w \<noteq> NaN"
  shows "case select_worker ks now s of
      None \<Rightarrow> \<forall>w \<in> ran (sch_workers s). \<not> is_healthy w now
    | Some w \<Rightarrow> w \<in> ran (sch_workers s) \<and> is_healthy w now \<and>
        (\<forall>w' \<in> ran (sch_workers s). is_healthy w' now \<longrightarrow> \<not> f64_lt (calculate_load w') (calculate_load w))"
  using select_worker_None_iff[OF assms(1,2), of now] select_worker_least[OF assms]
  by (auto split: option.splits)

theorem scheduler_picks_least_loaded_witness:
  "case select_worker [''b'', ''a''] (time_unix 1010) demo_scheduler of
      None \<Rightarrow> \<forall>w \<in> ran (sch_workers demo_scheduler). \<not> is_healthy w (time_unix 1010)
    | Some w \<Rightarrow> w \<in> ran (sch_workers demo_scheduler) \<and> is_healthy w (time_unix 1010) \<and>
        (\<forall>w' \<in> ran (sch_workers demo_scheduler). is_healthy w' (time_unix 1010) \<longrightarrow>
           \<not> f64_lt (calculate_load w') (calculate_load w))"
  by (rule scheduler_picks_least_loaded[OF demo_ranges])
    (auto simp: demo_loads simp: demo_scheduler_def new_scheduler_def)

text \<open>
  The score is the ratio of running tasks to free slots, and a worker with no free slot scores 1.
  A worker with a third as many free slots as running tasks therefore scores above a full one: between
  the two, whatever their order, the selection takes the full worker.
\<close>

theorem full_worker_preferred:
  assumes "hb_avail full \<le> 0"
    and "hb_cpu busy = Fin c" "0 \<le> c" "c \<le> 1" "0 < hb_avail busy" "3 * hb_avail busy \<le> hb_running busy"
      "hb_running busy \<le> 2 ^ 52"
  shows "select_lowest_load_worker [full, busy] = Some full \<and> select_lowest_load_worker [busy, full] = Some full"
proof -
  have "(3 :: rat) \<le> of_int (hb_running busy) / of_int (hb_avail busy)"
    using assms(5,6) by (simp add: le_divide_eq)
  then have "3 \<le> rnd (of_int (hb_running busy) / of_int (hb_avail busy))"
    using f64.ge_int[of 3] by simp
  then have "of_int 3 * 2 powi - 1 \<le> 1 / 2 * rnd (of_int (hb_running busy) / of_int (hb_avail busy))"
    by (simp add: power_int_minus)
  from f64.mono[OF this] have "3 / 2 \<le> rnd (1 / 2 * rnd (of_int (hb_running busy) / of_int (hb_avail busy)))"
    using f64.exact[of 3 "- 1"] by (simp add: power_int_minus)
  moreover have "0 \<le> rnd (1 / 2 * c)" using assms(3) f64.nonneg by simp
  ultimately have "of_int 3 * 2 powi - 1 \<le> rnd (1 / 2 * c) + rnd (1 / 2 * rnd (of_int (hb_running busy) / of_int (hb_avail busy)))"
    by (simp add: power_int_minus)
  from f64.mono[OF this] have "3 / 2 \<le> load_value c (hb_running busy) (hb_avail busy)"
    using f64.exact[of 3 "- 1"] by (simp add: power_int_minus load_value_def)
  moreover have "calculate_load busy = Fin (load_value c (hb_running busy) (hb_avail busy))"
    using assms by (intro calculate_load_value) auto
  moreover have "calculate_load full = Fin 1" using assms(1) by (simp add: calculate_load_def)
  ultimately show ?thesis
    by (simp add: select_lowest_load_worker_def Let_def)
qed

theorem full_worker_preferred_witness:
  "select_lowest_load_worker [demo_heartbeat ''full'' 10 0, demo_heartbeat ''busy'' 8 2] = Some (demo_heartbeat ''full'' 10 0)"
  by (rule full_worker_preferred[where c = "1 / 4", THEN conjunct1]) (simp_all add: demo_heartbeat_def)

text \<open>
  C32. \<open>CleanStale\<close> keeps exactly the healthy workers, whatever order it visits the map in, and returns
  how many it removed; afterwards \<open>Count\<close> is what \<open>CountHealthy\<close> was before.
\<close>

theorem clean_stale_exact:
  assumes "ranges_over ks (hs_workers s)" "hs_clean_stale ks now s = (n, s')"
  shows "hs_workers s' = healthy_map now (hs_workers s) \<and> n + hs_count s' = hs_count s \<and>
     hs_count s' = hs_count_healthy ks now s"
proof -
  have fin: "finite (dom (hs_workers s))" "distinct ks" "set ks \<subseteq> dom (hs_workers s)"
    using assms(1) by (auto simp: ranges_over_def) (metis finite_set)
  have w: "hs_workers s' = healthy_map now (hs_workers s)"
    using clean_stale_workers[OF assms(1), of now] assms(2) by simp
  have "n = snd (clean_loop now ks (hs_workers s) 0)" "hs_workers s' = fst (clean_loop now ks (hs_workers s) 0)"
    using assms(2) by (auto simp: hs_clean_stale_def split: prod.splits)
  then have "n + hs_count s' = hs_count s"
    using clean_loop_count[OF fin(2,3,1), of now 0] by (simp add: hs_count_def)
  then show ?thesis using w count_healthy_card[OF assms(1), of now] by (simp add: hs_count_def)
qed

definition demo_hb_store :: hb_store where
  "demo_hb_store = hs_update (demo_heartbeat ''b'' 1 9) (hs_update (demo_heartbeat ''a'' 2 8) new_hb_store)"

theorem clean_stale_exact_witness:
  "let s' = snd (hs_clean_stale [''a'', ''b''] (time_unix 2000) demo_hb_store) in
   hs_workers s' = healthy_map (time_unix 2000) (hs_workers demo_hb_store) \<and>
   fst (hs_clean_stale [''a'', ''b''] (time_unix 2000) demo_hb_store) + hs_count s' = hs_count demo_hb_store"
proof -
  have r: "ranges_over [''a'', ''b''] (hs_workers demo_hb_store)"
    by (auto simp: ranges_over_def demo_hb_store_def hs_update_def new_hb_store_def demo_heartbeat_def)
  from clean_stale_exact[OF r prod.collapse[symmetric], of "time_unix 2000"] show ?thesis by (simp add: Let_def)
qed

end
