(* ===== verification/Dispatch.thy ===== *)
theory Dispatch
  imports JobQueue WorkerPool
begin

text \<open>
  The loops of \<open>internal/scheduler/scheduler.go\<close>: one tick of \<open>processHeartbeats\<close> and one round of
  \<open>dispatchJobs\<close>.  \<open>dispatchOneJob\<close> is split after \<open>DequeueJobs\<close>, since other clients of the Redis
  server may run between the two halves.
\<close>

section \<open>Operations\<close>

text \<open>One message of a heartbeat read: parsed, validated, recorded and acknowledged, or skipped.\<close>

definition heartbeat_msg :: "'r redis \<Rightarrow> xmsg \<Rightarrow> scheduler \<times> 'r \<Rightarrow> scheduler \<times> 'r" where
  "heartbeat_msg R m = (\<lambda>(s, r).
     case msg_data m of
       None \<Rightarrow> (s, r)
     | Some t \<Rightarrow>
         (case unmarshal_heartbeat t of
            None \<Rightarrow> (s, r)
          | Some hb \<Rightarrow>
              if validate_heartbeat hb \<noteq> None then (s, r)
              else (s\<lparr>sch_workers := (sch_workers s)(hb_id hb \<mapsto> hb)\<rparr>,
                    snd (rd_xack R ''nimbusrun:heartbeats'' ''scheduler-heartbeats'' (xm_id m) r))))"

definition heartbeat_tick :: "'r redis \<Rightarrow> scheduler \<times> 'r \<Rightarrow> scheduler \<times> 'r" where
  "heartbeat_tick R = (\<lambda>(s, r).
     case rd_xreadgroup R ''scheduler-heartbeats'' ''scheduler'' ''nimbusrun:heartbeats'' 100 r of
       (RNil, r') \<Rightarrow> (s, r')
     | (RErr e, r') \<Rightarrow> (s, r')
     | (RVal ss, r') \<Rightarrow> fold (heartbeat_msg R) (concat (map snd ss)) (s, r'))"

text \<open>
  \<open>Start\<close>: the group of the dispatcher, then the two loops.  \<open>processHeartbeats\<close> begins by creating its
  group with \<open>RegisterConsumerGroup\<close>, that is, on the job stream, and goes on when that fails.
\<close>

definition scheduler_start :: "'r redis \<Rightarrow> rqueue \<Rightarrow> scheduler \<times> 'r \<Rightarrow> string option \<times> scheduler \<times> 'r" where
  "scheduler_start R q = (\<lambda>(s, r).
     let s' = s\<lparr>sch_running := True\<rparr>
     in case register_consumer_group R q ''scheduler'' r of
          (Some e, r') \<Rightarrow> (Some (''registering scheduler consumer group: '' @ e), s', r')
        | (None, r') \<Rightarrow> (None, s', snd (register_consumer_group R q ''scheduler-heartbeats'' r')))"

definition scheduler_stop :: "scheduler \<Rightarrow> scheduler" where
  "scheduler_stop s = s\<lparr>sch_running := False\<rparr>"

definition worker_stream :: "heartbeat \<Rightarrow> string" where
  "worker_stream w = ''nimbusrun:worker:'' @ hb_id w"

text \<open>The second half of \<open>dispatchOneJob\<close>, with the job it holds.\<close>

definition dispatch_assign ::
  "'r redis \<Rightarrow> ext \<Rightarrow> rqueue \<Rightarrow> string list \<Rightarrow> int \<Rightarrow> uuid \<Rightarrow> scheduler \<Rightarrow> queued_job \<Rightarrow> 'r \<Rightarrow> string option \<times> 'r" where
  "dispatch_assign R X q ks now new_id s qj r =
     (case select_worker ks now s of
        None \<Rightarrow> (None, snd (enqueue_job R X q (qj_job qj) r))
      | Some w \<Rightarrow>
          (case enqueue_job_to_stream R X new_id (worker_stream w) (qj_job qj) r of
             (Some e, r1) \<Rightarrow> (Some e, snd (enqueue_job R X q (qj_job qj) r1))
           | (None, r1) \<Rightarrow> (None, snd (ack_job R q ''scheduler'' (qj_id qj) r1))))"

definition dispatch_one_job ::
  "'r redis \<Rightarrow> ext \<Rightarrow> rqueue \<Rightarrow> string list \<Rightarrow> int \<Rightarrow> uuid \<Rightarrow> scheduler \<Rightarrow> 'r \<Rightarrow> string option \<times> 'r" where
  "dispatch_one_job R X q ks now new_id s r =
     (case dequeue_jobs R X q ''scheduler'' ''dispatcher-1'' 1 r of
        (Inl ErrNoJobs, r') \<Rightarrow> (None, r')
      | (Inl (DequeueErr e), r') \<Rightarrow> (Some (''dequeuing job: '' @ e), r')
      | (Inr [], r') \<Rightarrow> (None, r')
      | (Inr (qj # _), r') \<Rightarrow> dispatch_assign R X q ks now new_id s qj r')"

section \<open>Effects\<close>

lemma fold_invariant: "(\<And>x s. x \<in> set xs \<Longrightarrow> P s \<Longrightarrow> P (f x s)) \<Longrightarrow> P s \<Longrightarrow> P (fold f xs s)"
  by (induction xs arbitrary: s) auto

lemma heartbeat_msg_keyed:
  "\<forall>k h. sch_workers (fst sr) k = Some h \<longrightarrow> hb_id h = k \<and> validate_heartbeat h = None \<Longrightarrow>
   \<forall>k h. sch_workers (fst (heartbeat_msg R m sr)) k = Some h \<longrightarrow> hb_id h = k \<and> validate_heartbeat h = None"
  by (auto simp: heartbeat_msg_def split: prod.splits option.splits)

context redis_streams
begin

lemma ack_job_effect:
  assumes "ack_job R q g i r = (e, r')"
  shows "strm r' = strm r \<and> grps r' = grps r \<and> seen r' = seen r \<and>
     (\<forall>s' g'. pend r s' g' - (if s' = q_jobs q \<and> g' = g then {i} else {}) \<subseteq> pend r' s' g')"
proof -
  obtain res r1 where x: "rd_xack R (q_jobs q) g i r = (res, r1)" by fastforce
  show ?thesis using assms xack_effect[OF x] x by (simp add: ack_job_def)
qed

lemma heartbeat_msg_redis:
  "strm (snd (heartbeat_msg R m sr)) = strm (snd sr) \<and> grps (snd (heartbeat_msg R m sr)) = grps (snd sr)"
proof -
  obtain s r where sr: "sr = (s, r)" by fastforce
  obtain res r1 where x: "rd_xack R ''nimbusrun:heartbeats'' ''scheduler-heartbeats'' (xm_id m) r = (res, r1)" by fastforce
  show ?thesis using xack_effect[OF x] x by (auto simp: sr heartbeat_msg_def split: option.splits)
qed

lemma heartbeat_tick_redis:
  assumes "heartbeat_tick R (s, r) = (s', r')" shows "strm r' = strm r \<and> grps r' = grps r"
proof -
  obtain res r1 where rg: "rd_xreadgroup R ''scheduler-heartbeats'' ''scheduler'' ''nimbusrun:heartbeats'' 100 r = (res, r1)"
    by fastforce
  have r1: "strm r1 = strm r \<and> grps r1 = grps r" using readgroup_streams[OF rg] .
  have "strm (snd (fold (heartbeat_msg R) ms (s, r1))) = strm r \<and> grps (snd (fold (heartbeat_msg R) ms (s, r1))) = grps r" for ms
  proof (rule fold_invariant[where P = "\<lambda>sr. strm (snd sr) = strm r \<and> grps (snd sr) = grps r"])
    show "strm (snd (heartbeat_msg R m sr)) = strm r \<and> grps (snd (heartbeat_msg R m sr)) = grps r"
      if "strm (snd sr) = strm r \<and> grps (snd sr) = grps r" for m sr
      using that heartbeat_msg_redis[of m sr] by simp
  qed (use r1 in simp)
  then show ?thesis using assms r1 rg
    by (auto simp: heartbeat_tick_def split: rres.splits) (metis snd_conv)+
qed

text \<open>Without the group, a tick learns nothing.\<close>

lemma heartbeat_tick_nogroup:
  assumes "(''nimbusrun:heartbeats'', ''scheduler-heartbeats'') \<notin> grps r" "heartbeat_tick R (s, r) = (s', r')"
  shows "s' = s"
proof -
  obtain res r1 where rg: "rd_xreadgroup R ''scheduler-heartbeats'' ''scheduler'' ''nimbusrun:heartbeats'' 100 r = (res, r1)"
    by fastforce
  obtain e where "res = RErr e" using readgroup_nogroup[OF assms(1) rg] by blast
  then show ?thesis using assms(2) rg by (simp add: heartbeat_tick_def)
qed

lemma register_effect:
  "register_consumer_group R q g r = (e, r') \<Longrightarrow>
     strm r' = strm r \<and> grps r \<subseteq> grps r' \<and> grps r' \<subseteq> insert (q_jobs q, g) (grps r) \<and> seen r' = seen r \<and> pend r' = pend r"
  by (auto simp: register_consumer_group_def split: prod.splits dest!: group_streams)

lemma assign_effect:
  assumes "dispatch_assign R X q ks now i s qj r = (e, r')"
  shows "grps r' = grps r \<and> seen r' = seen r \<and> (\<exists>ms. strm r' t = strm r t @ ms)"
proof (cases "select_worker ks now s")
  case None
  obtain e2 r2 where a: "enqueue_job R X q (qj_job qj) r = (e2, r2)" by fastforce
  then show ?thesis
    using None assms enqueue_groups[OF a] enqueue_grows[OF a, of t] by (auto simp: dispatch_assign_def)
next
  case (Some w)
  obtain e1 r1 where to: "enqueue_job_to_stream R X i (worker_stream w) (qj_job qj) r = (e1, r1)" by fastforce
  obtain ms where r1: "grps r1 = grps r" "seen r1 = seen r" "strm r1 t = strm r t @ ms"
    using to_stream_groups[OF to] to_stream_grows[OF to, of t] by auto
  show ?thesis
  proof (cases e1)
    case None
    obtain e2 r2 where a: "ack_job R q ''scheduler'' (qj_id qj) r1 = (e2, r2)" by fastforce
    then show ?thesis using assms Some to None r1 ack_job_effect[OF a] by (auto simp: dispatch_assign_def)
  next
    case (Some x)
    obtain e2 r2 where a: "enqueue_job R X q (qj_job qj) r1 = (e2, r2)" by fastforce
    then show ?thesis
      using assms \<open>select_worker ks now s = Some w\<close> to Some r1 enqueue_groups[OF a] enqueue_grows[OF a, of t]
      by (auto simp: dispatch_assign_def)
  qed
qed

end

section \<open>Properties\<close>

text \<open>
  C2. The scheduler never loses a job it has dequeued: after an assignment, whichever commands fail,
  either the entry is still pending for the scheduler, or the stream of the chosen worker holds a
  message that decodes to the very job.  No stream loses an entry.
\<close>

theorem dispatch_never_loses_a_job:
  assumes "redis_streams R strm grps seen pend" "ext_codec X" "job_ok (qj_job qj)"
    and "qj_id qj \<in> pend r (q_jobs q) ''scheduler''"
    and "dispatch_assign R X q ks now new_id s qj r = (e, r')"
  shows "(qj_id qj \<in> pend r' (q_jobs q) ''scheduler'' \<or>
      (\<exists>w m. select_worker ks now s = Some w \<and> m \<in> set (strm r' (worker_stream w)) \<and> carries X m (qj_job qj))) \<and>
     (\<forall>t. \<exists>ms. strm r' t = strm r t @ ms)"
proof -
  note S = assms(1)
  have grows: "\<forall>t. \<exists>ms. strm r' t = strm r t @ ms" using redis_streams.assign_effect[OF S assms(5)] by blast
  show ?thesis
  proof (cases "select_worker ks now s")
    case None
    obtain e2 r2 where a: "enqueue_job R X q (qj_job qj) r = (e2, r2)" by fastforce
    then show ?thesis
      using None assms(4,5) redis_streams.enqueue_groups[OF S a] grows by (auto simp: dispatch_assign_def)
  next
    case (Some w)
    obtain e1 r1 where to: "enqueue_job_to_stream R X new_id (worker_stream w) (qj_job qj) r = (e1, r1)" by fastforce
    have p1: "pend r1 = pend r" using redis_streams.to_stream_groups[OF S to] by simp
    show ?thesis
    proof (cases e1)
      case None
      obtain i js where js: "job_json X (qj_job qj) = Some js"
        "strm r1 = (strm r)(worker_stream w := strm r (worker_stream w) @ [\<lparr>xm_id = i, xm_values = job_fields (uuid_str X new_id) js\<rparr>])"
        using redis_streams.to_stream_ok[OF S to[unfolded None]] by metis
      obtain e2 r2 where a: "ack_job R q ''scheduler'' (qj_id qj) r1 = (e2, r2)" by fastforce
      have "r' = r2" using assms(5) Some to None a by (simp add: dispatch_assign_def)
      then have "strm r' = strm r1" using redis_streams.ack_job_effect[OF S a] by simp
      moreover have "carries X \<lparr>xm_id = i, xm_values = job_fields (uuid_str X new_id) js\<rparr> (qj_job qj)"
        using job_json_decodes[OF assms(2,3) js(1)] by (simp add: carries_def)
      ultimately show ?thesis using Some grows js(2) by auto
    next
      case (Some x)
      obtain e2 r2 where a: "enqueue_job R X q (qj_job qj) r1 = (e2, r2)" by fastforce
      then show ?thesis
        using assms(4,5) \<open>select_worker ks now s = Some w\<close> to Some p1 redis_streams.enqueue_groups[OF S a] grows
        by (auto simp: dispatch_assign_def)
    qed
  qed
qed

definition demo_delivered :: ref_state where
  "demo_delivered = snd (dequeue_jobs ref_redis ref_ext demo_queue ''scheduler'' ''dispatcher-1'' 1 demo_enqueued)"

definition demo_queued :: queued_job where
  "demo_queued = \<lparr>qj_id = ''x'', qj_job = demo_job, qj_claim = ''dispatcher-1''\<rparr>"

lemma demo_delivered_pending: "''x'' \<in> set (ref_pend demo_delivered ''nimbusrun:jobs'' ''scheduler'')"
proof -
  obtain js where js: "job_json ref_ext demo_job = Some js" using demo_job_json by blast
  show ?thesis
    by (simp add: demo_delivered_def demo_enqueued_def enqueue_job_def js ref_xadd_def dequeue_jobs_def
        ref_readgroup_def demo_queue_def ref_state0_def ref_seen_def ref_pend_def ref_id_def Let_def)
qed

theorem dispatch_never_loses_a_job_witness:
  "let r' = snd (dispatch_assign ref_redis ref_ext demo_queue [''b'', ''a''] (time_unix 1010) 9 demo_scheduler demo_queued demo_delivered) in
   (''x'' \<in> set (ref_pend r' ''nimbusrun:jobs'' ''scheduler'') \<or>
      (\<exists>w m. select_worker [''b'', ''a''] (time_unix 1010) demo_scheduler = Some w \<and>
         m \<in> set (rs_strm r' (worker_stream w)) \<and> carries ref_ext m demo_job)) \<and>
   (\<forall>t. \<exists>ms. rs_strm r' t = rs_strm demo_delivered t @ ms)"
  using dispatch_never_loses_a_job[OF ref_streams.redis_streams_axioms ref_ext.ext_codec_axioms, of demo_queued
      demo_delivered demo_queue "[''b'', ''a'']" "time_unix 1010" 9 demo_scheduler, OF _ _ prod.collapse[symmetric]]
    demo_job_ok demo_delivered_pending
  by (simp add: Let_def demo_queued_def demo_queue_def)

text \<open>
  When no worker is healthy the scheduler puts a copy of the job at the end of the job stream and
  leaves the original pending: nothing acknowledges or deletes it, so each such round leaves one
  more entry of the stream pending for ever.
\<close>

theorem dispatch_without_worker_copies:
  assumes "redis_streams R strm grps seen pend" "ext_codec X" "job_ok (qj_job qj)"
    and "select_worker ks now s = None" "dispatch_assign R X q ks now new_id s qj r = (e, r')"
    and "fst (enqueue_job R X q (qj_job qj) r) = None"
  shows "e = None \<and> pend r' = pend r \<and>
    (\<exists>m. strm r' (q_jobs q) = strm r (q_jobs q) @ [m] \<and> carries X m (qj_job qj))"
proof -
  obtain r1 where enq: "enqueue_job R X q (qj_job qj) r = (None, r1)" using assms(6) by (metis prod.collapse)
  then have r': "r' = r1" "e = None" using assms(4,5) by (simp_all add: dispatch_assign_def)
  obtain i js where js: "job_json X (qj_job qj) = Some js"
    "strm r1 = (strm r)(q_jobs q := strm r (q_jobs q) @
       [\<lparr>xm_id = i, xm_values = job_fields (uuid_str X (job_id (qj_job qj))) js\<rparr>])"
    using redis_streams.enqueue_ok[OF assms(1) enq] by metis
  then have "carries X \<lparr>xm_id = i, xm_values = job_fields (uuid_str X (job_id (qj_job qj))) js\<rparr> (qj_job qj)"
    using job_json_decodes[OF assms(2,3) js(1)] by (simp add: carries_def)
  then show ?thesis using r' js(2) redis_streams.enqueue_groups[OF assms(1) enq] by auto
qed

theorem dispatch_without_worker_copies_witness:
  "let r' = snd (dispatch_assign ref_redis ref_ext demo_queue [] 0 9 new_scheduler demo_queued demo_delivered) in
   (\<exists>m. rs_strm r' ''nimbusrun:jobs'' = rs_strm demo_delivered ''nimbusrun:jobs'' @ [m] \<and> carries ref_ext m demo_job)"
proof -
  obtain js where js: "job_json ref_ext demo_job = Some js" using demo_job_json by blast
  have e: "fst (enqueue_job ref_redis ref_ext demo_queue (qj_job demo_queued) demo_delivered) = None"
    by (simp add: enqueue_job_def js ref_xadd_def demo_queued_def)
  have s: "select_worker [] 0 new_scheduler = None" by (simp add: select_worker_def map_values_def map_filter_simps)
  from dispatch_without_worker_copies[OF ref_streams.redis_streams_axioms ref_ext.ext_codec_axioms _ s prod.collapse[symmetric] e,
      of 9] demo_job_ok
  show ?thesis by (simp add: Let_def demo_queued_def demo_queue_def)
qed

text \<open>
  The scheduler only ever knows validated heartbeats, each under its own worker's identifier.
\<close>

theorem heartbeats_valid_and_keyed:
  assumes "\<forall>k h. sch_workers s k = Some h \<longrightarrow> hb_id h = k \<and> validate_heartbeat h = None"
    and "heartbeat_tick R (s, r) = (s', r')" "sch_workers s' k = Some h"
  shows "hb_id h = k \<and> hb_id h \<noteq> '''' \<and> 0 \<le> hb_avail h"
proof -
  obtain res r1 where rg: "rd_xreadgroup R ''scheduler-heartbeats'' ''scheduler'' ''nimbusrun:heartbeats'' 100 r = (res, r1)"
    by fastforce
  have "\<forall>k h. sch_workers (fst (fold (heartbeat_msg R) ms (s, r1))) k = Some h \<longrightarrow> hb_id h = k \<and> validate_heartbeat h = None" for ms
    by (rule fold_invariant[where P = "\<lambda>sr. \<forall>k h. sch_workers (fst sr) k = Some h \<longrightarrow> hb_id h = k \<and> validate_heartbeat h = None"])
      (rule heartbeat_msg_keyed, use assms(1) in auto)
  from this[of "case res of RVal ss \<Rightarrow> concat (map snd ss) | _ \<Rightarrow> []"]
  have "hb_id h = k \<and> validate_heartbeat h = None"
    using assms rg by (auto simp: heartbeat_tick_def split: rres.splits)
  then show ?thesis by (auto simp: validate_heartbeat_def split: if_splits)
qed

definition demo_beats :: ref_state where
  "demo_beats = ref_state0\<lparr>rs_grps := [(''nimbusrun:heartbeats'', ''scheduler-heartbeats'')],
     rs_strm := (\<lambda>_. [])(''nimbusrun:heartbeats'' := [\<lparr>xm_id = ''x'', xm_values =
       [(''data'', JsonText (JObj [(''worker_id'', JStr ''worker-7''), (''hostname'', JStr ''localhost''),
          (''available_slots'', JInt 10), (''timestamp'', JInt 1000)]))]\<rparr>])\<rparr>"

lemma demo_beats_tick:
  "sch_workers (fst (heartbeat_tick ref_redis (new_scheduler, demo_beats))) ''worker-7'' = Some idle_heartbeat"
  by (simp add: heartbeat_tick_def ref_readgroup_def demo_beats_def ref_state0_def ref_seen_def Let_def
      heartbeat_msg_def msg_data_def unmarshal_heartbeat_def validate_heartbeat_def idle_heartbeat_def in_int64_def)

theorem heartbeats_valid_and_keyed_witness:
  "hb_id idle_heartbeat = ''worker-7'' \<and> hb_id idle_heartbeat \<noteq> '''' \<and> 0 \<le> hb_avail idle_heartbeat"
  by (rule heartbeats_valid_and_keyed[OF _ prod.collapse[symmetric] demo_beats_tick]) (simp add: new_scheduler_def)

end
