(* ===== verification/Worker.thy ===== *)
theory Worker
  imports JobQueue
begin

text \<open>
  The worker: \<open>internal/isolation/limits.go\<close>, \<open>internal/worker/container.go\<close> (one container run) and
  \<open>internal/worker/service.go\<close> (one poll of the job stream, the publication of its results, the
  heartbeat).  The Docker daemon is a parameter, the record \<open>docker\<close>; its API types are modelled by
  the fields the code sets.
\<close>

section \<open>What the Docker API is given\<close>

record container_config =
  cc_image :: string
  cc_cmd :: "string list"
  cc_workdir :: string
  cc_stdout :: bool
  cc_stderr :: bool
  cc_env :: "(string \<times> jtext) list"

text \<open>\<open>hc_pids\<close> is the value behind the pointer \<open>PidsLimit\<close>; an unset network mode is the empty text.\<close>

record host_config =
  hc_capdrop :: "string list"
  hc_readonly :: bool
  hc_network :: string
  hc_tmpfs :: "string list"
  hc_autoremove :: bool
  hc_memory :: int
  hc_nanocpus :: int
  hc_pids :: int

section \<open>Resource limits\<close>

record limits =
  rl_memory :: int
  rl_cpu :: int
  rl_timeout :: int
  rl_pids :: int
  rl_network :: bool
  rl_readonly :: bool
  rl_nonroot :: bool
  rl_scratch :: int

definition default_limits :: limits where
  "default_limits = \<lparr>rl_memory = 128, rl_cpu = 100, rl_timeout = 30, rl_pids = 256, rl_network = False,
     rl_readonly = True, rl_nonroot = True, rl_scratch = 64\<rparr>"

definition apply_to_host_config :: "limits \<Rightarrow> host_config" where
  "apply_to_host_config r = \<lparr>hc_capdrop = [], hc_readonly = rl_readonly r,
     hc_network = (if \<not> rl_network r then ''none'' else ''''), hc_tmpfs = [], hc_autoremove = False,
     hc_memory = wrap64 (wrap64 (rl_memory r * 1024) * 1024), hc_nanocpus = wrap64 (rl_cpu r * 1000000),
     hc_pids = rl_pids r\<rparr>"

definition security_config :: "limits \<Rightarrow> string list \<times> string" where
  "security_config r = ([''ALL''], if rl_nonroot r then ''1000:1000'' else '''')"

text \<open>\<open>Validate\<close>: the error, if any.\<close>

definition validate_limits :: "limits \<Rightarrow> string option" where
  "validate_limits r =
     (if rl_memory r < 32 \<or> rl_memory r > 4096
      then Some (''memory limit '' @ itoa (rl_memory r) @ ''MB out of range [32, 4096]'')
      else if rl_cpu r < 50 \<or> rl_cpu r > 2000
      then Some (''CPU limit '' @ itoa (rl_cpu r) @ ''m out of range [50, 2000]'')
      else if rl_timeout r < 1 \<or> rl_timeout r > 300
      then Some (''timeout '' @ itoa (rl_timeout r) @ ''s out of range [1, 300]'')
      else if rl_pids r < 16 \<or> rl_pids r > 1024
      then Some (''PID limit '' @ itoa (rl_pids r) @ '' out of range [16, 1024]'')
      else None)"

definition format_memory :: "limits \<Rightarrow> string" where
  "format_memory r = itoa (rl_memory r) @ ''MB''"

definition limits_timeout :: "limits \<Rightarrow> int" where
  "limits_timeout r = wrap64 (rl_timeout r * second)"

text \<open>\<open>ContextWithTimeout\<close>: the deadline of the context, given the parent's and the current time.\<close>

definition context_with_timeout :: "limits \<Rightarrow> int \<Rightarrow> int option \<Rightarrow> int option" where
  "context_with_timeout r now parent =
     (let d = now + limits_timeout r
      in Some (case parent of None \<Rightarrow> d | Some p \<Rightarrow> min p d))"

section \<open>Running a container\<close>

record run_request =
  rr_inv :: uuid
  rr_image :: string
  rr_entry :: string
  rr_payload :: jmap
  rr_memory :: int
  rr_cpu :: int
  rr_timeout :: int
  rr_name :: string
  rr_pids :: int

record container_result =
  cr_stdout :: string
  cr_stderr :: string
  cr_exit :: int
  cr_duration :: int
  cr_err :: "string option"

text \<open>Which channel the \<open>select\<close> after \<open>ContainerWait\<close> receives from, and what.\<close>

datatype wait_event = CtxDone string | WaitError "string option" | WaitResult int

record 'k docker =
  dk_pull :: "string \<Rightarrow> 'k \<Rightarrow> string option \<times> 'k"
  dk_create :: "container_config \<Rightarrow> host_config \<Rightarrow> string \<Rightarrow> 'k \<Rightarrow> (string + string) \<times> 'k"
  dk_start :: "string \<Rightarrow> 'k \<Rightarrow> string option \<times> 'k"
  dk_wait :: "string \<Rightarrow> 'k \<Rightarrow> wait_event \<times> 'k"
  dk_kill :: "string \<Rightarrow> string \<Rightarrow> 'k \<Rightarrow> 'k"

definition failed_run :: "string option \<Rightarrow> int \<Rightarrow> container_result" where
  "failed_run e d = \<lparr>cr_stdout = '''', cr_stderr = '''', cr_exit = 0, cr_duration = d, cr_err = e\<rparr>"

definition run_container_config :: "run_request \<Rightarrow> container_config" where
  "run_container_config q = \<lparr>cc_image = rr_image q, cc_cmd = [''python'', ''-m'', rr_entry q],
     cc_workdir = ''/app'', cc_stdout = True, cc_stderr = True,
     cc_env = [(''NIMBUS_PAYLOAD'', JsonText (enc_map (rr_payload q))), (''NIMBUS_TIMEOUT'', RawText (itoa (rr_timeout q)))]\<rparr>"

definition run_host_config :: "run_request \<Rightarrow> host_config" where
  "run_host_config q = \<lparr>hc_capdrop = [''ALL''], hc_readonly = True, hc_network = ''none'', hc_tmpfs = [''/tmp''],
     hc_autoremove = True, hc_memory = wrap64 (wrap64 (rr_memory q * 1024) * 1024),
     hc_nanocpus = wrap64 (rr_cpu q * 1000000), hc_pids = (if rr_pids q > 0 then rr_pids q else 256)\<rparr>"

text \<open>
  \<open>Run\<close>, between the instants \<open>t0\<close> and \<open>t1\<close>.  The goroutine copies an empty buffer into \<open>stdout\<close> and
  nothing is ever written to \<open>stderr\<close>.
\<close>

definition run :: "'k docker \<Rightarrow> int \<Rightarrow> int \<Rightarrow> run_request \<Rightarrow> 'k \<Rightarrow> container_result \<times> 'k" where
  "run D t0 t1 q k =
     (case dk_pull D (rr_image q) k of
        (Some e, k1) \<Rightarrow> (failed_run (Some (''pulling image: '' @ e)) 0, k1)
      | (None, k1) \<Rightarrow>
          (case dk_create D (run_container_config q) (run_host_config q) (rr_name q) k1 of
             (Inl e, k2) \<Rightarrow> (failed_run (Some (''creating container: '' @ e)) 0, k2)
           | (Inr c, k2) \<Rightarrow>
               (case dk_start D c k2 of
                  (Some e, k3) \<Rightarrow> (failed_run (Some (''starting container: '' @ e)) 0, k3)
                | (None, k3) \<Rightarrow>
                    (case dk_wait D c k3 of
                       (CtxDone e, k4) \<Rightarrow> (failed_run (Some e) (time_sub t1 t0), dk_kill D c ''SIGKILL'' k4)
                     | (WaitError e, k4) \<Rightarrow> (failed_run e (time_sub t1 t0), dk_kill D c ''SIGKILL'' k4)
                     | (WaitResult code, k4) \<Rightarrow>
                         (\<lparr>cr_stdout = '''', cr_stderr = '''', cr_exit = code,
                           cr_duration = time_sub t1 t0, cr_err = None\<rparr>, k4)))))"

section \<open>The worker service\<close>

text \<open>\<open>worker.Job\<close>: the fields of a queued job the worker reads.\<close>

record wjob =
  wj_inv :: string
  wj_fn :: string
  wj_ver :: string
  wj_image :: string
  wj_entry :: string
  wj_payload :: jmap
  wj_memory :: int
  wj_cpu :: int
  wj_timeout :: int
  wj_retries :: int
  wj_key :: string

definition unmarshal_wjob :: "jtext \<Rightarrow> wjob option" where
  "unmarshal_wjob t = do {
     kvs \<leftarrow> unmarshal_object t;
     inv \<leftarrow> dec_field ''invocation_id'' dec_string kvs '''';
     fn \<leftarrow> dec_field ''function_id'' dec_string kvs '''';
     ver \<leftarrow> dec_field ''version_id'' dec_string kvs '''';
     img \<leftarrow> dec_field ''image_uri'' dec_string kvs '''';
     ent \<leftarrow> dec_field ''entrypoint'' dec_string kvs '''';
     pay \<leftarrow> dec_field ''payload'' dec_map kvs None;
     mem \<leftarrow> dec_field ''memory_limit_mb'' dec_int kvs 0;
     cpu \<leftarrow> dec_field ''cpu_limit_millicores'' dec_int kvs 0;
     tmo \<leftarrow> dec_field ''timeout_seconds'' dec_int kvs 0;
     ret \<leftarrow> dec_field ''retry_count'' dec_int kvs 0;
     key \<leftarrow> dec_field ''idempotency_key'' dec_string kvs '''';
     Some \<lparr>wj_inv = inv, wj_fn = fn, wj_ver = ver, wj_image = img, wj_entry = ent, wj_payload = pay,
       wj_memory = mem, wj_cpu = cpu, wj_timeout = tmo, wj_retries = ret, wj_key = key\<rparr>}"

record wresult =
  wr_exit :: int
  wr_duration :: int
  wr_stdout :: string
  wr_stderr :: string

record wservice =
  ws_id :: string
  ws_queue :: string
  ws_consumer :: string

text \<open>What one execution draws from its surroundings: two identifiers and three readings of the clock.\<close>

record wenv =
  we_inv :: uuid
  we_name :: uuid
  we_start :: int
  we_end :: int
  we_now :: int

definition run_request_of :: "ext \<Rightarrow> wenv \<Rightarrow> wjob \<Rightarrow> run_request" where
  "run_request_of X e j = \<lparr>rr_inv = we_inv e, rr_image = wj_image j, rr_entry = wj_entry j,
     rr_payload = wj_payload j, rr_memory = wj_memory j, rr_cpu = wj_cpu j, rr_timeout = wj_timeout j,
     rr_name = ''nimbus-'' @ take 8 (uuid_str X (we_name e)), rr_pids = 0\<rparr>"

definition execute_job :: "'k docker \<Rightarrow> ext \<Rightarrow> wenv \<Rightarrow> wjob \<Rightarrow> 'k \<Rightarrow> wresult \<times> 'k" where
  "execute_job D X e j k =
     (let (c, k') = run D (we_start e) (we_end e) (run_request_of X e j) k
      in (\<lparr>wr_exit = cr_exit c, wr_duration = cr_duration c, wr_stdout = cr_stdout c, wr_stderr = cr_stderr c\<rparr>, k'))"

definition published_json :: "wservice \<Rightarrow> int \<Rightarrow> wjob \<Rightarrow> wresult \<Rightarrow> json" where
  "published_json w now j res = JObj
     [(''invocation_id'', JStr (wj_inv j)), (''function_id'', JStr (wj_fn j)), (''version_id'', JStr (wj_ver j)),
      (''status'', JStr ''SUCCESS''), (''exit_code'', JInt (wr_exit res)),
      (''duration_ms'', JInt (milliseconds (wr_duration res))), (''stdout'', JStr (wr_stdout res)),
      (''stderr'', JStr (wr_stderr res)), (''worker_id'', JStr (ws_id w)), (''timestamp'', JInt (unix_milli now))]"

definition publish_result :: "'r redis \<Rightarrow> wservice \<Rightarrow> int \<Rightarrow> wjob \<Rightarrow> wresult \<Rightarrow> 'r \<Rightarrow> string option \<times> 'r" where
  "publish_result R w now j res r =
     (let (x, r') = rd_xadd R ''nimbusrun:results'' [(''data'', JsonText (published_json w now j res))] r
      in (go_err x, r'))"

definition worker_ack :: "'r redis \<Rightarrow> wservice \<Rightarrow> string \<Rightarrow> 'r \<Rightarrow> 'r" where
  "worker_ack R w i r = snd (rd_xack R (ws_queue w) (ws_id w) i r)"

text \<open>How \<open>processNextJob\<close> ends: a message without \<open>data\<close> fails the type assertion, a panic.\<close>

datatype worker_end = WorkerOk | WorkerErr string | WorkerPanic

text \<open>The loop over the messages; the environment is indexed by the message.\<close>

fun process_msgs ::
  "'r redis \<Rightarrow> 'k docker \<Rightarrow> ext \<Rightarrow> wservice \<Rightarrow> (nat \<Rightarrow> wenv) \<Rightarrow> nat \<Rightarrow> xmsg list \<Rightarrow> 'k \<Rightarrow> 'r \<Rightarrow> worker_end \<times> 'k \<times> 'r"
where
  "process_msgs R D X w E n [] k r = (WorkerOk, k, r)"
| "process_msgs R D X w E n (m # ms) k r =
     (case msg_data m of
        None \<Rightarrow> (WorkerPanic, k, r)
      | Some t \<Rightarrow>
          (case unmarshal_wjob t of
             None \<Rightarrow> process_msgs R D X w E (Suc n) ms k (worker_ack R w (xm_id m) r)
           | Some j \<Rightarrow>
               (let (res, k') = execute_job D X (E n) j k;
                    (_, r1) = publish_result R w (we_now (E n)) j res r
                in process_msgs R D X w E (Suc n) ms k' (worker_ack R w (xm_id m) r1))))"

definition process_next_job ::
  "'r redis \<Rightarrow> 'k docker \<Rightarrow> ext \<Rightarrow> wservice \<Rightarrow> (nat \<Rightarrow> wenv) \<Rightarrow> 'k \<Rightarrow> 'r \<Rightarrow> worker_end \<times> 'k \<times> 'r" where
  "process_next_job R D X w E k r =
     (case rd_xreadgroup R (ws_id w) (ws_consumer w) (ws_queue w) 1 r of
        (RNil, r') \<Rightarrow> (WorkerOk, k, r')
      | (RErr e, r') \<Rightarrow> (WorkerErr (''reading from stream: '' @ e), k, r')
      | (RVal ss, r') \<Rightarrow> process_msgs R D X w E 0 (concat (map snd ss)) k r')"

text \<open>
  \<open>Start\<close>: a poll at every tick until the context is cancelled; an error of a poll is logged, a panic ends
  the process.  The list holds what surrounds each poll.
\<close>

fun worker_start ::
  "'r redis \<Rightarrow> 'k docker \<Rightarrow> ext \<Rightarrow> wservice \<Rightarrow> (nat \<Rightarrow> wenv) list \<Rightarrow> 'k \<Rightarrow> 'r \<Rightarrow> worker_end \<times> 'k \<times> 'r" where
  "worker_start R D X w [] k r = (WorkerErr ''context canceled'', k, r)"
| "worker_start R D X w (E # Es) k r =
     (case process_next_job R D X w E k r of
        (WorkerPanic, k', r') \<Rightarrow> (WorkerPanic, k', r')
      | (WorkerOk, k', r') \<Rightarrow> worker_start R D X w Es k' r'
      | (WorkerErr e, k', r') \<Rightarrow> worker_start R D X w Es k' r')"

record heartbeat_info =
  hi_id :: string
  hi_host :: string
  hi_cpu :: f64
  hi_mem :: f64
  hi_running :: int
  hi_avail :: int
  hi_time :: int

definition info_json :: "heartbeat_info \<Rightarrow> json option" where
  "info_json h = do {
     c \<leftarrow> enc_f64 (hi_cpu h);
     m \<leftarrow> enc_f64 (hi_mem h);
     Some (JObj [(''worker_id'', JStr (hi_id h)), (''hostname'', JStr (hi_host h)), (''cpu_usage'', c),
       (''memory_usage'', m), (''running_tasks'', JInt (hi_running h)),
       (''available_slots'', JInt (hi_avail h)), (''timestamp'', JInt (hi_time h))])}"

definition send_heartbeat :: "'r redis \<Rightarrow> heartbeat_info \<Rightarrow> 'r \<Rightarrow> string option \<times> 'r" where
  "send_heartbeat R h r =
     (let (x, r') = rd_xadd R ''nimbusrun:heartbeats''
            [(''data'', case info_json h of None \<Rightarrow> RawText '''' | Some js \<Rightarrow> JsonText js)] r
      in (go_err x, r'))"

text \<open>The heartbeat \<open>cmd/worker/main.go\<close> sends every five seconds, and the service it starts.\<close>

definition main_heartbeat :: "int \<Rightarrow> int \<Rightarrow> heartbeat_info" where
  "main_heartbeat pid now = \<lparr>hi_id = ''worker-'' @ itoa pid, hi_host = ''localhost'', hi_cpu = Fin 0, hi_mem = Fin 0,
     hi_running = 0, hi_avail = 10, hi_time = unix_of now\<rparr>"

definition main_service :: "int \<Rightarrow> wservice" where
  "main_service pid = \<lparr>ws_id = ''worker-'' @ itoa pid, ws_queue = ''nimbusrun:jobs'', ws_consumer = ''worker-'' @ itoa pid\<rparr>"

section \<open>Properties\<close>

text \<open>
  C30. Limits that pass \<open>Validate\<close> become exactly the host configuration they describe: the conversions
  to bytes, to billionths of a processor and to nanoseconds do not overflow, and the results are
  within the documented bounds; the defaults pass.
\<close>

theorem validated_limits_exact:
  assumes "validate_limits r = None"
  shows "hc_memory (apply_to_host_config r) = rl_memory r * 2 ^ 20 \<and> 32 * 2 ^ 20 \<le> hc_memory (apply_to_host_config r) \<and>
    hc_memory (apply_to_host_config r) \<le> 2 ^ 32 \<and> hc_nanocpus (apply_to_host_config r) = rl_cpu r * 1000000 \<and>
    16 \<le> hc_pids (apply_to_host_config r) \<and> hc_pids (apply_to_host_config r) \<le> 1024 \<and>
    limits_timeout r = rl_timeout r * second \<and> second \<le> limits_timeout r \<and> limits_timeout r \<le> 300 * second"
proof -
  have b: "32 \<le> rl_memory r" "rl_memory r \<le> 4096" "50 \<le> rl_cpu r" "rl_cpu r \<le> 2000"
    "1 \<le> rl_timeout r" "rl_timeout r \<le> 300" "16 \<le> rl_pids r" "rl_pids r \<le> 1024"
    using assms by (auto simp: validate_limits_def split: if_splits)
  then show ?thesis
    by (simp add: apply_to_host_config_def limits_timeout_def second_def wrap64_id in_int64_def)
qed

theorem validated_limits_exact_witness:
  "hc_memory (apply_to_host_config default_limits) = rl_memory default_limits * 2 ^ 20 \<and>
   limits_timeout default_limits = rl_timeout default_limits * second"
proof -
  have "validate_limits default_limits = None" by (simp add: validate_limits_def default_limits_def)
  from validated_limits_exact[OF this] show ?thesis by simp
qed

text \<open>Which host configurations isolate a container, and a daemon that refuses all others.\<close>

definition isolated :: "host_config \<Rightarrow> bool" where
  "isolated h \<longleftrightarrow> hc_capdrop h = [''ALL''] \<and> hc_readonly h \<and> hc_network h = ''none'' \<and> hc_autoremove h \<and> 0 < hc_pids h"

definition guarded :: "'k docker \<Rightarrow> 'k docker" where
  "guarded D = D\<lparr>dk_create := \<lambda>c h n k. if isolated h then dk_create D c h n k else (Inl ''not isolated'', k)\<rparr>"

lemma guarded_sel [simp]:
  "dk_pull (guarded D) = dk_pull D" "dk_start (guarded D) = dk_start D" "dk_wait (guarded D) = dk_wait D"
  "dk_kill (guarded D) = dk_kill D"
  "dk_create (guarded D) c (run_host_config q) n k = dk_create D c (run_host_config q) n k"
  by (simp_all add: guarded_def isolated_def run_host_config_def)

lemma run_guarded: "run (guarded D) t0 t1 q k = run D t0 t1 q k"
  by (simp add: run_def cong: option.case_cong sum.case_cong prod.case_cong wait_event.case_cong)

lemma process_msgs_guarded: "process_msgs R (guarded D) X w E n ms k r = process_msgs R D X w E n ms k r"
  by (induction R D X w E n ms k r rule: process_msgs.induct)
    (auto simp: execute_job_def run_guarded Let_def split: option.splits prod.splits)

text \<open>
  C5. A worker never creates a container that is not isolated: a Docker daemon that refuses every host
  configuration keeping a capability, a writable root, a network, no automatic removal or no limit on
  processes makes no difference to what a worker does, whatever jobs it reads.
\<close>

theorem worker_runs_isolated:
  "process_next_job R (guarded D) X w E k r = process_next_job R D X w E k r"
  by (simp add: process_next_job_def process_msgs_guarded split: prod.splits rres.splits)

definition published_field :: "string \<Rightarrow> json \<Rightarrow> json option" where
  "published_field f j = (case j of JObj kvs \<Rightarrow> map_of kvs f | _ \<Rightarrow> None)"

lemma run_error_exit_0: "run D t0 t1 q k = (c, k') \<Longrightarrow> cr_err c \<noteq> None \<Longrightarrow> cr_exit c = 0"
  by (auto simp: run_def failed_run_def split: prod.splits option.splits sum.splits wait_event.splits)

text \<open>
  A run that fails, for want of the image, at creation or start, or because the wait ended with an
  error or the context, is published as a success: status \<open>SUCCESS\<close> and exit code 0.
\<close>

theorem failed_run_published_as_success:
  assumes "fst (run D (we_start e) (we_end e) (run_request_of X e j) k) = c" "cr_err c \<noteq> None"
    and "execute_job D X e j k = (res, k')"
  shows "published_field ''status'' (published_json w now j res) = Some (JStr ''SUCCESS'') \<and>
    published_field ''exit_code'' (published_json w now j res) = Some (JInt 0)"
proof -
  obtain k1 where r: "run D (we_start e) (we_end e) (run_request_of X e j) k = (c, k1)"
    using assms(1) by (metis prod.collapse)
  then have "wr_exit res = 0"
    using assms(2,3) run_error_exit_0[OF r] by (auto simp: execute_job_def)
  then show ?thesis by (simp add: published_field_def published_json_def)
qed

text \<open>A daemon that has no image, and a job for it.\<close>

definition no_image_docker :: "unit docker" where
  "no_image_docker = \<lparr>dk_pull = (\<lambda>i k. (Some ''no such image'', k)), dk_create = (\<lambda>c h n k. (Inl '''', k)),
     dk_start = (\<lambda>c k. (None, k)), dk_wait = (\<lambda>c k. (WaitResult 0, k)), dk_kill = (\<lambda>c s k. k)\<rparr>"

definition demo_wjob :: wjob where
  "demo_wjob = \<lparr>wj_inv = ''21'', wj_fn = ''1'', wj_ver = ''10'', wj_image = ''img'', wj_entry = ''handler'',
     wj_payload = None, wj_memory = 128, wj_cpu = 100, wj_timeout = 30, wj_retries = 0, wj_key = ''''\<rparr>"

definition demo_wenv :: wenv where
  "demo_wenv = \<lparr>we_inv = 1, we_name = 2, we_start = 0, we_end = 5000000, we_now = 6000000\<rparr>"

theorem failed_run_published_as_success_witness:
  "published_field ''status'' (published_json (main_service 7) 0 demo_wjob
     (fst (execute_job no_image_docker ref_ext demo_wenv demo_wjob ()))) = Some (JStr ''SUCCESS'')"
  using failed_run_published_as_success[of no_image_docker demo_wenv ref_ext demo_wjob "()" _ _ _ "main_service 7" 0,
      OF refl _ prod.collapse[symmetric]]
  by (simp add: run_def no_image_docker_def failed_run_def)

lemma published_unreadable: "result_of X \<lparr>xm_id = i, xm_values = [(''data'', JsonText (published_json w now j res))]\<rparr> = None"
  by (simp add: result_of_def msg_data_def unmarshal_result_def published_json_def Option.bind_eq_None_conv)

context redis_streams
begin

definition adds_unreadable :: "ext \<Rightarrow> 'r \<Rightarrow> 'r \<Rightarrow> bool" where
  "adds_unreadable X r r' \<longleftrightarrow> (\<exists>ps. strm r' ''nimbusrun:results'' = strm r ''nimbusrun:results'' @ ps \<and>
     (\<forall>m \<in> set ps. result_of X m = None))"

lemma adds_refl: "strm r' = strm r \<Longrightarrow> adds_unreadable X r r'"
  by (simp add: adds_unreadable_def)

lemma adds_trans: "adds_unreadable X a b \<Longrightarrow> adds_unreadable X b c \<Longrightarrow> adds_unreadable X a c"
  unfolding adds_unreadable_def by (fastforce simp: ball_Un)

lemma publish_adds:
  assumes "publish_result R w now j res r = (e, r')" shows "adds_unreadable X r r'"
proof -
  obtain y where x: "rd_xadd R ''nimbusrun:results'' [(''data'', JsonText (published_json w now j res))] r = (y, r')"
    using assms by (auto simp: publish_result_def split: prod.splits)
  show ?thesis using xadd_err[OF x] published_unreadable by (auto simp: adds_unreadable_def)
qed

lemma ack_adds: "adds_unreadable X r (worker_ack R w i r)"
proof -
  obtain y r1 where x: "rd_xack R (ws_queue w) (ws_id w) i r = (y, r1)" by fastforce
  show ?thesis using xack_effect[OF x] x by (simp add: worker_ack_def adds_refl)
qed

lemma process_msgs_adds: "process_msgs R D X w E n ms k r = (x, k', r') \<Longrightarrow> adds_unreadable X r r'"
proof (induction ms arbitrary: n k r)
  case (Cons m ms)
  show ?case
  proof (cases "msg_data m")
    case (Some t)
    show ?thesis
    proof (cases "unmarshal_wjob t")
      case None
      with Some Cons.prems have "adds_unreadable X (worker_ack R w (xm_id m) r) r'" by (auto intro: Cons.IH)
      then show ?thesis using ack_adds adds_trans by blast
    next
      case (Some j)
      obtain res k1 where ex: "execute_job D X (E n) j k = (res, k1)" by fastforce
      obtain e r1 where pu: "publish_result R w (we_now (E n)) j res r = (e, r1)" by fastforce
      have "adds_unreadable X (worker_ack R w (xm_id m) r1) r'"
        using Cons.prems \<open>msg_data m = Some t\<close> Some ex pu by (auto intro: Cons.IH)
      then show ?thesis using ack_adds publish_adds[OF pu] adds_trans by blast
    qed
  qed (use Cons.prems in \<open>simp add: adds_refl\<close>)
qed (simp add: adds_refl)

lemma process_next_job_adds:
  assumes "process_next_job R D X w E k r = (x, k', r')" shows "adds_unreadable X r r'"
proof -
  obtain res r1 where rg: "rd_xreadgroup R (ws_id w) (ws_consumer w) (ws_queue w) 1 r = (res, r1)" by fastforce
  have "adds_unreadable X r r1" using readgroup_streams[OF rg] by (simp add: adds_refl)
  moreover have "adds_unreadable X r1 r'"
    using assms rg by (auto simp: process_next_job_def adds_refl split: rres.splits intro: process_msgs_adds)
  ultimately show ?thesis by (rule adds_trans)
qed

lemma worker_start_adds: "worker_start R D X w Es k r = (x, k', r') \<Longrightarrow> adds_unreadable X r r'"
proof (induction Es arbitrary: k r)
  case (Cons E Es)
  obtain y k1 r1 where p: "process_next_job R D X w E k r = (y, k1, r1)" by (metis prod.collapse)
  have "adds_unreadable X r1 r'" using Cons p by (cases y) (auto simp: adds_refl)
  then show ?case using process_next_job_adds[OF p] adds_trans by blast
qed (simp add: adds_refl)

text \<open>Without its group the worker reads nothing and runs nothing.\<close>

lemma process_next_job_nogroup:
  assumes "(ws_queue w, ws_id w) \<notin> grps r" "process_next_job R D X w E k r = (x, k', r')"
  shows "(\<exists>e. x = WorkerErr e) \<and> k' = k \<and> strm r' = strm r \<and> grps r' = grps r"
proof -
  obtain res r1 where rg: "rd_xreadgroup R (ws_id w) (ws_consumer w) (ws_queue w) 1 r = (res, r1)" by fastforce
  obtain e where "res = RErr e" using readgroup_nogroup[OF assms(1) rg] by blast
  then show ?thesis using assms(2) rg readgroup_streams[OF rg] by (auto simp: process_next_job_def)
qed

end

text \<open>
  Nothing a worker publishes can be read back by \<open>ReadResults\<close>: the worker writes \<open>timestamp\<close> as a
  number of milliseconds and \<open>queue.JobResult\<close> decodes it as a \<open>time.Time\<close>.  Whatever a worker reads
  and runs, every entry it adds to the results stream is one \<open>ReadResults\<close> skips.
\<close>

theorem worker_results_never_read:
  assumes "redis_streams R strm grps seen pend" "process_next_job R D X w E k r = (x, k', r')"
  shows "\<exists>ps. strm r' ''nimbusrun:results'' = strm r ''nimbusrun:results'' @ ps \<and> (\<forall>m \<in> set ps. result_of X m = None)"
  using redis_streams.process_next_job_adds[OF assms] redis_streams.adds_unreadable_def[OF assms(1)] by blast

text \<open>A stream with a job for the worker, in a group of its own.\<close>

definition demo_work :: ref_state where
  "demo_work = ref_state0\<lparr>rs_grps := [(''nimbusrun:jobs'', ''worker-7'')],
     rs_strm := (\<lambda>_. [])(''nimbusrun:jobs'' := [\<lparr>xm_id = ''x'', xm_values =
       [(''data'', JsonText (JObj [(''invocation_id'', JStr ''21''), (''image_uri'', JStr ''img'')]))]\<rparr>])\<rparr>"

theorem worker_results_never_read_witness:
  "\<exists>ps. rs_strm (snd (snd (process_next_job ref_redis no_image_docker ref_ext (main_service 7) (\<lambda>_. demo_wenv) () demo_work)))
      ''nimbusrun:results'' = ps \<and> (\<forall>m \<in> set ps. result_of ref_ext m = None)"
proof -
  obtain x k' r' where p: "process_next_job ref_redis no_image_docker ref_ext (main_service 7) (\<lambda>_. demo_wenv) () demo_work = (x, k', r')"
    by (metis prod.collapse)
  from worker_results_never_read[OF ref_streams.redis_streams_axioms p] p show ?thesis
    by (simp add: demo_work_def ref_state0_def)
qed

text \<open>
  C40. A worker is never heard of: however long it runs and whatever it reads, the results that \<open>ReadResults\<close>
  can decode from the results stream are those that were there before it started, in the same order.
\<close>

theorem worker_is_never_heard_of:
  assumes "redis_streams R strm grps seen pend" "worker_start R D X w Es k r = (x, k', r')"
  shows "List.map_filter (result_of X) (strm r' ''nimbusrun:results'') = List.map_filter (result_of X) (strm r ''nimbusrun:results'')"
proof -
  obtain ps where ps: "strm r' ''nimbusrun:results'' = strm r ''nimbusrun:results'' @ ps" "\<forall>m \<in> set ps. result_of X m = None"
    using redis_streams.worker_start_adds[OF assms] redis_streams.adds_unreadable_def[OF assms(1)] by blast
  from ps(2) have "List.map_filter (result_of X) ps = []" by (auto simp: List.map_filter_def filter_empty_conv)
  then show ?thesis by (simp add: ps(1) List.map_filter_def)
qed

theorem worker_is_never_heard_of_witness:
  "List.map_filter (result_of ref_ext) (rs_strm (snd (snd (worker_start ref_redis no_image_docker ref_ext (main_service 7)
     [\<lambda>_. demo_wenv, \<lambda>_. demo_wenv] () demo_work))) ''nimbusrun:results'') = []"
proof -
  obtain x k' r' where p: "worker_start ref_redis no_image_docker ref_ext (main_service 7) [\<lambda>_. demo_wenv, \<lambda>_. demo_wenv] () demo_work = (x, k', r')"
    by (metis prod.collapse)
  from worker_is_never_heard_of[OF ref_streams.redis_streams_axioms p] p show ?thesis
    by (simp add: demo_work_def ref_state0_def List.map_filter_def)
qed

definition worker_view :: "job \<Rightarrow> wjob" where
  "worker_view j = \<lparr>wj_inv = job_inv j, wj_fn = job_fn j, wj_ver = job_ver j, wj_image = job_image j,
     wj_entry = job_entry j, wj_payload = job_payload j, wj_memory = job_memory j, wj_cpu = job_cpu j,
     wj_timeout = job_timeout j, wj_retries = job_retries j, wj_key = job_key j\<rparr>"

text \<open>
  The worker sees the job the invoker enqueued: image, entrypoint, payload, limits and identifiers
  of the decoded \<open>worker.Job\<close> are those of the \<open>queue.Job\<close>.
\<close>

theorem worker_sees_the_job:
  assumes "job_ok j" "job_json X j = Some js"
  shows "unmarshal_wjob (JsonText js) = Some (worker_view j)"
  using assms
  by (cases j) (auto simp: job_json_def unmarshal_wjob_def job_ok_def dec_field_append dec_map_enc_map worker_view_def)

theorem worker_sees_the_job_witness:
  "unmarshal_wjob (JsonText (the (job_json ref_ext demo_job))) = Some (worker_view demo_job)"
proof -
  obtain js where js: "job_json ref_ext demo_job = Some js" using demo_job_json by blast
  then show ?thesis using worker_sees_the_job[OF demo_job_ok js] by simp
qed

text \<open>
  The scheduler decodes the heartbeat a worker sends: the same identifier, measurements, tasks and
  time, and no total number of slots, which the worker does not send.
\<close>

theorem worker_heartbeat_decodes:
  assumes "f64_ok (hi_cpu h)" "f64_ok (hi_mem h)" "in_int64 (hi_running h)" "in_int64 (hi_avail h)" "in_int64 (hi_time h)"
  shows "\<exists>js. info_json h = Some js \<and> unmarshal_heartbeat (JsonText js) =
    Some \<lparr>hb_id = hi_id h, hb_host = hi_host h, hb_cpu = hi_cpu h, hb_mem = hi_mem h, hb_running = hi_running h,
      hb_avail = hi_avail h, hb_total = 0, hb_time = hi_time h\<rparr>"
proof -
  obtain c where c: "enc_f64 (hi_cpu h) = Some c" "dec_f64 c (Fin 0) = Some (hi_cpu h)"
    using assms(1) enc_dec_f64 by blast
  obtain m where m: "enc_f64 (hi_mem h) = Some m" "dec_f64 m (Fin 0) = Some (hi_mem h)"
    using assms(2) enc_dec_f64 by blast
  show ?thesis using assms(3-5) by (simp add: info_json_def unmarshal_heartbeat_def c m)
qed

theorem worker_heartbeat_decodes_witness:
  "\<exists>js. info_json (main_heartbeat 7 (time_unix 1000)) = Some js \<and>
     unmarshal_heartbeat (JsonText js) = Some idle_heartbeat"
proof -
  have i: "itoa 7 = ''7''" by code_simp
  have "time_unix 1000 = (1000 + unix_to_internal) * second"
    by (simp add: time_unix_def wrap64_id in_int64_def unix_to_internal_def)
  then have t: "unix_of (time_unix 1000) = 1000" by (simp add: unix_of_def second_def)
  show ?thesis
    using worker_heartbeat_decodes[of "main_heartbeat 7 (time_unix 1000)"]
    by (simp add: main_heartbeat_def f64_ok_def in_int64_def idle_heartbeat_def i t)
qed

end
