(* ===== verification/Cluster.thy ===== *)
theory Cluster
  imports Dispatch Worker
begin

text \<open>
  The processes around one Redis server as a state machine: the two loops of the scheduler, the
  workers, their heartbeats and any number of clients enqueuing jobs, in any order.  A step is one
  tick of a loop; the dispatcher's round is two steps, with the job it holds in between as state.
\<close>

section \<open>Steps\<close>

record ('r, 'k) cluster =
  cl_sched :: scheduler
  cl_held :: "queued_job option"
  cl_redis :: 'r
  cl_docker :: 'k

inductive cluster_step ::
  "'r redis \<Rightarrow> 'k docker \<Rightarrow> ext \<Rightarrow> rqueue \<Rightarrow> wservice set \<Rightarrow> ('r, 'k) cluster \<Rightarrow> ('r, 'k) cluster \<Rightarrow> bool"
  for R D X q W where
  start: "scheduler_start R q (cl_sched c, cl_redis c) = (e, s', r') \<Longrightarrow>
    cluster_step R D X q W c (c\<lparr>cl_sched := s', cl_redis := r'\<rparr>)"
| beat: "heartbeat_tick R (cl_sched c, cl_redis c) = (s', r') \<Longrightarrow>
    cluster_step R D X q W c (c\<lparr>cl_sched := s', cl_redis := r'\<rparr>)"
| dequeue: "cl_held c = None \<Longrightarrow>
    dequeue_jobs R X q ''scheduler'' ''dispatcher-1'' 1 (cl_redis c) = (res, r') \<Longrightarrow>
    held = (case res of Inr (qj # _) \<Rightarrow> Some qj | _ \<Rightarrow> None) \<Longrightarrow>
    cluster_step R D X q W c (c\<lparr>cl_held := held, cl_redis := r'\<rparr>)"
| assign: "cl_held c = Some qj \<Longrightarrow>
    dispatch_assign R X q ks now new_id (cl_sched c) qj (cl_redis c) = (e, r') \<Longrightarrow>
    cluster_step R D X q W c (c\<lparr>cl_held := None, cl_redis := r'\<rparr>)"
| enqueue: "enqueue_job R X q j (cl_redis c) = (e, r') \<Longrightarrow>
    cluster_step R D X q W c (c\<lparr>cl_redis := r'\<rparr>)"
| work: "w \<in> W \<Longrightarrow> process_next_job R D X w E (cl_docker c) (cl_redis c) = (x, k', r') \<Longrightarrow>
    cluster_step R D X q W c (c\<lparr>cl_docker := k', cl_redis := r'\<rparr>)"
| send: "send_heartbeat R h (cl_redis c) = (e, r') \<Longrightarrow>
    cluster_step R D X q W c (c\<lparr>cl_redis := r'\<rparr>)"

inductive cluster_reach ::
  "'r redis \<Rightarrow> 'k docker \<Rightarrow> ext \<Rightarrow> rqueue \<Rightarrow> wservice set \<Rightarrow> ('r, 'k) cluster \<Rightarrow> ('r, 'k) cluster \<Rightarrow> bool"
  for R D X q W c0 where
  init: "cluster_reach R D X q W c0 c0"
| step: "cluster_reach R D X q W c0 c \<Longrightarrow> cluster_step R D X q W c c' \<Longrightarrow> cluster_reach R D X q W c0 c'"

inductive_cases cluster_stepE: "cluster_step R D X q W c c'"

lemma send_groups:
  assumes "redis_streams R strm grps seen pend" "send_heartbeat R h r = (e, r')"
  shows "grps r' = grps r"
proof -
  obtain x where "rd_xadd R ''nimbusrun:heartbeats''
      [(''data'', case info_json h of None \<Rightarrow> RawText '''' | Some js \<Rightarrow> JsonText js)] r = (x, r')"
    using assms(2) by (auto simp: send_heartbeat_def split: prod.splits)
  from redis_streams.xadd_groups[OF assms(1) this] show ?thesis by simp
qed

section \<open>What the processes can learn\<close>

text \<open>The groups the scheduler creates are both on the job stream.\<close>

definition scheduler_groups :: "rqueue \<Rightarrow> (string \<times> string) set" where
  "scheduler_groups q = {(q_jobs q, ''scheduler''), (q_jobs q, ''scheduler-heartbeats'')}"

definition unlearned :: "rqueue \<Rightarrow> ('r \<Rightarrow> (string \<times> string) set) \<Rightarrow> (string \<times> string) set \<Rightarrow> 'k \<Rightarrow> ('r, 'k) cluster \<Rightarrow> bool" where
  "unlearned q grps G k c \<longleftrightarrow> sch_workers (cl_sched c) = Map.empty \<and> cl_docker c = k \<and>
     grps (cl_redis c) \<subseteq> G \<union> scheduler_groups q"

lemma start_effect:
  assumes "redis_streams R strm grps seen pend" "scheduler_start R q (s, r) = (e, s', r')"
  shows "grps r' \<subseteq> grps r \<union> scheduler_groups q \<and> sch_workers s' = sch_workers s"
proof -
  obtain e1 r1 where r1: "register_consumer_group R q ''scheduler'' r = (e1, r1)" by fastforce
  obtain e2 r2 where r2: "register_consumer_group R q ''scheduler-heartbeats'' r1 = (e2, r2)" by fastforce
  show ?thesis
    using assms(2) r1 r2 redis_streams.register_effect[OF assms(1) r1] redis_streams.register_effect[OF assms(1) r2]
    by (auto simp: scheduler_start_def scheduler_groups_def Let_def split: option.splits)
qed

lemma unlearned_step:
  assumes S: "redis_streams R strm grps seen pend"
    and hb: "(''nimbusrun:heartbeats'', ''scheduler-heartbeats'') \<notin> G \<union> scheduler_groups q"
    and ws: "\<And>w. w \<in> W \<Longrightarrow> (ws_queue w, ws_id w) \<notin> G \<union> scheduler_groups q"
    and u: "unlearned q grps G k c" and st: "cluster_step R D X q W c c'"
  shows "unlearned q grps G k c'"
  using st
proof cases
  case (start e s' r')
  then show ?thesis using u start_effect[OF S start(2)] by (auto simp: unlearned_def)
next
  case (beat s' r')
  have "(''nimbusrun:heartbeats'', ''scheduler-heartbeats'') \<notin> grps (cl_redis c)"
    using u hb by (auto simp: unlearned_def)
  then show ?thesis
    using beat(1) u redis_streams.heartbeat_tick_nogroup[OF S _ beat(2)] redis_streams.heartbeat_tick_redis[OF S beat(2)]
    by (simp add: unlearned_def)
next
  case (dequeue res r' held)
  then show ?thesis using u redis_streams.dequeue_streams[OF S dequeue(3)] by (simp add: unlearned_def)
next
  case (assign qj ks now new_id e r')
  then show ?thesis using u redis_streams.assign_effect[OF S assign(3)] by (simp add: unlearned_def)
next
  case (enqueue j e r')
  then show ?thesis using u redis_streams.enqueue_groups[OF S enqueue(2)] by (simp add: unlearned_def)
next
  case (work w E x k' r')
  have "(ws_queue w, ws_id w) \<notin> grps (cl_redis c)"
    using u ws[OF work(2)] by (auto simp: unlearned_def)
  then show ?thesis
    using u work(1) redis_streams.process_next_job_nogroup[OF S _ work(3)] by (simp add: unlearned_def)
next
  case (send h e r')
  then show ?thesis using u send_groups[OF S send(2)] by (simp add: unlearned_def)
qed

section \<open>Properties\<close>

text \<open>
  C10. Started on a Redis server without the scheduler's group on the heartbeat stream and without the
  workers' groups, the processes never get a job run, in whatever order they take their steps: no code
  creates those groups (the scheduler creates both of its groups on the job stream), so every read of
  heartbeats and every poll of a worker is an error.  The scheduler never learns of a worker, it has
  none to select, and no Docker daemon is ever asked for anything.
\<close>

theorem cluster_never_runs_a_job:
  assumes "redis_streams R strm grps seen pend" "cluster_reach R D X q W c0 c"
    and "sch_workers (cl_sched c0) = Map.empty" "q_jobs q \<noteq> ''nimbusrun:heartbeats''"
    and "(''nimbusrun:heartbeats'', ''scheduler-heartbeats'') \<notin> grps (cl_redis c0)"
    and "\<forall>w \<in> W. (ws_queue w, ws_id w) \<notin> grps (cl_redis c0) \<and> ws_id w \<notin> {''scheduler'', ''scheduler-heartbeats''}"
  shows "sch_workers (cl_sched c) = Map.empty \<and> select_worker ks now (cl_sched c) = None \<and> cl_docker c = cl_docker c0"
proof -
  have "unlearned q grps (grps (cl_redis c0)) (cl_docker c0) c"
    using assms(2)
  proof induction
    case init
    then show ?case using assms(3) by (auto simp: unlearned_def)
  next
    case (step c c')
    show ?case
      by (rule unlearned_step[OF assms(1) _ _ step(3,2)]) (use assms(4-6) in \<open>auto simp: scheduler_groups_def\<close>)
  qed
  moreover have "map_values ks (Map.empty :: string \<rightharpoonup> heartbeat) = []" by (induction ks) (auto simp: map_values_def map_filter_simps)
  ultimately show ?thesis by (simp add: unlearned_def select_worker_def)
qed

definition demo_cluster :: "(ref_state, unit) cluster" where
  "demo_cluster = \<lparr>cl_sched = new_scheduler, cl_held = None, cl_redis = ref_state0, cl_docker = ()\<rparr>"

lemma main_service_id: "ws_id (main_service pid) \<notin> {''scheduler'', ''scheduler-heartbeats''}"
  by (simp add: main_service_def)

text \<open>A run of the reference server: the scheduler starts, a worker beats, the scheduler reads.\<close>

definition demo_started :: "(ref_state, unit) cluster" where
  "demo_started = (let (_, s, r) = scheduler_start ref_redis demo_queue (new_scheduler, ref_state0)
     in demo_cluster\<lparr>cl_sched := s, cl_redis := r\<rparr>)"

theorem cluster_never_runs_a_job_witness:
  "sch_workers (cl_sched demo_started) = Map.empty \<and> select_worker [] 0 (cl_sched demo_started) = None \<and>
   cl_docker demo_started = cl_docker demo_cluster"
proof (rule cluster_never_runs_a_job[OF ref_streams.redis_streams_axioms])
  obtain e s r where s: "scheduler_start ref_redis demo_queue (new_scheduler, ref_state0) = (e, s, r)" by (metis prod.collapse)
  then have "cluster_step ref_redis no_image_docker ref_ext demo_queue {main_service 7} demo_cluster demo_started"
    using cluster_step.start[of ref_redis demo_queue demo_cluster e s r] by (simp add: demo_started_def demo_cluster_def)
  then show "cluster_reach ref_redis no_image_docker ref_ext demo_queue {main_service 7} demo_cluster demo_started"
    by (rule cluster_reach.step[OF cluster_reach.init])
qed (use main_service_id[of 7] in \<open>simp_all add: demo_cluster_def new_scheduler_def demo_queue_def ref_state0_def\<close>)

end
