(* ===== verification/Fifo.thy ===== *)
theory Fifo
  imports Dispatch
begin

text \<open>
  What \<open>RedisStreamQueue\<close> promises: a first-in first-out queue of jobs with claims.  The abstract queue
  \<open>fifo_step\<close> knows nothing of streams, entries or texts; \<open>queue_abs\<close> reads it off a Redis server, and
  every run of the methods of \<open>redis.go\<close> that reports no error is a run of the abstract queue.  On a
  server that answers, the dispatcher's loop empties the queue.
\<close>

section \<open>Exact laws of consumer groups\<close>

text \<open>
  The laws of \<open>redis_streams\<close> bound what a command may do; these say what it does when it reports
  success.  \<open>redis_reliable\<close> is a server no command fails on.
\<close>

locale redis_groups = redis_streams R strm grps seen pend
  for R :: "'r redis" and strm :: "'r \<Rightarrow> string \<Rightarrow> xmsg list" and grps :: "'r \<Rightarrow> (string \<times> string) set"
    and seen :: "'r \<Rightarrow> string \<Rightarrow> string \<Rightarrow> string set" and pend :: "'r \<Rightarrow> string \<Rightarrow> string \<Rightarrow> string set" +
  assumes xadd_fresh: "rd_xadd R s fs r = (RVal i, r') \<Longrightarrow> i \<notin> xm_id ` set (strm r s)"
    and readgroup_exact: "rd_xreadgroup R g c s n r = (RVal ss, r') \<Longrightarrow> 0 < n \<Longrightarrow>
      seen r' s g = seen r s g \<union> xm_id ` set (take n (filter (\<lambda>m. xm_id m \<notin> seen r s g) (strm r s))) \<and>
      pend r' s g = pend r s g \<union> xm_id ` set (take n (filter (\<lambda>m. xm_id m \<notin> seen r s g) (strm r s)))"
    and readgroup_idle: "rd_xreadgroup R g c s n r = (RNil, r') \<Longrightarrow> seen r' = seen r \<and> pend r' = pend r"
    and xack_exact: "rd_xack R s g i r = (RVal k, r') \<Longrightarrow> pend r' s g = pend r s g - {i}"

locale redis_reliable = redis_groups +
  assumes xadd_answers: "\<exists>i r'. rd_xadd R s fs r = (RVal i, r')"
    and readgroup_answers: "(s, g) \<in> grps r \<Longrightarrow>
      \<exists>r'. (\<exists>ss. rd_xreadgroup R g c s n r = (RVal ss, r')) \<or> rd_xreadgroup R g c s n r = (RNil, r')"
    and xack_answers: "\<exists>k r'. rd_xack R s g i r = (RVal k, r')"

lemma ref_id_new: "ref_id s r \<notin> xm_id ` set (rs_strm r s)"
proof
  assume "ref_id s r \<in> xm_id ` set (rs_strm r s)"
  then have "length (ref_id s r) \<le> sum_list (map (\<lambda>m. length (xm_id m)) (rs_strm r s))"
    by (force intro: member_le_sum_list)
  then show False by (simp add: ref_id_def)
qed

interpretation ref_groups: redis_reliable ref_redis rs_strm "\<lambda>r. set (rs_grps r)"
    "\<lambda>r s g. set (ref_seen r s g)" "\<lambda>r s g. set (ref_pend r s g)"
  by unfold_locales
    (auto simp: ref_xadd_def ref_group_def ref_readgroup_def ref_ack_def ref_id_new ref_pend_simps Let_def
      ref_seen_simps fun_eq_iff split: if_splits)

section \<open>The abstract queue\<close>

record fifo =
  fq_waiting :: "job list"
  fq_claimed :: "string set"

datatype queue_op = Enq job | Deq nat | Ack string

datatype queue_out = Enqueued | Delivered "queued_job list" | Acked

text \<open>
  A job waits until it is delivered, in the order of arrival; a delivery claims each of its jobs under
  an identifier not claimed before; an acknowledgement ends a claim.
\<close>

inductive fifo_step :: "queue_op \<Rightarrow> fifo \<Rightarrow> queue_out \<Rightarrow> fifo \<Rightarrow> bool" where
  enq: "fifo_step (Enq j) f Enqueued (f\<lparr>fq_waiting := fq_waiting f @ [j]\<rparr>)"
| deq: "map qj_job qs = take n (fq_waiting f) \<Longrightarrow> distinct (map qj_id qs) \<Longrightarrow> qj_id ` set qs \<inter> fq_claimed f = {} \<Longrightarrow>
    fifo_step (Deq n) f (Delivered qs)
      \<lparr>fq_waiting = drop n (fq_waiting f), fq_claimed = fq_claimed f \<union> qj_id ` set qs\<rparr>"
| ack: "fifo_step (Ack i) f Acked (f\<lparr>fq_claimed := fq_claimed f - {i}\<rparr>)"

inductive fifo_run :: "queue_op list \<Rightarrow> fifo \<Rightarrow> queue_out list \<Rightarrow> fifo \<Rightarrow> bool" where
  finish: "fifo_run [] f [] f"
| more: "fifo_step op f out f1 \<Longrightarrow> fifo_run ops f1 outs f' \<Longrightarrow> fifo_run (op # ops) f (out # outs) f'"

inductive_cases fifo_stepE: "fifo_step op f out f'"

fun enqueued :: "queue_op list \<Rightarrow> job list" where
  "enqueued [] = []"
| "enqueued (Enq j # ops) = j # enqueued ops"
| "enqueued (_ # ops) = enqueued ops"

fun delivered :: "queue_out list \<Rightarrow> job list" where
  "delivered [] = []"
| "delivered (Delivered qs # outs) = map qj_job qs @ delivered outs"
| "delivered (_ # outs) = delivered outs"

lemma fifo_conserves: "fifo_run ops f outs f' \<Longrightarrow> delivered outs @ fq_waiting f' = fq_waiting f @ enqueued ops"
proof (induction rule: fifo_run.induct)
  case (more op f out f1 ops outs f')
  from more(1) show ?case by (cases rule: fifo_step.cases) (use more(3) in auto)
qed simp

section \<open>The queue of the program\<close>

text \<open>One call of a method, with its result or its error; \<open>Deq n\<close> is \<open>DequeueJobs\<close> with count \<open>n\<close>.\<close>

definition queue_call ::
  "'r redis \<Rightarrow> ext \<Rightarrow> rqueue \<Rightarrow> string \<Rightarrow> string \<Rightarrow> queue_op \<Rightarrow> 'r \<Rightarrow> queue_out option \<times> 'r" where
  "queue_call R X q g c op r = (case op of
       Enq j \<Rightarrow> (case enqueue_job R X q j r of (None, r') \<Rightarrow> (Some Enqueued, r') | (Some _, r') \<Rightarrow> (None, r'))
     | Deq n \<Rightarrow> (case dequeue_jobs R X q g c n r of
           (Inr qs, r') \<Rightarrow> (Some (Delivered qs), r')
         | (Inl ErrNoJobs, r') \<Rightarrow> (Some (Delivered []), r')
         | (Inl (DequeueErr _), r') \<Rightarrow> (None, r'))
     | Ack i \<Rightarrow> (case ack_job R q g i r of (None, r') \<Rightarrow> (Some Acked, r') | (Some _, r') \<Rightarrow> (None, r')))"

fun queue_run ::
  "'r redis \<Rightarrow> ext \<Rightarrow> rqueue \<Rightarrow> string \<Rightarrow> string \<Rightarrow> queue_op list \<Rightarrow> 'r \<Rightarrow> queue_out list option \<times> 'r" where
  "queue_run R X q g c [] r = (Some [], r)"
| "queue_run R X q g c (op # ops) r =
     (case queue_call R X q g c op r of
        (None, r') \<Rightarrow> (None, r')
      | (Some out, r') \<Rightarrow>
          (case queue_run R X q g c ops r' of (outs, r'') \<Rightarrow> (map_option (\<lambda>os. out # os) outs, r'')))"

text \<open>The calls the abstract queue speaks of: jobs that encode, and reads of at least one entry.\<close>

definition call_ok :: "queue_op \<Rightarrow> bool" where
  "call_ok op = (case op of Enq j \<Rightarrow> job_ok j | Deq n \<Rightarrow> 0 < n | Ack _ \<Rightarrow> True)"

section \<open>Reading the abstract queue off a server\<close>

definition msg_job :: "ext \<Rightarrow> xmsg \<Rightarrow> job option" where
  "msg_job X m = (case msg_data m of None \<Rightarrow> None | Some t \<Rightarrow> unmarshal_job X t)"

definition backlog :: "('r \<Rightarrow> string \<Rightarrow> xmsg list) \<Rightarrow> ('r \<Rightarrow> string \<Rightarrow> string \<Rightarrow> string set) \<Rightarrow> string \<Rightarrow> string \<Rightarrow> 'r \<Rightarrow> xmsg list" where
  "backlog strm seen s g r = filter (\<lambda>m. xm_id m \<notin> seen r s g) (strm r s)"

definition queue_abs ::
  "ext \<Rightarrow> ('r \<Rightarrow> string \<Rightarrow> xmsg list) \<Rightarrow> ('r \<Rightarrow> string \<Rightarrow> string \<Rightarrow> string set) \<Rightarrow>
   ('r \<Rightarrow> string \<Rightarrow> string \<Rightarrow> string set) \<Rightarrow> string \<Rightarrow> string \<Rightarrow> 'r \<Rightarrow> fifo" where
  "queue_abs X strm seen pend s g r =
     \<lparr>fq_waiting = map (\<lambda>m. the (msg_job X m)) (backlog strm seen s g r), fq_claimed = pend r s g\<rparr>"

text \<open>
  The states the reading is for: identifiers are not repeated, what is pending was delivered, and every
  entry not delivered yet holds a job, that is, only \<open>EnqueueJob\<close> has written to the stream.
\<close>

definition queue_inv ::
  "ext \<Rightarrow> ('r \<Rightarrow> string \<Rightarrow> xmsg list) \<Rightarrow> ('r \<Rightarrow> string \<Rightarrow> string \<Rightarrow> string set) \<Rightarrow>
   ('r \<Rightarrow> string \<Rightarrow> string \<Rightarrow> string set) \<Rightarrow> string \<Rightarrow> string \<Rightarrow> 'r \<Rightarrow> bool" where
  "queue_inv X strm seen pend s g r \<longleftrightarrow> distinct (map xm_id (strm r s)) \<and> pend r s g \<subseteq> seen r s g \<and>
     (\<forall>m \<in> set (backlog strm seen s g r). msg_job X m \<noteq> None)"

lemma queued_of_msg: "queued_of X c m = map_option (\<lambda>j. \<lparr>qj_id = xm_id m, qj_job = j, qj_claim = c\<rparr>) (msg_job X m)"
  by (auto simp: queued_of_def msg_job_def split: option.splits)

lemma map_filter_all:
  "\<forall>m \<in> set ms. f m \<noteq> None \<Longrightarrow> List.map_filter f ms = map (\<lambda>m. the (f m)) ms"
  by (induction ms) (auto simp: map_filter_simps)

lemma filter_after_take:
  "distinct (map f xs) \<Longrightarrow> filter (\<lambda>x. f x \<notin> S \<union> f ` set (take n (filter (\<lambda>x. f x \<notin> S) xs))) xs =
     drop n (filter (\<lambda>x. f x \<notin> S) xs)"
proof -
  assume d: "distinct (map f xs)"
  let ?ys = "filter (\<lambda>x. f x \<notin> S) xs"
  have dy: "distinct (map f ?ys)" using d by (rule distinct_map_filter)
  have "filter (\<lambda>x. f x \<notin> S \<union> f ` set (take n ?ys)) xs = filter (\<lambda>x. f x \<notin> f ` set (take n ?ys)) ?ys"
    by (simp add: conj_commute)
  also have "\<dots> = filter (\<lambda>x. f x \<notin> f ` set (take n ?ys)) (take n ?ys @ drop n ?ys)" by simp
  also have "\<dots> = drop n ?ys"
  proof -
    have "set (take n (map f ?ys)) \<inter> set (drop n (map f ?ys)) = {}" using dy by (rule set_take_disj_set_drop_if_distinct) simp
    then have "\<forall>x \<in> set (drop n ?ys). f x \<notin> f ` set (take n ?ys)"
      by (auto simp: take_map drop_map)
    then show ?thesis by (simp only: filter_append) (simp add: filter_empty_conv filter_id_conv)
  qed
  finally show ?thesis .
qed

section \<open>The refinement\<close>

context redis_groups
begin

lemma enq_refines:
  assumes X: "ext_codec X" and I: "queue_inv X strm seen pend (q_jobs q) g r" and j: "job_ok j"
    and e: "enqueue_job R X q j r = (None, r')"
  shows "queue_inv X strm seen pend (q_jobs q) g r' \<and>
    queue_abs X strm seen pend (q_jobs q) g r' =
      (queue_abs X strm seen pend (q_jobs q) g r)\<lparr>fq_waiting := fq_waiting (queue_abs X strm seen pend (q_jobs q) g r) @ [j]\<rparr>"
proof -
  obtain js i where js: "job_json X j = Some js"
    and x: "rd_xadd R (q_jobs q) (job_fields (uuid_str X (job_id j)) js) r = (RVal i, r')"
    using e by (auto simp: enqueue_job_def go_err_None split: option.splits prod.splits)
  let ?m = "\<lparr>xm_id = i, xm_values = job_fields (uuid_str X (job_id j)) js\<rparr>"
  have "msg_job X ?m = Some j" using job_json_decodes[OF X j js] by (simp add: msg_job_def)
  moreover have "strm r' (q_jobs q) = strm r (q_jobs q) @ [?m]" "i \<notin> seen r (q_jobs q) g"
    using xadd_ok[OF x] by auto
  ultimately show ?thesis
    using I xadd_groups[OF x] xadd_fresh[OF x] by (auto simp: queue_inv_def queue_abs_def backlog_def)
qed

lemma deq_refines:
  assumes I: "queue_inv X strm seen pend (q_jobs q) g r" and n: "0 < n"
    and e: "dequeue_jobs R X q g c n r = (Inr qs, r')"
  shows "queue_inv X strm seen pend (q_jobs q) g r' \<and>
    fifo_step (Deq n) (queue_abs X strm seen pend (q_jobs q) g r) (Delivered qs) (queue_abs X strm seen pend (q_jobs q) g r')"
proof -
  let ?b = "backlog strm seen (q_jobs q) g r"
  obtain ss where ss: "rd_xreadgroup R g c (q_jobs q) n r = (RVal ss, r')"
    using e by (auto simp: dequeue_jobs_def split: prod.splits rres.splits)
  have qs: "qs = List.map_filter (queued_of X c) (take n ?b)"
    using dequeue_fifo(1)[OF e n] by (simp add: backlog_def)
  have jobs: "\<forall>m \<in> set (take n ?b). msg_job X m \<noteq> None" using I by (auto simp: queue_inv_def dest: in_set_takeD)
  then have qs': "qs = map (\<lambda>m. \<lparr>qj_id = xm_id m, qj_job = the (msg_job X m), qj_claim = c\<rparr>) (take n ?b)"
    unfolding qs by (subst map_filter_all) (auto simp: queued_of_msg)
  have ids: "map qj_id qs = map xm_id (take n ?b)" "qj_id ` set qs = xm_id ` set (take n ?b)"
    by (auto simp: qs' image_image)
  have st: "strm r' = strm r" using readgroup_streams[OF ss] by simp
  have ex: "seen r' (q_jobs q) g = seen r (q_jobs q) g \<union> xm_id ` set (take n ?b)"
    "pend r' (q_jobs q) g = pend r (q_jobs q) g \<union> xm_id ` set (take n ?b)"
    using readgroup_exact[OF ss n] by (simp_all add: backlog_def)
  have d: "distinct (map xm_id (strm r (q_jobs q)))" using I by (simp add: queue_inv_def)
  have b': "backlog strm seen (q_jobs q) g r' = drop n ?b"
    using filter_after_take[OF d, of "seen r (q_jobs q) g" n] by (simp add: backlog_def st ex(1)[unfolded backlog_def])
  have "distinct (map qj_id qs)"
    using distinct_map_filter[OF d] by (simp add: ids backlog_def distinct_take take_map[symmetric])
  moreover have "qj_id ` set qs \<inter> pend r (q_jobs q) g = {}"
    using I by (auto simp: ids queue_inv_def backlog_def dest!: in_set_takeD)
  moreover have "map qj_job qs = take n (map (\<lambda>m. the (msg_job X m)) ?b)"
    by (simp add: qs' take_map)
  ultimately have "fifo_step (Deq n) (queue_abs X strm seen pend (q_jobs q) g r) (Delivered qs)
      \<lparr>fq_waiting = drop n (map (\<lambda>m. the (msg_job X m)) ?b), fq_claimed = pend r (q_jobs q) g \<union> qj_id ` set qs\<rparr>"
    using fifo_step.deq[of qs n "queue_abs X strm seen pend (q_jobs q) g r"] by (simp add: queue_abs_def)
  moreover have "queue_inv X strm seen pend (q_jobs q) g r'"
    using I b' ex st by (auto simp: queue_inv_def dest: in_set_dropD)
  ultimately show ?thesis using b' ex ids by (simp add: queue_abs_def drop_map)
qed

lemma deq_none_refines:
  assumes I: "queue_inv X strm seen pend (q_jobs q) g r" and n: "0 < n"
    and e: "dequeue_jobs R X q g c n r = (Inl ErrNoJobs, r')"
  shows "queue_inv X strm seen pend (q_jobs q) g r' \<and>
    fifo_step (Deq n) (queue_abs X strm seen pend (q_jobs q) g r) (Delivered []) (queue_abs X strm seen pend (q_jobs q) g r')"
proof -
  have nil: "rd_xreadgroup R g c (q_jobs q) n r = (RNil, r')"
    using e by (auto simp: dequeue_jobs_def split: prod.splits rres.splits)
  have b: "backlog strm seen (q_jobs q) g r = []"
    using readgroup_nil[OF nil n] by (simp add: backlog_def filter_empty_conv)
  moreover have "strm r' = strm r" "seen r' = seen r" "pend r' = pend r"
    using readgroup_streams[OF nil] readgroup_idle[OF nil] by auto
  ultimately have "queue_abs X strm seen pend (q_jobs q) g r' = queue_abs X strm seen pend (q_jobs q) g r"
    and "queue_inv X strm seen pend (q_jobs q) g r'"
    and "fq_waiting (queue_abs X strm seen pend (q_jobs q) g r) = []"
    using I by (simp_all add: queue_abs_def queue_inv_def backlog_def)
  then show ?thesis using fifo_step.deq[of "[]" n "queue_abs X strm seen pend (q_jobs q) g r"]
    by (cases "queue_abs X strm seen pend (q_jobs q) g r") simp
qed

lemma ack_refines:
  assumes I: "queue_inv X strm seen pend (q_jobs q) g r" and e: "ack_job R q g i r = (None, r')"
  shows "queue_inv X strm seen pend (q_jobs q) g r' \<and>
    fifo_step (Ack i) (queue_abs X strm seen pend (q_jobs q) g r) Acked (queue_abs X strm seen pend (q_jobs q) g r')"
proof -
  obtain k where x: "rd_xack R (q_jobs q) g i r = (RVal k, r')"
    using e by (auto simp: ack_job_def go_err_None split: prod.splits)
  have "strm r' = strm r" "seen r' = seen r" using xack_effect[OF x] by auto
  then have "queue_abs X strm seen pend (q_jobs q) g r' =
      (queue_abs X strm seen pend (q_jobs q) g r)\<lparr>fq_claimed := pend r (q_jobs q) g - {i}\<rparr>"
    and "queue_inv X strm seen pend (q_jobs q) g r'"
    using I xack_exact[OF x] by (auto simp: queue_abs_def queue_inv_def backlog_def)
  then show ?thesis using fifo_step.ack[of i "queue_abs X strm seen pend (q_jobs q) g r"] by (simp add: queue_abs_def)
qed

lemma call_refines:
  assumes "ext_codec X" "queue_inv X strm seen pend (q_jobs q) g r" "call_ok op"
    and e: "queue_call R X q g c op r = (Some out, r')"
  shows "queue_inv X strm seen pend (q_jobs q) g r' \<and>
    fifo_step op (queue_abs X strm seen pend (q_jobs q) g r) out (queue_abs X strm seen pend (q_jobs q) g r')"
proof (cases op)
  case (Enq j)
  then have "enqueue_job R X q j r = (None, r')" "out = Enqueued" "job_ok j"
    using e assms(3) by (auto simp: queue_call_def call_ok_def split: prod.splits option.splits)
  then show ?thesis
    using enq_refines[OF assms(1,2)] fifo_step.enq[of j "queue_abs X strm seen pend (q_jobs q) g r"] Enq by simp
next
  case (Deq n)
  then have "0 < n" using assms(3) by (simp add: call_ok_def)
  moreover have "(\<exists>qs. dequeue_jobs R X q g c n r = (Inr qs, r') \<and> out = Delivered qs) \<or>
      dequeue_jobs R X q g c n r = (Inl ErrNoJobs, r') \<and> out = Delivered []"
    using e Deq by (auto simp: queue_call_def split: prod.splits sum.splits dequeue_err.splits)
  ultimately show ?thesis using deq_refines[OF assms(2)] deq_none_refines[OF assms(2)] Deq by blast
next
  case (Ack i)
  then have "ack_job R q g i r = (None, r')" "out = Acked"
    using e by (auto simp: queue_call_def split: prod.splits option.splits)
  then show ?thesis using ack_refines[OF assms(2)] Ack by simp
qed

lemma run_refines:
  assumes X: "ext_codec X"
  shows "queue_inv X strm seen pend (q_jobs q) g r \<Longrightarrow> \<forall>op \<in> set ops. call_ok op \<Longrightarrow>
    queue_run R X q g c ops r = (Some outs, r') \<Longrightarrow>
    queue_inv X strm seen pend (q_jobs q) g r' \<and>
    fifo_run ops (queue_abs X strm seen pend (q_jobs q) g r) outs (queue_abs X strm seen pend (q_jobs q) g r')"
proof (induction ops arbitrary: r outs)
  case Nil
  then show ?case by (simp add: fifo_run.finish)
next
  case (Cons op ops)
  from Cons.prems(3) obtain out r1 outs1 where st: "queue_call R X q g c op r = (Some out, r1)"
    "queue_run R X q g c ops r1 = (Some outs1, r')" "outs = out # outs1"
    by (auto split: prod.splits option.splits)
  have c: "queue_inv X strm seen pend (q_jobs q) g r1 \<and>
      fifo_step op (queue_abs X strm seen pend (q_jobs q) g r) out (queue_abs X strm seen pend (q_jobs q) g r1)"
    using call_refines[OF X Cons.prems(1) _ st(1)] Cons.prems(2) by simp
  then show ?case using Cons.IH[OF _ _ st(2)] Cons.prems(2) st(3) by (auto intro: fifo_run.more)
qed

end

section \<open>The dispatcher empties the queue\<close>

text \<open>Rounds of \<open>dispatchJobs\<close>, each with its iteration order, its clock and the identifier it draws.\<close>

fun dispatch_rounds ::
  "'r redis \<Rightarrow> ext \<Rightarrow> rqueue \<Rightarrow> scheduler \<Rightarrow> (string list \<times> int \<times> uuid) list \<Rightarrow> 'r \<Rightarrow> 'r" where
  "dispatch_rounds R X q s [] r = r"
| "dispatch_rounds R X q s ((ks, now, i) # es) r = dispatch_rounds R X q s es (snd (dispatch_one_job R X q ks now i s r))"

context redis_reliable
begin

lemma to_stream_answers:
  assumes X: "ext_codec X" and j: "job_ok j"
  obtains m r' where "enqueue_job_to_stream R X i t j r = (None, r')" "carries X m j"
    "strm r' = (strm r)(t := strm r t @ [m])" "grps r' = grps r" "seen r' = seen r" "pend r' = pend r"
proof -
  obtain js where js: "job_json X j = Some js" using j by (simp add: job_json_def job_ok_def)
  let ?fs = "job_fields (uuid_str X i) js"
  obtain k r' where x: "rd_xadd R t ?fs r = (RVal k, r')" using xadd_answers by blast
  have "carries X \<lparr>xm_id = k, xm_values = ?fs\<rparr> j" using job_json_decodes[OF X j js] by (simp add: carries_def)
  then show thesis
    using that[of r' "\<lparr>xm_id = k, xm_values = ?fs\<rparr>"] xadd_ok[OF x] xadd_groups[OF x] js x
    by (simp add: enqueue_job_to_stream_def)
qed

lemma round_progress:
  assumes X: "ext_codec X" and I: "queue_inv X strm seen pend (q_jobs q) ''scheduler'' r"
    and G: "(q_jobs q, ''scheduler'') \<in> grps r"
    and w: "fq_waiting (queue_abs X strm seen pend (q_jobs q) ''scheduler'' r) = j # js" "job_ok j"
    and s: "select_worker ks now s = Some h" "worker_stream h \<noteq> q_jobs q"
  obtains m r' where "dispatch_one_job R X q ks now i s r = (None, r')" "carries X m j"
    "strm r' = (strm r)(worker_stream h := strm r (worker_stream h) @ [m])" "grps r' = grps r"
    "queue_inv X strm seen pend (q_jobs q) ''scheduler'' r'"
    "queue_abs X strm seen pend (q_jobs q) ''scheduler'' r' =
       (queue_abs X strm seen pend (q_jobs q) ''scheduler'' r)\<lparr>fq_waiting := js\<rparr>"
proof -
  let ?abs = "queue_abs X strm seen pend (q_jobs q) ''scheduler''"
  let ?inv = "queue_inv X strm seen pend (q_jobs q) ''scheduler''"
  have b: "backlog strm seen (q_jobs q) ''scheduler'' r \<noteq> []" using w(1) by (auto simp: queue_abs_def)
  obtain ss r1 where rg: "rd_xreadgroup R ''scheduler'' ''dispatcher-1'' (q_jobs q) 1 r = (RVal ss, r1)"
    using readgroup_answers[OF G, of "''dispatcher-1''" 1] readgroup_nil[of "''scheduler''" "''dispatcher-1''" "q_jobs q" 1 r] b
    by (fastforce simp: backlog_def filter_empty_conv)
  then obtain qs where d: "dequeue_jobs R X q ''scheduler'' ''dispatcher-1'' 1 r = (Inr qs, r1)"
    by (simp add: dequeue_jobs_def)
  have d1: "?inv r1" "fifo_step (Deq 1) (?abs r) (Delivered qs) (?abs r1)"
    using deq_refines[OF I _ d] by auto
  from d1(2) have "map qj_job qs = [j]" and c0: "qj_id ` set qs \<inter> fq_claimed (?abs r) = {}"
    and a1: "?abs r1 = \<lparr>fq_waiting = js, fq_claimed = fq_claimed (?abs r) \<union> qj_id ` set qs\<rparr>"
    using w(1) by (auto elim!: fifo_stepE)
  then obtain qj where qs: "qs = [qj]" "qj_job qj = j" by auto
  obtain m r2 where to: "enqueue_job_to_stream R X i (worker_stream h) j r1 = (None, r2)" "carries X m j"
    and r2: "strm r2 = (strm r1)(worker_stream h := strm r1 (worker_stream h) @ [m])" "grps r2 = grps r1"
      "seen r2 = seen r1" "pend r2 = pend r1"
    by (rule to_stream_answers[OF X w(2)])
  obtain k r3 where x: "rd_xack R (q_jobs q) ''scheduler'' (qj_id qj) r2 = (RVal k, r3)" using xack_answers by blast
  then have a: "ack_job R q ''scheduler'' (qj_id qj) r2 = (None, r3)" by (simp add: ack_job_def)
  have e: "dispatch_one_job R X q ks now i s r = (None, r3)"
    using d qs to(1) a s(1) by (simp add: dispatch_one_job_def dispatch_assign_def)
  have i2: "?inv r2" "?abs r2 = ?abs r1" using d1(1) r2 s(2) by (simp_all add: queue_inv_def queue_abs_def backlog_def)
  have f: "?inv r3" "fifo_step (Ack (qj_id qj)) (?abs r1) Acked (?abs r3)"
    using ack_refines[OF i2(1) a] unfolding i2(2) by auto
  then have "?abs r3 = (?abs r)\<lparr>fq_waiting := js\<rparr>"
    using a1 c0 qs(1) by (cases "?abs r") (auto elim!: fifo_stepE)
  moreover have "strm r3 = (strm r)(worker_stream h := strm r (worker_stream h) @ [m])" "grps r3 = grps r"
    using xack_effect[OF x] r2 readgroup_streams[OF rg] by auto
  ultimately show thesis using that[OF e to(2) _ _ f(1)] by simp
qed

lemma rounds_progress:
  assumes X: "ext_codec X"
  shows "queue_inv X strm seen pend (q_jobs q) ''scheduler'' r \<Longrightarrow> (q_jobs q, ''scheduler'') \<in> grps r \<Longrightarrow>
    fq_waiting (queue_abs X strm seen pend (q_jobs q) ''scheduler'' r) = js \<Longrightarrow> \<forall>j \<in> set js. job_ok j \<Longrightarrow>
    length es = length js \<Longrightarrow> length hs = length js \<Longrightarrow>
    \<forall>k < length js. select_worker (fst (es ! k)) (fst (snd (es ! k))) s = Some (hs ! k) \<and> worker_stream (hs ! k) \<noteq> q_jobs q \<Longrightarrow>
    fq_waiting (queue_abs X strm seen pend (q_jobs q) ''scheduler'' (dispatch_rounds R X q s es r)) = [] \<and>
    fq_claimed (queue_abs X strm seen pend (q_jobs q) ''scheduler'' (dispatch_rounds R X q s es r)) =
      fq_claimed (queue_abs X strm seen pend (q_jobs q) ''scheduler'' r) \<and>
    (\<forall>t. \<exists>ms. strm (dispatch_rounds R X q s es r) t = strm r t @ ms \<and>
       list_all2 (carries X) ms (map fst (filter (\<lambda>(j, h). worker_stream h = t) (zip js hs))))"
proof (induction js arbitrary: r es hs)
  case Nil
  then show ?case by simp
next
  case (Cons j js)
  obtain ks now i es' where es: "es = (ks, now, i) # es'" "length es' = length js"
    using Cons.prems(5) by (cases es) auto
  obtain h hs' where hs: "hs = h # hs'" "length hs' = length js" using Cons.prems(6) by (cases hs) auto
  have w: "select_worker ks now s = Some h" "worker_stream h \<noteq> q_jobs q"
    using Cons.prems(7) es(1) hs(1) by (auto dest: spec[of _ 0])
  obtain m r1 where r1: "dispatch_one_job R X q ks now i s r = (None, r1)" "carries X m j"
    "strm r1 = (strm r)(worker_stream h := strm r (worker_stream h) @ [m])" "grps r1 = grps r"
    "queue_inv X strm seen pend (q_jobs q) ''scheduler'' r1"
    "queue_abs X strm seen pend (q_jobs q) ''scheduler'' r1 =
       (queue_abs X strm seen pend (q_jobs q) ''scheduler'' r)\<lparr>fq_waiting := js\<rparr>"
    using round_progress[OF X Cons.prems(1,2,3) _ w] Cons.prems(4) by (metis list.set_intros(1))
  have tail: "\<forall>k < length js. select_worker (fst (es' ! k)) (fst (snd (es' ! k))) s = Some (hs' ! k) \<and> worker_stream (hs' ! k) \<noteq> q_jobs q"
    using Cons.prems(7) unfolding es(1) hs(1) by auto
  have IH: "fq_waiting (queue_abs X strm seen pend (q_jobs q) ''scheduler'' (dispatch_rounds R X q s es' r1)) = [] \<and>
    fq_claimed (queue_abs X strm seen pend (q_jobs q) ''scheduler'' (dispatch_rounds R X q s es' r1)) =
      fq_claimed (queue_abs X strm seen pend (q_jobs q) ''scheduler'' r1) \<and>
    (\<forall>t. \<exists>ms. strm (dispatch_rounds R X q s es' r1) t = strm r1 t @ ms \<and>
       list_all2 (carries X) ms (map fst (filter (\<lambda>(j, h). worker_stream h = t) (zip js hs'))))"
    using Cons.IH[OF r1(5) _ _ _ es(2) hs(2) tail] r1(4,6) Cons.prems(2,4) by simp
  have "\<exists>ms. strm (dispatch_rounds R X q s es' r1) t = strm r t @ ms \<and>
      list_all2 (carries X) ms (map fst (filter (\<lambda>(j, h). worker_stream h = t) (zip (j # js) (h # hs'))))" for t
  proof -
    obtain ms where "strm (dispatch_rounds R X q s es' r1) t = strm r1 t @ ms"
      "list_all2 (carries X) ms (map fst (filter (\<lambda>(j, h). worker_stream h = t) (zip js hs')))"
      using IH by blast
    then show ?thesis using r1(2,3) by (cases "worker_stream h = t") auto
  qed
  then show ?case using IH r1(1,6) es(1) hs(1) by simp
qed

end

section \<open>Properties\<close>

text \<open>
  C3. The job queue refines a first-in first-out queue.  Whatever sequence of \<open>EnqueueJob\<close>,
  \<open>DequeueJobs\<close> and \<open>AckJob\<close> calls a consumer group sees, as long as none reports an error it is a run
  of the abstract queue: every delivery hands out the jobs that have waited longest, each under a
  claim of its own, an acknowledgement ends exactly its claim, and over the whole run the jobs
  delivered and the jobs still waiting are the jobs that waited and those enqueued, in order, none
  lost and none delivered twice.
\<close>

theorem job_queue_refines_fifo:
  assumes "redis_groups R strm grps seen pend" "ext_codec X"
    and "queue_inv X strm seen pend (q_jobs q) g r" "\<forall>op \<in> set ops. call_ok op"
    and "queue_run R X q g c ops r = (Some outs, r')"
  defines "A \<equiv> queue_abs X strm seen pend (q_jobs q) g"
  shows "fifo_run ops (A r) outs (A r') \<and> queue_inv X strm seen pend (q_jobs q) g r' \<and>
    delivered outs @ fq_waiting (A r') = fq_waiting (A r) @ enqueued ops"
  unfolding A_def
  using redis_groups.run_refines[OF assms(1,2,3,4,5)] fifo_conserves by blast

definition grouped_state :: ref_state where
  "grouped_state = ref_state0\<lparr>rs_grps := [(''nimbusrun:jobs'', ''scheduler'')]\<rparr>"

theorem job_queue_refines_fifo_witness:
  "\<exists>outs. fst (queue_run ref_redis ref_ext demo_queue ''scheduler'' ''dispatcher-1''
      [Enq demo_job, Enq (demo_job\<lparr>job_retries := 1\<rparr>), Deq 1, Ack ''x''] grouped_state) = Some outs \<and>
    delivered outs = [demo_job]"
proof -
  let ?ops = "[Enq demo_job, Enq (demo_job\<lparr>job_retries := 1\<rparr>), Deq 1, Ack ''x'']"
  have ok2: "job_ok (demo_job\<lparr>job_retries := 1\<rparr>)" using demo_job_ok by (simp add: job_ok_def in_int64_def)
  obtain js js2 where js: "job_json ref_ext demo_job = Some js" "job_json ref_ext (demo_job\<lparr>job_retries := 1\<rparr>) = Some js2"
    using demo_job_ok ok2 by (simp add: job_json_def job_ok_def)
  have dec: "unmarshal_job ref_ext (JsonText js) = Some demo_job"
    by (rule job_json_decodes[OF ref_ext.ext_codec_axioms demo_job_ok js(1)])
  obtain outs r' where run: "queue_run ref_redis ref_ext demo_queue ''scheduler'' ''dispatcher-1'' ?ops grouped_state = (Some outs, r')"
    and d: "delivered outs = [demo_job]"
    by (simp add: queue_call_def enqueue_job_def js dec ref_xadd_def dequeue_jobs_def ref_readgroup_def
        demo_queue_def grouped_state_def ref_state0_def ref_seen_def Let_def ack_job_def ref_ack_def
        map_filter_simps queued_of_msg msg_job_def ref_id_def)
  have "queue_inv ref_ext rs_strm (\<lambda>r s g. set (ref_seen r s g)) (\<lambda>r s g. set (ref_pend r s g)) (q_jobs demo_queue) ''scheduler'' grouped_state"
    by (simp add: queue_inv_def backlog_def grouped_state_def ref_state0_def ref_pend_def)
  from job_queue_refines_fifo[OF ref_groups.redis_groups_axioms ref_ext.ext_codec_axioms this _ run] demo_job_ok ok2
  show ?thesis using run d by (simp add: call_ok_def)
qed

text \<open>
  C11. On a Redis server that answers, the dispatcher empties the queue: as many rounds as jobs are
  waiting, with a healthy worker to select in each, leave no job waiting and no claim of their own
  open, and every job stands in the stream of the worker selected for it, each stream having got
  exactly its jobs, in the order they waited.
\<close>

theorem backlog_is_dispatched:
  assumes "redis_reliable R strm grps seen pend" "ext_codec X"
    and "queue_inv X strm seen pend (q_jobs q) ''scheduler'' r" "(q_jobs q, ''scheduler'') \<in> grps r"
    and "fq_waiting (queue_abs X strm seen pend (q_jobs q) ''scheduler'' r) = js" "\<forall>j \<in> set js. job_ok j"
    and "length es = length js" "length hs = length js"
    and "\<forall>k < length js. select_worker (fst (es ! k)) (fst (snd (es ! k))) s = Some (hs ! k) \<and> worker_stream (hs ! k) \<noteq> q_jobs q"
  defines "r' \<equiv> dispatch_rounds R X q s es r"
  shows "fq_waiting (queue_abs X strm seen pend (q_jobs q) ''scheduler'' r') = [] \<and>
    fq_claimed (queue_abs X strm seen pend (q_jobs q) ''scheduler'' r') =
      fq_claimed (queue_abs X strm seen pend (q_jobs q) ''scheduler'' r) \<and>
    (\<forall>t. \<exists>ms. strm r' t = strm r t @ ms \<and>
       list_all2 (carries X) ms (map fst (filter (\<lambda>(j, h). worker_stream h = t) (zip js hs))))"
  unfolding r'_def by (rule redis_reliable.rounds_progress[OF assms(1-9)])

lemma demo_selects:
  "\<exists>h. select_worker [''b'', ''a''] (time_unix 1010) demo_scheduler = Some h \<and> hb_id h \<in> {''a'', ''b''}"
proof -
  have sel: "sch_select demo_scheduler = select_lowest_load_worker" by (simp add: demo_scheduler_def new_scheduler_def)
  have "demo_heartbeat ''a'' 2 8 \<in> ran (sch_workers demo_scheduler)"
    by (auto simp: demo_scheduler_def ran_def intro: exI[of _ "''a''"])
  moreover have "is_healthy (demo_heartbeat ''a'' 2 8) (time_unix 1010)" by code_simp
  ultimately obtain h where h: "select_worker [''b'', ''a''] (time_unix 1010) demo_scheduler = Some h"
    using select_worker_None_iff[OF demo_ranges sel, of "time_unix 1010"] by fastforce
  then have "h \<in> ran (sch_workers demo_scheduler)"
    using select_worker_least(1)[OF demo_ranges sel _ h] demo_loads by blast
  then show ?thesis using h by (auto simp: demo_scheduler_def demo_heartbeat_def ran_def split: if_splits)
qed

theorem backlog_is_dispatched_witness:
  "\<exists>h m. select_worker [''b'', ''a''] (time_unix 1010) demo_scheduler = Some h \<and>
     rs_strm (dispatch_rounds ref_redis ref_ext demo_queue demo_scheduler [([''b'', ''a''], time_unix 1010, 9)] demo_enqueued)
       (worker_stream h) = [m] \<and> carries ref_ext m demo_job"
proof -
  obtain js where js: "job_json ref_ext demo_job = Some js" using demo_job_json by blast
  have dec: "unmarshal_job ref_ext (JsonText js) = Some demo_job"
    by (rule job_json_decodes[OF ref_ext.ext_codec_axioms demo_job_ok js])
  obtain h where h: "select_worker [''b'', ''a''] (time_unix 1010) demo_scheduler = Some h" "hb_id h \<in> {''a'', ''b''}"
    using demo_selects by blast
  note defs = demo_enqueued_def enqueue_job_def js ref_xadd_def demo_queue_def ref_state0_def ref_seen_def ref_pend_def
    queue_inv_def queue_abs_def backlog_def msg_job_def dec
  have 1: "queue_inv ref_ext rs_strm (\<lambda>r s g. set (ref_seen r s g)) (\<lambda>r s g. set (ref_pend r s g)) (q_jobs demo_queue) ''scheduler'' demo_enqueued"
    by (simp add: defs)
  have 2: "fq_waiting (queue_abs ref_ext rs_strm (\<lambda>r s g. set (ref_seen r s g)) (\<lambda>r s g. set (ref_pend r s g))
      (q_jobs demo_queue) ''scheduler'' demo_enqueued) = [demo_job]"
    by (simp add: defs)
  have 3: "(q_jobs demo_queue, ''scheduler'') \<in> set (rs_grps demo_enqueued)" by (simp add: defs)
  have 4: "rs_strm demo_enqueued (worker_stream h) = []" by (simp add: defs worker_stream_def)
  from backlog_is_dispatched[OF ref_groups.redis_reliable_axioms ref_ext.ext_codec_axioms 1 3 2, of
      "[([''b'', ''a''], time_unix 1010, 9)]" "[h]" demo_scheduler] h demo_job_ok
  obtain ms where "rs_strm (dispatch_rounds ref_redis ref_ext demo_queue demo_scheduler [([''b'', ''a''], time_unix 1010, 9)] demo_enqueued)
       (worker_stream h) = rs_strm demo_enqueued (worker_stream h) @ ms" "list_all2 (carries ref_ext) ms [demo_job]"
    by (force simp: worker_stream_def demo_queue_def)
  then show ?thesis using h 4 by (auto simp: list_all2_Cons2)
qed

end
