(* ===== verification/Idempotency.thy ===== *)
theory Idempotency
  imports Redis
begin

text \<open>
  \<open>internal/idempotency/idempotency.go\<close>: cached results and locks under an idempotency key.  A cached
  result is stored as JSON text, a lock as the raw text of its token; \<open>rd_now\<close> is the server's clock.
\<close>

section \<open>Operations\<close>

record idempotency =
  id_ttl :: int

definition new_idempotency :: idempotency where
  "new_idempotency = \<lparr>id_ttl = 24 * 3600 * second\<rparr>"

record result_cache =
  rca_inv :: string
  rca_status :: string
  rca_result :: string
  rca_error :: string

definition cache_json :: "result_cache \<Rightarrow> json" where
  "cache_json c = JObj
     ([(''invocation_id'', JStr (rca_inv c)), (''status'', JStr (rca_status c))]
      @ omit_empty_str ''result'' (rca_result c) @ omit_empty_str ''error'' (rca_error c))"

definition unmarshal_cache :: "jtext \<Rightarrow> result_cache option" where
  "unmarshal_cache t = do {
     kvs \<leftarrow> unmarshal_object t;
     i \<leftarrow> dec_field ''invocation_id'' dec_string kvs '''';
     s \<leftarrow> dec_field ''status'' dec_string kvs '''';
     r \<leftarrow> dec_field ''result'' dec_string kvs '''';
     e \<leftarrow> dec_field ''error'' dec_string kvs '''';
     Some \<lparr>rca_inv = i, rca_status = s, rca_result = r, rca_error = e\<rparr>}"

definition idem_check :: "'r redis \<Rightarrow> int \<Rightarrow> string \<Rightarrow> 'r \<Rightarrow> (string + result_cache option) \<times> 'r" where
  "idem_check R now key r =
     (if key = '''' then (Inr None, r)
      else let (res, r') = rd_get R now (''idem:'' @ key) r
           in (case res of
                 RNil \<Rightarrow> Inr None
               | RErr e \<Rightarrow> Inl (''checking idempotency key: '' @ e)
               | RVal t \<Rightarrow> (case unmarshal_cache t of None \<Rightarrow> Inl ''parsing cached result'' | Some c \<Rightarrow> Inr (Some c)), r'))"

definition idem_store ::
  "'r redis \<Rightarrow> idempotency \<Rightarrow> int \<Rightarrow> string \<Rightarrow> result_cache \<Rightarrow> 'r \<Rightarrow> string option \<times> 'r" where
  "idem_store R S now key c r =
     (if key = '''' then (None, r)
      else let (res, r') = rd_set R now (''idem:'' @ key) (JsonText (cache_json c)) (id_ttl S) r
           in (case res of RVal _ \<Rightarrow> None | RNil \<Rightarrow> Some ''redis: nil'' | RErr e \<Rightarrow> Some e, r'))"

text \<open>\<open>AcquireLock\<close>: whether the lock was acquired, and its token.\<close>

definition acquire_lock ::
  "'r redis \<Rightarrow> int \<Rightarrow> string \<Rightarrow> string \<Rightarrow> int \<Rightarrow> 'r \<Rightarrow> (bool \<times> string) \<times> 'r" where
  "acquire_lock R now new_token key ttl r =
     (if key = '''' then ((True, ''''), r)
      else let (res, r') = rd_setnx R now (''lock:'' @ key) (RawText new_token) ttl r
           in (case res of RVal ok \<Rightarrow> (ok, new_token) | _ \<Rightarrow> (False, ''''), r'))"

text \<open>The script of \<open>ReleaseLock\<close>.\<close>

definition release_script :: "'r redis \<Rightarrow> int \<Rightarrow> string \<Rightarrow> string \<Rightarrow> 'r \<Rightarrow> nat \<times> 'r" where
  "release_script R now k token r =
     (if sv_get R now k r = Some (RawText token) then sv_del R k r else (0, r))"

definition release_lock :: "'r redis \<Rightarrow> int \<Rightarrow> string \<Rightarrow> string \<Rightarrow> 'r \<Rightarrow> string option \<times> 'r" where
  "release_lock R now key token r =
     (if key = '''' then (None, r)
      else let (res, r') = rd_eval R (release_script R now (''lock:'' @ key) token) r
           in (case res of RVal _ \<Rightarrow> None | RNil \<Rightarrow> Some ''redis: nil'' | RErr e \<Rightarrow> Some e, r'))"

definition idem_delete :: "'r redis \<Rightarrow> string \<Rightarrow> 'r \<Rightarrow> string option \<times> 'r" where
  "idem_delete R key r =
     (if key = '''' then (None, r)
      else let (res, r') = rd_del R (''idem:'' @ key) r
           in (case res of RVal _ \<Rightarrow> None | RNil \<Rightarrow> Some ''redis: nil'' | RErr e \<Rightarrow> Some e, r'))"

section \<open>Effects\<close>

lemma cache_decodes: "unmarshal_cache (JsonText (cache_json c)) = Some c"
  by (cases c) (simp add: cache_json_def unmarshal_cache_def dec_field_append)

context redis_keys
begin

lemma store_live:
  assumes "idem_store R S now key c r = (None, r')" "key \<noteq> ''''" "now \<le> t"
  shows "live r' t k = (if k = ''idem:'' @ key then (if t < now + id_ttl S then Some (JsonText (cache_json c)) else None)
    else live r t k)"
proof -
  obtain u where s: "rd_set R now (''idem:'' @ key) (JsonText (cache_json c)) (id_ttl S) r = (RVal u, r')"
    using assms(1,2) by (auto simp: idem_store_def split: prod.splits rres.splits)
  show ?thesis using set_ok[OF s assms(3), of k] by simp
qed

lemma acquire_live:
  assumes "acquire_lock R now tok key ttl r = ((True, tk), r')" "key \<noteq> ''''" "0 < ttl" "now \<le> t"
  shows "tk = tok \<and> live r now (''lock:'' @ key) = None \<and>
    live r' t k = (if k = ''lock:'' @ key then (if t < now + ttl then Some (RawText tok) else None) else live r t k)"
proof -
  have s: "rd_setnx R now (''lock:'' @ key) (RawText tok) ttl r = (RVal True, r')" "tk = tok"
    using assms(1,2) by (auto simp: acquire_lock_def split: prod.splits rres.splits)
  show ?thesis using setnx_true[OF s(1) assms(3,4), of k] setnx_free[OF s(1)] s(2) by simp
qed

lemma acquire_held:
  assumes "acquire_lock R now tok key ttl r = ((ok, tk), r')" "key \<noteq> ''''" "live r now (''lock:'' @ key) \<noteq> None"
  shows "\<not> ok"
proof
  assume ok: ok
  have s: "rd_setnx R now (''lock:'' @ key) (RawText tok) ttl r = (RVal True, r')"
    using assms(1,2) ok by (auto simp: acquire_lock_def split: prod.splits rres.splits)
  from setnx_free[OF s] show False using assms(3) by blast
qed

text \<open>Releasing with a token that is not the lock's has no effect on any key.\<close>

lemma release_other:
  assumes "release_lock R now key tok r = (e, r')" "live r now (''lock:'' @ key) \<noteq> Some (RawText tok)"
  shows "r' = r"
proof (cases "key = ''''")
  case True
  then show ?thesis using assms(1) by (simp add: release_lock_def)
next
  case False
  obtain res where ev: "rd_eval R (release_script R now (''lock:'' @ key) tok) r = (res, r')"
    using assms(1) False by (auto simp: release_lock_def split: prod.splits)
  have "snd (release_script R now (''lock:'' @ key) tok r) = r"
    using assms(2) by (simp add: release_script_def sv_get_live)
  then show ?thesis using eval_err[OF ev] by auto
qed

lemma release_own:
  assumes "release_lock R now key tok r = (None, r')" "key \<noteq> ''''" "live r now (''lock:'' @ key) = Some (RawText tok)"
  shows "live r' t k = (if k = ''lock:'' @ key then None else live r t k)"
proof -
  obtain n where ev: "rd_eval R (release_script R now (''lock:'' @ key) tok) r = (RVal n, r')"
    using assms(1,2) by (auto simp: release_lock_def split: prod.splits rres.splits)
  have "sv_del R (''lock:'' @ key) r = (n, r')"
    using eval_ok[OF ev] assms(3) by (simp add: release_script_def sv_get_live)
  then show ?thesis by (rule sv_del_live)
qed

end

section \<open>Properties\<close>

text \<open>
  C26. A stored result is found under its key, field by field, for as long as its time to live, and by
  no check afterwards.
\<close>

theorem cached_result_found:
  assumes "redis_keys R live" "key \<noteq> ''''" "idem_store R S now key c r = (None, r1)" "now \<le> t"
    and "idem_check R t key r1 = (Inr res, r2)"
  shows "res = (if t < now + id_ttl S then Some c else None)"
proof -
  obtain x where g: "rd_get R t (''idem:'' @ key) r1 = (x, r2)" "x = RNil \<and> res = None \<or> (\<exists>v y. x = RVal v \<and> unmarshal_cache v = Some y \<and> res = Some y)"
    using assms(2,5) by (auto simp: idem_check_def split: prod.splits rres.splits option.splits)
  have l: "live r1 t (''idem:'' @ key) = (if t < now + id_ttl S then Some (JsonText (cache_json c)) else None)"
    using redis_keys.store_live[OF assms(1,3,2,4)] by simp
  from g(2) show ?thesis
  proof (elim disjE exE conjE)
    assume "x = RNil" "res = None"
    then show ?thesis using redis_keys.get_nil[OF assms(1)] g(1) l by (metis option.distinct(1))
  next
    fix v y assume v: "x = RVal v" "unmarshal_cache v = Some y" "res = Some y"
    have "live r1 t (''idem:'' @ key) = Some v" using redis_keys.get_val[OF assms(1)] g(1) v(1) by blast
    then show ?thesis using l v(2,3) cache_decodes by (auto split: if_splits)
  qed
qed

definition demo_cache :: result_cache where
  "demo_cache = \<lparr>rca_inv = ''21'', rca_status = ''PENDING'', rca_result = '''', rca_error = ''''\<rparr>"

theorem cached_result_found_witness:
  "fst (idem_check ref_redis 100 ''k'' (snd (idem_store ref_redis new_idempotency 5 ''k'' demo_cache ref_state0))) = Inr (Some demo_cache)"
proof -
  let ?r1 = "ref_set 5 ''idem:k'' (JsonText (cache_json demo_cache)) (id_ttl new_idempotency) ref_state0"
  have s: "idem_store ref_redis new_idempotency 5 ''k'' demo_cache ref_state0 = (None, ?r1)"
    by (simp add: idem_store_def)
  have l: "ref_live ?r1 100 ''idem:k'' = Some (JsonText (cache_json demo_cache))"
    by (simp add: ref_live_def ref_set_def new_idempotency_def second_def)
  obtain res r2 where c: "idem_check ref_redis 100 ''k'' ?r1 = (Inr res, r2)"
    by (simp add: idem_check_def l cache_decodes)
  have "res = (if 100 < 5 + id_ttl new_idempotency then Some demo_cache else None)"
    by (rule cached_result_found[OF ref_keys.redis_keys_axioms _ s _ c]) simp_all
  then show ?thesis using s c by (simp add: new_idempotency_def second_def)
qed

text \<open>
  C6. A lock excludes: while it lives, no second acquisition of the key succeeds, not even after a
  release with another token; a release with its own token frees it.
\<close>

theorem lock_excludes:
  assumes "redis_keys R live" "key \<noteq> ''''" "acquire_lock R t0 tok key ttl r = ((True, tk), r1)"
    and "t0 \<le> t1" "t1 \<le> t2" "t2 < t0 + ttl" "release_lock R t1 key tok' r1 = (None, r2)"
    and "acquire_lock R t2 tok2 key ttl2 r2 = ((ok, tk2), r3)"
  shows "(tok' \<noteq> tk \<longrightarrow> \<not> ok) \<and> (tok' = tk \<longrightarrow> live r2 t2 (''lock:'' @ key) = None)"
proof -
  have ttl: "0 < ttl" using assms(4-6) by simp
  have tk: "tk = tok" using redis_keys.acquire_live[OF assms(1,3,2) ttl order_refl] by simp
  have l: "live r1 t (''lock:'' @ key) = (if t < t0 + ttl then Some (RawText tok) else None)" if "t0 \<le> t" for t
    using redis_keys.acquire_live[OF assms(1,3,2) ttl that] by simp
  have l1: "live r1 t1 (''lock:'' @ key) = Some (RawText tok)" using l assms(4-6) by simp
  have "\<not> ok" if "tok' \<noteq> tok"
  proof -
    have "r2 = r1" using redis_keys.release_other[OF assms(1,7)] l1 that by simp
    then have "live r2 t2 (''lock:'' @ key) \<noteq> None" using l assms(4-6) by simp
    then show ?thesis using redis_keys.acquire_held[OF assms(1,8,2)] by simp
  qed
  moreover have "live r2 t2 (''lock:'' @ key) = None" if "tok' = tok"
  proof -
    have l1': "live r1 t1 (''lock:'' @ key) = Some (RawText tok')" using l1 that by simp
    show ?thesis using redis_keys.release_own[OF assms(1), OF assms(7,2) l1'] by simp
  qed
  ultimately show ?thesis using tk by simp
qed

theorem lock_excludes_witness:
  "\<not> fst (fst (acquire_lock ref_redis 10 ''t2'' ''k'' 30 (snd (acquire_lock ref_redis 0 ''t1'' ''k'' 30 ref_state0))))"
proof -
  obtain r1 where a: "acquire_lock ref_redis 0 ''t1'' ''k'' 30 ref_state0 = ((True, ''t1''), r1)"
    by (simp add: acquire_lock_def ref_live_def ref_state0_def)
  have l: "ref_live r1 5 (''lock:'' @ ''k'') = Some (RawText ''t1'')"
    using ref_keys.acquire_live[OF a _ _, of 5 "''lock:'' @ ''k''"] by simp
  have rel: "release_lock ref_redis 5 ''k'' '''' r1 = (None, r1)"
    using l by (simp add: release_lock_def release_script_def ref_redis_def)
  obtain ok tk2 r3 where b: "acquire_lock ref_redis 10 ''t2'' ''k'' 30 r1 = ((ok, tk2), r3)" by (metis prod.collapse)
  have "\<not> ok"
    using lock_excludes[OF ref_keys.redis_keys_axioms _ a _ _ _ rel b] by simp
  then show ?thesis using a b by simp
qed

end
