(* ===== verification/Backoff.thy ===== *)
theory Backoff
  imports Float64
begin

text \<open>
  The retry policy of \<open>internal/retry/backoff.go\<close>: the delay before an attempt, in \<open>float64\<close>
  arithmetic rounded operation by operation, and whether another attempt is allowed.  \<open>math.Pow\<close> is
  modelled as the library computes it, by repeated squaring of a fraction and an exponent, for the
  whole exponents the program passes.
\<close>

section \<open>\<open>math.Pow\<close>\<close>

text \<open>\<open>math.Frexp\<close> of a finite number other than zero: a fraction in [1/2, 1) and an exponent.\<close>

definition frexp :: "rat \<Rightarrow> rat \<times> int" where
  "frexp x = (x / 2 powi (ilog2 \<bar>x\<bar> + 1), ilog2 \<bar>x\<bar> + 1)"

definition ldexp :: "rat \<Rightarrow> int \<Rightarrow> f64" where
  "ldexp a e = f64_of_rat (a * 2 powi e)"

text \<open>The loop: \<open>i\<close> is what is left of the exponent, \<open>a1 * 2 ^ ae\<close> the result so far.\<close>

fun pow_loop :: "nat \<Rightarrow> rat \<Rightarrow> int \<Rightarrow> rat \<Rightarrow> int \<Rightarrow> rat \<times> int" where
  "pow_loop i a1 ae x1 xe =
     (if i = 0 then (a1, ae)
      else if xe < - 4096 \<or> 4096 < xe then (a1, ae + xe)
      else let (a1', ae') = (if odd i then (rnd (a1 * x1), ae + xe) else (a1, ae));
               x2 = rnd (x1 * x1); xe2 = 2 * xe
           in if x2 < 1 / 2 then pow_loop (i div 2) a1' ae' (rnd (x2 + x2)) (xe2 - 1)
              else pow_loop (i div 2) a1' ae' x2 xe2)"

declare pow_loop.simps [simp del]

text \<open>\<open>math.Pow(x, y)\<close> for a whole number \<open>y\<close> that is not negative.\<close>

definition go_pow :: "f64 \<Rightarrow> nat \<Rightarrow> f64" where
  "go_pow x y =
     (if y = 0 \<or> x = Fin 1 then Fin 1
      else if y = 1 then x
      else case x of
          NaN \<Rightarrow> NaN
        | PInf \<Rightarrow> PInf
        | NInf \<Rightarrow> if odd y then NInf else PInf
        | Fin v \<Rightarrow>
            if v = 0 then Fin 0
            else if 2 ^ 63 \<le> y then (if v = - 1 then Fin 1 else if \<bar>v\<bar> < 1 then Fin 0 else PInf)
            else let (x1, xe) = frexp v; (a1, ae) = pow_loop y 1 0 x1 xe in ldexp a1 ae)"

section \<open>The policy\<close>

record retry_config =
  rc_initial :: int
  rc_multiplier :: f64
  rc_max_retries :: int
  rc_max_delay :: int
  rc_jitter :: bool

definition default_config :: retry_config where
  "default_config = \<lparr>rc_initial = 1 * second, rc_multiplier = Fin 2, rc_max_retries = 3,
     rc_max_delay = 30 * second, rc_jitter = True\<rparr>"

text \<open>
  \<open>Calculate\<close>, with the value \<open>u\<close> of \<open>rand.Float64()\<close>; \<open>None\<close> when the delay does not fit a
  \<open>Duration\<close>.  The exponent is \<open>float64(attempt - 1)\<close>, a whole number.
\<close>

definition whole :: "f64 \<Rightarrow> nat" where
  "whole y = (case y of Fin v \<Rightarrow> nat \<lfloor>v\<rfloor> | _ \<Rightarrow> 0)"

definition capped_delay :: "retry_config \<Rightarrow> int \<Rightarrow> f64" where
  "capped_delay c attempt =
     (let delay = f64_mul (f64_of_int (rc_initial c)) (go_pow (rc_multiplier c) (whole (f64_of_int (attempt - 1))))
      in if f64_lt (f64_of_int (rc_max_delay c)) delay then f64_of_int (rc_max_delay c) else delay)"

definition calculate :: "retry_config \<Rightarrow> f64 \<Rightarrow> int \<Rightarrow> int option" where
  "calculate c u attempt =
     (if attempt \<le> 0 then Some 0
      else let delay = capped_delay c attempt
           in f64_to_int64 (if rc_jitter c
                then f64_add delay (f64_mul (f64_mul delay (f64_of_rat (3 / 10))) u) else delay))"

definition should_retry :: "retry_config \<Rightarrow> int \<Rightarrow> bool" where
  "should_retry c attempt \<longleftrightarrow> attempt < rc_max_retries c"

section \<open>Powers of two\<close>

lemma rnd_pow2 [simp]: "- 1074 \<le> k \<Longrightarrow> rnd (2 powi k) = 2 powi k"
  using f64.exact[of 1 k] by simp

lemma rnd_quarter: "rnd (1 / 4) = 1 / 4"
  using rnd_pow2[of "- 2"] by (simp add: power_int_minus)

lemma frexp_2: "frexp 2 = (1 / 2, 2)"
proof -
  have "ilog2 2 = 1" by (rule ilog2_unique) simp_all
  then show ?thesis by (simp add: frexp_def)
qed

lemma rnd_half_pow2: "- 1073 \<le> p \<Longrightarrow> rnd (2 powi p / 2) = 2 powi (p - 1)"
  using rnd_pow2[of "p - 1"] by (simp add: power_int_diff)

text \<open>The fraction stays 1/2 and the exponent is one more than a power of two.\<close>

lemma pow_loop_2:
  "k \<le> 12 \<Longrightarrow> - 1000 \<le> p - int (12 - k) \<Longrightarrow>
   \<exists>a e. pow_loop i (2 powi p) ae (1 / 2) (2 ^ k + 1) = (2 powi a, e) \<and>
     (if i < 2 ^ (12 - k) then a + e = p + ae + 2 ^ k * int i else p + ae + 4096 \<le> a + e)"
proof (induction i arbitrary: k p ae rule: less_induct)
  case (less i)
  show ?case
  proof (cases "i = 0")
    case True
    then show ?thesis by (subst pow_loop.simps) auto
  next
    case False
    show ?thesis
    proof (cases "k = 12")
      case True
      then show ?thesis using False by (subst pow_loop.simps) (auto intro!: exI[of _ p])
    next
      case k: False
      then have k12: "k < 12" "Suc k \<le> 12" "12 - k = Suc (12 - Suc k)" using less.prems by auto
      have "(2::int) ^ k \<le> 2 ^ 11" using k12 by (intro power_increasing) auto
      then have nb: "\<not> ((2::int) ^ k + 1 < - 4096 \<or> 4096 < 2 ^ k + (1::int))" by (simp add: not_less add_nonneg_nonneg)
      define p' where "p' = (if odd i then p - 1 else p)"
      define ae' where "ae' = (if odd i then ae + (2 ^ k + 1) else ae)"
      have step: "pow_loop i (2 powi p) ae (1 / 2) (2 ^ k + 1) = pow_loop (i div 2) (2 powi p') ae' (1 / 2) (2 ^ Suc k + 1)"
        using False nb less.prems rnd_half_pow2[of p]
        by (subst pow_loop.simps)
          (simp add: Let_def rnd_quarter f64.exact_half p'_def ae'_def algebra_simps)
      have h1: "i div 2 < i" using False by simp
      have h3: "- 1000 \<le> p' - int (12 - Suc k)" using less.prems k12 by (auto simp: p'_def)
      have "\<exists>a e. pow_loop (i div 2) (2 powi p') ae' (1 / 2) (2 ^ Suc k + 1) = (2 powi a, e) \<and>
        (if i div 2 < 2 ^ (12 - Suc k) then a + e = p' + ae' + 2 ^ Suc k * int (i div 2) else p' + ae' + 4096 \<le> a + e)"
        by (rule less.IH[OF h1 k12(2) h3])
      then obtain a e where both: "pow_loop (i div 2) (2 powi p') ae' (1 / 2) (2 ^ Suc k + 1) = (2 powi a, e) \<and>
        (if i div 2 < 2 ^ (12 - Suc k) then a + e = p' + ae' + 2 ^ Suc k * int (i div 2) else p' + ae' + 4096 \<le> a + e)"
        by (elim exE)
      note ae = both[THEN conjunct1] both[THEN conjunct2]
      have lt: "i < 2 ^ (12 - k) \<longleftrightarrow> i div 2 < 2 ^ (12 - Suc k)"
        unfolding k12(3) by (auto simp: div_less_iff_less_mult)
      have sum: "p' + ae' = p + ae + (if odd i then 2 ^ k else 0)" by (simp add: p'_def ae'_def)
      have "int i = 2 * int (i div 2) + (if odd i then 1 else 0)"
        by (cases "even i") (auto elim!: evenE oddE)
      then have m: "2 ^ k * int i = 2 ^ Suc k * int (i div 2) + (if odd i then 2 ^ k else 0)"
        by (simp add: algebra_simps split: if_splits)
      show ?thesis
      proof (intro exI conjI)
        show "pow_loop i (2 powi p) ae (1 / 2) (2 ^ k + 1) = (2 powi a, e)" using step ae(1) by simp
        show "if i < 2 ^ (12 - k) then a + e = p + ae + 2 ^ k * int i else p + ae + 4096 \<le> a + e"
        proof (cases "i < 2 ^ (12 - k)")
          case True
          then show ?thesis using ae(2) lt sum m by simp
        next
          case False
          moreover have "p + ae \<le> p' + ae'" unfolding sum by simp
          ultimately show ?thesis using ae(2) lt by simp
        qed
      qed
    qed
  qed
qed

lemma f64_of_pow2: "0 \<le> k \<Longrightarrow> f64_of_rat (2 powi k) = (if k \<le> 1023 then Fin (2 powi k) else PInf)"
proof -
  assume k: "0 \<le> k"
  then have r: "rnd (2 powi k) = 2 powi k" by simp
  have p: "(2::rat) ^ 1024 = 2 powi 1024" by (simp add: power_int_def)
  have "(2::rat) powi 1024 \<le> 2 powi k \<longleftrightarrow> 1024 \<le> k"
    by (meson numeral_le_one_iff one_less_numeral_iff power_int_increasing power_int_strict_increasing
        not_le one_le_numeral semiring_norm(76))
  moreover have "\<not> (2::rat) powi k \<le> - (2 powi 1024)"
    by (metis neg_0_less_iff_less not_less_iff_gr_or_eq order.strict_trans2 zero_less_numeral zero_less_power_int)
  ultimately show ?thesis unfolding f64_of_rat_def r p Let_def by auto
qed

lemma ldexp_pow2: "0 \<le> a + e \<Longrightarrow> ldexp (2 powi a) e = (if a + e \<le> 1023 then Fin (2 powi (a + e)) else PInf)"
  unfolding ldexp_def using f64_of_pow2[of "a + e"] by (simp add: power_int_add)

lemma go_pow_2:
  assumes "n < 2 ^ 63"
  shows "go_pow (Fin 2) n = (if n \<le> 1023 then Fin (2 ^ n) else PInf)"
proof (cases "n \<le> 1")
  case True
  then show ?thesis by (auto simp: go_pow_def le_Suc_eq)
next
  case False
  obtain a e where ae: "pow_loop n (2 powi 0) 0 (1 / 2) (2 ^ 0 + 1) = (2 powi a, e)"
    "if n < 2 ^ (12 - 0) then a + e = 0 + 0 + 2 ^ 0 * int n else 0 + 0 + 4096 \<le> a + e"
    using pow_loop_2[of 0 0 n 0] by auto
  have "go_pow (Fin 2) n = ldexp (2 powi a) e"
    using False assms ae(1) by (simp add: go_pow_def frexp_2 Let_def)
  also have "\<dots> = (if a + e \<le> 1023 then Fin (2 powi (a + e)) else PInf)"
    using ae(2) by (intro ldexp_pow2) (auto split: if_splits)
  finally show ?thesis
    using ae(2) by (auto simp: power_int_def split: if_splits)
qed

section \<open>The default policy\<close>

definition base_delay :: "int \<Rightarrow> int" where
  "base_delay k = min (2 ^ nat (k - 1)) 30 * second"

lemma f64_lt_of_rat: "n < m \<Longrightarrow> \<bar>m\<bar> \<le> 2 ^ 53 \<Longrightarrow> of_int m \<le> x \<Longrightarrow> f64_lt (Fin (of_int n)) (f64_of_rat x)"
proof -
  assume nm: "n < m" and m: "\<bar>m\<bar> \<le> 2 ^ 53" and x: "of_int m \<le> x"
  have r: "of_int m \<le> rnd x" using f64.ge_int[OF m x] .
  have "- (2 ^ 53) \<le> m" using m by (simp add: abs_le_iff)
  then have "of_int (- (2 ^ 53)) \<le> (of_int m :: rat)" by (rule of_int_le_iff[THEN iffD2])
  with r have "- (2 ^ 53) \<le> rnd x" by simp
  moreover have "of_int n < rnd x" using nm r by (metis of_int_less_iff order_less_le_trans)
  ultimately show ?thesis by (auto simp: f64_of_rat_def Let_def)
qed

text \<open>The delay before jitter: doubling from one second, at most thirty.\<close>

lemma default_delay:
  assumes k: "1 \<le> k" "k \<le> 2 ^ 53"
  shows "capped_delay default_config k = Fin (of_int (base_delay k))"
proof -
  define n where "n = nat (k - 1)"
  have w: "whole (f64_of_int (k - 1)) = n" using k by (simp add: whole_def n_def)
  have n63: "n < 2 ^ 63" using k by (simp add: n_def)
  have p: "go_pow (Fin 2) n = (if n \<le> 1023 then Fin (2 ^ n) else PInf)" by (rule go_pow_2[OF n63])
  show ?thesis
  proof (cases "n \<le> 4")
    case True
    have le: "second * 2 ^ n \<le> second * 2 ^ 4" using True by (intro mult_left_mono power_increasing) (auto simp: second_def)
    have pos: "0 \<le> second * 2 ^ n" by (simp add: second_def)
    have "f64_of_int (second * 2 ^ n) = Fin (of_int (second * 2 ^ n))"
      using le pos by (intro f64_of_int_small) (simp add: second_def)
    then have "f64_mul (f64_of_int second) (Fin (2 ^ n)) = Fin (of_int (second * 2 ^ n))"
      by (simp add: second_def f64_of_int_def[of "1000000000 * 2 ^ n"])
    moreover have "base_delay k = second * 2 ^ n"
    proof -
      have "(2::int) ^ n \<le> 2 ^ 4" using True by (intro power_increasing) auto
      then show ?thesis by (simp add: base_delay_def n_def)
    qed
    moreover have "\<not> of_int (30 * second) < (of_int (second * 2 ^ n) :: rat)"
      using le by (simp only: of_int_less_iff) (simp add: second_def)
    ultimately show ?thesis using True by (simp add: capped_delay_def default_config_def w p second_def)
  next
    case False
    have "(2::int) ^ 5 \<le> 2 ^ n" using False by (intro power_increasing) auto
    then have b: "base_delay k = 30 * second" and r: "of_int (32 * second) \<le> (1000000000 * 2 ^ n :: rat)"
      by (simp_all add: base_delay_def n_def second_def)
        (metis of_int_le_iff of_int_numeral of_int_power)
    have "f64_lt (Fin (of_int (30 * second))) (f64_mul (f64_of_int second) (go_pow (Fin 2) n))"
    proof (cases "n \<le> 1023")
      case True
      have "f64_lt (Fin (of_int (30 * second))) (f64_of_rat (1000000000 * 2 ^ n))"
        by (rule f64_lt_of_rat[OF _ _ r]) (simp_all add: second_def)
      then show ?thesis using True by (simp add: p second_def)
    qed (simp add: p second_def f64_inf_times_def)
    then show ?thesis by (simp add: capped_delay_def default_config_def w b second_def)
  qed
qed

lemma base_delay_bounds: "1 \<le> k \<Longrightarrow> second \<le> base_delay k \<and> base_delay k \<le> 30 * second"
  by (auto simp: base_delay_def second_def)

text \<open>The jitter of a delay that is a whole number of seconds.\<close>

lemma jitter_bounds:
  assumes s: "1 \<le> s" "s \<le> 30" and u: "0 \<le> u" "u < 1"
  shows "\<exists>x. f64_add (Fin (of_int (s * second))) (f64_mul (f64_mul (Fin (of_int (s * second))) (f64_of_rat (3 / 10))) (Fin u)) = Fin x
     \<and> of_int (s * second) \<le> x \<and> x \<le> of_int (13 * (s * second) div 10)
     \<and> (1 / 2 \<le> u \<longrightarrow> of_int (s * second + s * second div 8) \<le> x)"
proof -
  let ?D = "of_int (s * second) :: rat"
  have Dpos: "0 \<le> s * second" using s by (simp add: second_def)
  have q: "1 / 4 \<le> rnd (3 / 10)" "rnd (3 / 10) \<le> 3 / 10"
  proof -
    show "1 / 4 \<le> rnd (3 / 10)" using f64.mono[of "1 / 4" "3 / 10"] rnd_quarter by simp
    show "rnd (3 / 10) \<le> 3 / 10" by code_simp
  qed
  have c: "f64_of_rat (3 / 10) = Fin (rnd (3 / 10))" by (rule f64_of_rat_small) simp
  let ?p = "?D * rnd (3 / 10)"
  have D: "0 \<le> ?D" using Dpos by (rule of_int_nonneg)
  have Dup: "?D \<le> 30000000000" using s by (simp add: second_def)
  have p: "?D * (1 / 4) \<le> ?p" "?p \<le> ?D * (3 / 10)" using q D by (intro mult_left_mono; simp)+
  have e4: "?D * (1 / 4) = of_int (s * 250000000)" "?D * (3 / 10) = of_int (s * 300000000)"
    by (simp_all add: second_def)
  have rp: "of_int (s * 250000000) \<le> rnd ?p" "rnd ?p \<le> of_int (s * 300000000)"
    by (rule f64.ge_int[OF _ p(1)[unfolded e4]] f64.le_int[OF _ p(2)[unfolded e4]]; use s in simp)+
  have m1: "f64_mul (Fin ?D) (f64_of_rat (3 / 10)) = Fin (rnd ?p)"
    using p D Dup q by (simp add: c f64_of_rat_small)
  have s9: "(of_int (s * 300000000) :: rat) \<le> 9000000000" using s by simp
  let ?j = "rnd ?p * u"
  have rp0: "0 \<le> rnd ?p" using rp(1) s by (meson mult_nonneg_nonneg of_int_nonneg order.trans zero_le_numeral zero_le_one)
  have j: "0 \<le> ?j" "?j \<le> of_int (s * 300000000)"
    using u rp0 rp(2) mult_left_le[of u "rnd ?p"] by auto
  have rj: "0 \<le> rnd ?j" "rnd ?j \<le> of_int (s * 300000000)"
    by (rule f64.nonneg[OF j(1)]) (rule f64.le_int[OF _ j(2)], use s in simp)
  have rj2: "of_int (s * 125000000) \<le> rnd ?j" if "1 / 2 \<le> u"
  proof -
    have "of_int (s * 250000000) * (1 / 2) \<le> ?j" using that rp(1) u rp0 s by (intro mult_mono) auto
    then show ?thesis using s by (intro f64.ge_int) auto
  qed
  have m2: "f64_mul (Fin (rnd ?p)) (Fin u) = Fin (rnd ?j)"
    using j s9 by (simp add: f64_of_rat_small)
  let ?x = "rnd (?D + rnd ?j)"
  have add: "f64_add (Fin ?D) (Fin (rnd ?j)) = Fin ?x"
    using D Dup rj s9 by (simp add: f64_of_rat_small)
  have "?D \<le> ?x" using rj(1) s by (intro f64.ge_int) (auto simp: second_def)
  moreover have "?x \<le> of_int (s * 1300000000)" using rj(2) s by (intro f64.le_int) (auto simp: second_def)
  moreover have "of_int (s * 1125000000) \<le> ?x" if "1 / 2 \<le> u"
    using rj2[OF that] s by (intro f64.ge_int) (auto simp: second_def)
  moreover have "13 * (s * second) div 10 = s * 1300000000" "s * second + s * second div 8 = s * 1125000000"
    by (simp_all add: second_def)
  ultimately show ?thesis unfolding m1 m2 add by (intro exI[of _ ?x]) auto
qed

section \<open>Properties\<close>

lemma capped_delay_jitter [simp]: "capped_delay (c\<lparr>rc_jitter := b\<rparr>) k = capped_delay c k"
  by (simp add: capped_delay_def Let_def)

lemma default_jitter [simp]: "rc_jitter default_config"
  by (simp add: default_config_def)

text \<open>
  C31. Without jitter the default policy waits 1, 2, 4, 8, 16 seconds and then 30 seconds before every
  further attempt: the repeated squaring of \<open>math.Pow\<close>, its overflow to infinity for late attempts
  and the rounding of the product never show.
\<close>

theorem default_backoff_schedule:
  assumes "1 \<le> k" "k \<le> 2 ^ 53"
  shows "calculate (default_config\<lparr>rc_jitter := False\<rparr>) u k = Some (min (2 ^ nat (k - 1)) 30 * second)"
proof -
  have "in_int64 (base_delay k)"
    using base_delay_bounds[OF assms(1)] by (simp add: in_int64_def second_def)
  then show ?thesis
    using assms(1) default_delay[OF assms]
    by (simp add: calculate_def capped_delay_jitter) (simp add: base_delay_def)
qed

theorem default_backoff_schedule_witness:
  "calculate (default_config\<lparr>rc_jitter := False\<rparr>) (Fin 0) 7 = Some (30 * second)"
  using default_backoff_schedule[of 7 "Fin 0"] by simp

text \<open>
  With jitter the default policy waits at least as long as without it and at most 30 per cent longer,
  whatever the random number; in the upper half of its range the delay is at least an eighth longer,
  so from the sixth attempt on it exceeds \<open>MaxDelay\<close>.
\<close>

theorem default_backoff_jitter:
  assumes "1 \<le> k" "k \<le> 2 ^ 53" "0 \<le> u" "u < 1"
  shows "\<exists>t. calculate default_config (Fin u) k = Some t \<and> base_delay k \<le> t \<and> t \<le> 13 * base_delay k div 10 \<and>
    (1 / 2 \<le> u \<longrightarrow> base_delay k + base_delay k div 8 \<le> t)"
proof -
  define s :: int where "s = min (2 ^ nat (k - 1)) 30"
  have s: "1 \<le> s" "s \<le> 30" and b: "base_delay k = s * second" by (simp_all add: s_def base_delay_def)
  obtain x where x: "f64_add (Fin (of_int (s * second))) (f64_mul (f64_mul (Fin (of_int (s * second))) (f64_of_rat (3 / 10))) (Fin u)) = Fin x"
    "of_int (s * second) \<le> x" "x \<le> of_int (13 * (s * second) div 10)"
    "1 / 2 \<le> u \<longrightarrow> of_int (s * second + s * second div 8) \<le> x"
    using jitter_bounds[OF s assms(3,4)] by blast
  have t: "s * second \<le> trunc_rat x" "trunc_rat x \<le> 13 * (s * second) div 10"
    "1 / 2 \<le> u \<longrightarrow> s * second + s * second div 8 \<le> trunc_rat x"
    using trunc_rat_mono[OF x(2)] trunc_rat_mono[OF x(3)] x(4)
      trunc_rat_mono[of "of_int (s * second + s * second div 8)" x] unfolding trunc_rat_of_int by auto
  have "13 * (s * second) div 10 \<le> 39000000000" using s by (simp add: second_def)
  then have "in_int64 (trunc_rat x)" using t s by (simp add: in_int64_def second_def)
  moreover have "calculate default_config (Fin u) k = f64_to_int64 (Fin x)"
    using assms(1) x(1) by (simp add: calculate_def default_delay[OF assms(1,2)] b del: of_int_mult)
  ultimately show ?thesis using t unfolding b by (intro exI[of _ "trunc_rat x"]) simp
qed

theorem default_backoff_jitter_witness:
  "\<exists>t. calculate default_config (Fin (1 / 2)) 6 = Some t \<and> 30 * second < t"
proof -
  have b: "base_delay 6 = 30 * second" by (simp add: base_delay_def)
  obtain t where "calculate default_config (Fin (1 / 2)) 6 = Some t" "base_delay 6 + base_delay 6 div 8 \<le> t"
    using default_backoff_jitter[of 6 "1 / 2"] by auto
  then show ?thesis unfolding b by (auto simp: second_def)
qed

end
