(* ===== verification/Invocation.thy ===== *)
theory Invocation
  imports Repository JobQueue Idempotency Backoff
begin

text \<open>
  \<open>internal/invocation/service.go\<close> and \<open>internal/retry/retrier.go\<close>: the submission of an invocation
  (idempotency check, lock, active version, record, job), the handling of a result (success, retry,
  dead-letter queue), and the dead-letter queue.  The state is the database, the Redis server and the
  timers \<open>time.AfterFunc\<close> has pending.
\<close>

section \<open>The dead-letter queue\<close>

text \<open>Identifiers and clock readings an operation draws.\<close>

record svc_env =
  se_id :: uuid
  se_id2 :: uuid
  se_token :: string
  se_now :: "nat \<Rightarrow> int"

definition dlq_enqueue ::
  "pg \<Rightarrow> 'r redis \<Rightarrow> ext \<Rightarrow> rqueue \<Rightarrow> svc_env \<Rightarrow> job \<Rightarrow> string \<Rightarrow> db \<times> 'r \<Rightarrow> string option \<times> db \<times> 'r" where
  "dlq_enqueue P R X q E j msg = (\<lambda>(d, r).
     let (_, r') = enqueue_dlq R X q (se_id2 E) (se_now E 0) j msg r;
         e = \<lparr>dlq_id = se_id E, dlq_fn = parsed_uuid X (job_fn j), dlq_ver = parsed_uuid X (job_ver j),
              dlq_attempts = job_retries j, dlq_error = msg, dlq_created = se_now E 1\<rparr>;
         (_, d') = pg_exec P (sql_insert_dlq e) d
     in (None, d', r'))"

definition dlq_list :: "pg \<Rightarrow> db \<Rightarrow> (sql_err + dlq_entry list) \<times> db" where
  "dlq_list P d = pg_query P (sql_select_dlq P) Inr d"

text \<open>\<open>RetryFromDLQ\<close> deletes the entry; nothing is queued.\<close>

definition retry_from_dlq :: "pg \<Rightarrow> uuid \<Rightarrow> db \<Rightarrow> (sql_err + unit) \<times> db" where
  "retry_from_dlq P i d = pg_exec P (sql_delete_dlq i) d"

section \<open>Submitting an invocation\<close>

record invoke_req =
  iq_fn :: uuid
  iq_key :: string
  iq_payload :: jmap

record invoke_result =
  ir_inv :: uuid
  ir_status :: string
  ir_message :: string
  ir_duplicate :: bool

datatype svc_err =
    ConcurrentKey | FunctionNotFound sql_err | NoActiveVersion | VersionNotFound sql_err
  | VersionNotReady string | CreateFailed sql_err | EnqueueFailed string

text \<open>\<open>uuid.MustParse\<close> panics on a text that is not an identifier.\<close>

datatype invoke_out = Invoked invoke_result | InvokeErr svc_err | InvokePanic

record inv_service =
  is_idem :: idempotency
  is_policy :: retry_config

definition new_inv_service :: inv_service where
  "new_inv_service = \<lparr>is_idem = new_idempotency, is_policy = default_config\<rparr>"

definition new_invocation :: "svc_env \<Rightarrow> func \<Rightarrow> version \<Rightarrow> string \<Rightarrow> invocation" where
  "new_invocation E fn ver key = \<lparr>inv_id = se_id E, inv_fn = fn_id fn, inv_ver = ver_id ver, inv_worker = uuid_nil,
     inv_status = st_pending, inv_duration = 0, inv_cold = False, inv_retries = 0, inv_error = '''',
     inv_key = key, inv_created = 0\<rparr>"

definition invocation_job :: "ext \<Rightarrow> inv_service \<Rightarrow> svc_env \<Rightarrow> func \<Rightarrow> version \<Rightarrow> invoke_req \<Rightarrow> job" where
  "invocation_job X S E fn ver q = \<lparr>job_id = se_id2 E, job_inv = uuid_str X (se_id E), job_fn = uuid_str X (fn_id fn),
     job_ver = uuid_str X (ver_id ver), job_image = ver_image ver, job_entry = fn_entrypoint fn,
     job_payload = iq_payload q, job_memory = fn_memory fn, job_cpu = fn_cpu fn, job_timeout = fn_timeout fn,
     job_retries = 0, job_max_retries = rc_max_retries (is_policy S), job_key = iq_key q, job_worker = '''',
     job_created = se_now E 2\<rparr>"

text \<open>\<open>Invoke\<close> after the idempotency check and the lock.\<close>

definition submit ::
  "pg \<Rightarrow> 'r redis \<Rightarrow> ext \<Rightarrow> rqueue \<Rightarrow> inv_service \<Rightarrow> svc_env \<Rightarrow> invoke_req \<Rightarrow> db \<times> 'r \<Rightarrow> invoke_out \<times> db \<times> 'r" where
  "submit P R X rq S E q = (\<lambda>(d, r).
     case fn_get_by_id P (iq_fn q) d of
       (Inl e, d1) \<Rightarrow> (InvokeErr (FunctionNotFound e), d1, r)
     | (Inr fn, d1) \<Rightarrow>
         if fn_active fn = uuid_nil then (InvokeErr NoActiveVersion, d1, r)
         else (case ver_get_by_id P (fn_active fn) d1 of
             (Inl e, d2) \<Rightarrow> (InvokeErr (VersionNotFound e), d2, r)
           | (Inr ver, d2) \<Rightarrow>
               if ver_status ver \<noteq> st_ready then (InvokeErr (VersionNotReady (ver_status ver)), d2, r)
               else (case inv_create P (new_invocation E fn ver (iq_key q)) d2 of
                   (Inl e, d3) \<Rightarrow> (InvokeErr (CreateFailed e), d3, r)
                 | (Inr _, d3) \<Rightarrow>
                     (case enqueue_job R X rq (invocation_job X S E fn ver q) r of
                        (Some e, r1) \<Rightarrow>
                          (let (_, d4) = inv_update_status P (se_id E) st_failed 0 e d3
                           in (InvokeErr (EnqueueFailed e), d4, r1))
                      | (None, r1) \<Rightarrow>
                          (let r2 = (if iq_key q \<noteq> ''''
                                then snd (idem_store R (is_idem S) (se_now E 3) (iq_key q)
                                  \<lparr>rca_inv = uuid_str X (se_id E), rca_status = st_pending, rca_result = '''', rca_error = ''''\<rparr> r1)
                                else r1)
                           in (Invoked \<lparr>ir_inv = se_id E, ir_status = st_pending,
                                 ir_message = ''Invocation queued successfully'', ir_duplicate = False\<rparr>, d3, r2))))))"

text \<open>The deferred \<open>ReleaseLock\<close> runs on every return after the lock, with the empty token.\<close>

definition svc_invoke ::
  "pg \<Rightarrow> 'r redis \<Rightarrow> ext \<Rightarrow> rqueue \<Rightarrow> inv_service \<Rightarrow> svc_env \<Rightarrow> invoke_req \<Rightarrow> db \<times> 'r \<Rightarrow> invoke_out \<times> db \<times> 'r" where
  "svc_invoke P R X rq S E q = (\<lambda>(d, r).
     if iq_key q = '''' then submit P R X rq S E q (d, r)
     else let (cached, r1) = idem_check R (se_now E 0) (iq_key q) r
       in case cached of
            Inr (Some c) \<Rightarrow>
              (case uuid_parse X (rca_inv c) of
                 None \<Rightarrow> (InvokePanic, d, r1)
               | Some i \<Rightarrow> (Invoked \<lparr>ir_inv = i, ir_status = rca_status c,
                   ir_message = ''Duplicate request - returning cached result'', ir_duplicate = True\<rparr>, d, r1))
          | _ \<Rightarrow>
              (let ((acquired, _), r2) = acquire_lock R (se_now E 1) (se_token E) (iq_key q) (30 * second) r1
               in if \<not> acquired then (InvokeErr ConcurrentKey, d, r2)
                  else let (out, d', r3) = submit P R X rq S E q (d, r2)
                    in (out, d', snd (release_lock R (se_now E 4) (iq_key q) '''' r3))))"

section \<open>Handling a result\<close>

text \<open>The job built from a failed result, with the duration where the retry count belongs.\<close>

definition failed_job :: "inv_service \<Rightarrow> job_result \<Rightarrow> job" where
  "failed_job S res = zero_job\<lparr>job_inv := jr_inv res, job_fn := jr_fn res, job_ver := jr_ver res,
     job_retries := jr_duration res, job_max_retries := rc_max_retries (is_policy S)\<rparr>"

text \<open>
  \<open>ProcessResult\<close>: the pending timers are delays with the job to enqueue.  Every call to the
  idempotency service passes the empty key.
\<close>

definition process_result ::
  "pg \<Rightarrow> 'r redis \<Rightarrow> ext \<Rightarrow> rqueue \<Rightarrow> inv_service \<Rightarrow> svc_env \<Rightarrow> f64 \<Rightarrow> job_result \<Rightarrow>
   db \<times> 'r \<times> (int option \<times> job) list \<Rightarrow> db \<times> 'r \<times> (int option \<times> job) list" where
  "process_result P R X rq S E u res = (\<lambda>(d, r, ts).
     let i = parsed_uuid X (jr_inv res) in
     if jr_status res = st_success \<or> jr_exit res = 0 then
       (let (_, d1) = inv_update_status P i st_success (jr_duration res) '''' d;
            r1 = (if jr_inv res \<noteq> '''' then snd (idem_store R (is_idem S) (se_now E 0) ''''
                    \<lparr>rca_inv = jr_inv res, rca_status = st_success, rca_result = jr_stdout res, rca_error = ''''\<rparr> r) else r)
        in (d1, r1, ts))
     else
       (let j = failed_job S res in
        if should_retry (is_policy S) (job_retries j) then
          (let (_, d1) = inv_update_status P i st_retrying 0 (jr_error res) d
           in (d1, r, ts @ [(calculate (is_policy S) u (job_retries j), j\<lparr>job_retries := wrap64 (job_retries j + 1)\<rparr>)]))
        else
          (let (_, d1) = inv_update_status P i st_failed (jr_duration res) (jr_error res) d;
               (_, d2, r1) = dlq_enqueue P R X rq E j (jr_error res) (d1, r);
               r2 = snd (idem_store R (is_idem S) (se_now E 0) ''''
                    \<lparr>rca_inv = jr_inv res, rca_status = st_failed, rca_result = '''', rca_error = jr_error res\<rparr> r1)
           in (d2, r2, ts))))"

text \<open>A timer that fires enqueues its job.\<close>

definition fire_timer :: "'r redis \<Rightarrow> ext \<Rightarrow> rqueue \<Rightarrow> job \<Rightarrow> 'r \<Rightarrow> 'r" where
  "fire_timer R X rq j r = snd (enqueue_job R X rq j r)"

definition get_invocation :: "pg \<Rightarrow> uuid \<Rightarrow> db \<Rightarrow> (sql_err + invocation) \<times> db" where
  "get_invocation P i d = inv_get_by_id P i d"

definition list_invocations :: "pg \<Rightarrow> uuid \<Rightarrow> int \<Rightarrow> db \<Rightarrow> (sql_err + invocation list) \<times> db" where
  "list_invocations P f limit d = inv_list_by_function_id P f limit d"

section \<open>Effects\<close>

lemma fn_get_by_id_state: "fn_get_by_id P i d = (x, d') \<Longrightarrow> d' = d\<lparr>db_calls := Suc (db_calls d)\<rparr>"
  by (rule repo_reads)

lemma ver_get_by_id_state: "ver_get_by_id P i d = (x, d') \<Longrightarrow> d' = d\<lparr>db_calls := Suc (db_calls d)\<rparr>"
  by (rule repo_reads)

text \<open>What a successful \<open>submit\<close> went through.\<close>

lemma submit_InvokedE:
  assumes "submit P R X rq S E q (d, r) = (Invoked res, d', r')"
  obtains fn ver d1 d2 r1 where
    "fn_get_by_id P (iq_fn q) d = (Inr fn, d1)" "fn_active fn \<noteq> uuid_nil"
    "ver_get_by_id P (fn_active fn) d1 = (Inr ver, d2)" "ver_status ver = st_ready"
    "inv_create P (new_invocation E fn ver (iq_key q)) d2 = (Inr (), d')"
    "enqueue_job R X rq (invocation_job X S E fn ver q) r = (None, r1)"
    "r' = (if iq_key q \<noteq> '''' then snd (idem_store R (is_idem S) (se_now E 3) (iq_key q)
       \<lparr>rca_inv = uuid_str X (se_id E), rca_status = st_pending, rca_result = '''', rca_error = ''''\<rparr> r1) else r1)"
    "ir_inv res = se_id E" "ir_status res = st_pending" "\<not> ir_duplicate res"
  using assms
  by (auto simp: submit_def Let_def split: prod.splits sum.splits if_splits option.splits)

lemma submit_err_redis:
  assumes "submit P R X rq S E q (d, r) = (out, d', r')" "\<forall>res. out \<noteq> Invoked res" "\<forall>e. out \<noteq> InvokeErr (EnqueueFailed e)"
  shows "r' = r"
  using assms
  by (auto simp: submit_def Let_def split: prod.splits sum.splits if_splits option.splits)

context redis_server
begin

text \<open>Submitting leaves every key alone but the cached result of its own.\<close>

lemma submit_live:
  assumes "submit P R X rq S E q (d, r) = (out, d', r')" "k \<noteq> q_jobs rq" "k \<noteq> ''idem:'' @ iq_key q" "se_now E 3 \<le> t"
  shows "live r' t k = live r t k"
proof -
  have enq: "live r1 t k = live r t k" if "enqueue_job R X rq j r = (e, r1)" for j e r1
    using that assms(2) xadd_live
    by (auto simp: enqueue_job_def split: option.splits prod.splits)
  have store: "live (snd (idem_store R (is_idem S) (se_now E 3) (iq_key q) c r1)) t k = live r1 t k" for c r1
    using set_any[of "se_now E 3" "''idem:'' @ iq_key q" _ _ r1 _ _ t k] assms(3,4)
    by (auto simp: idem_store_def split: prod.splits)
  show ?thesis
    using assms(1)
    by (auto simp: submit_def Let_def store enq split: prod.splits sum.splits if_splits option.splits)
qed

lemma idem_check_live: "idem_check R now key r = (x, r') \<Longrightarrow> live r' = live r"
  using get_state by (auto simp: idem_check_def split: prod.splits if_splits)

lemma release_live_other:
  assumes "live r now (''lock:'' @ key) \<noteq> Some (RawText tok)"
  shows "snd (release_lock R now key tok r) = r"
proof -
  obtain e r' where x: "release_lock R now key tok r = (e, r')" by fastforce
  show ?thesis using release_other[OF x assms] x by simp
qed

end

lemma lock_not_idem: "''lock:'' @ a \<noteq> ''idem:'' @ b"
  by simp

section \<open>Properties\<close>

text \<open>
  C9. An accepted invocation has a PENDING record, for a version of the function's that is READY, and
  exactly one new entry of the job stream, which carries a job with the record's identifier and the
  function's image, entrypoint and limits.
\<close>

theorem accepted_invocation_is_recorded_and_queued:
  assumes "redis_server R strm grps seen pend live" "ext_codec X"
    and "submit P R X rq S E q (d, r) = (Invoked res, d', r')" "q_jobs rq \<noteq> ''idem:'' @ iq_key q"
  shows "\<exists>fn ver m js. ver \<in> set (db_versions d) \<and> ver_status ver = st_ready \<and> ver_id ver = fn_active fn \<and>
    (\<exists>row \<in> set (db_functions d). fr_id row = iq_fn q \<and> scan_function P row = Inr fn) \<and>
    (\<exists>now. db_invocations d' = db_invocations d @ [new_invocation E fn ver (iq_key q)\<lparr>inv_created := now\<rparr>]) \<and>
    strm r' (q_jobs rq) = strm r (q_jobs rq) @ [m] \<and> ir_inv res = se_id E \<and>
    job_json X (invocation_job X S E fn ver q) = Some js \<and> msg_data m = Some (JsonText js)"
proof -
  note srv = assms(1)
  have str: "redis_streams R strm grps seen pend" using srv by (simp add: redis_server_def)
  obtain fn ver d1 d2 r1 where s: "fn_get_by_id P (iq_fn q) d = (Inr fn, d1)" "fn_active fn \<noteq> uuid_nil"
    "ver_get_by_id P (fn_active fn) d1 = (Inr ver, d2)" "ver_status ver = st_ready"
    "inv_create P (new_invocation E fn ver (iq_key q)) d2 = (Inr (), d')"
    "enqueue_job R X rq (invocation_job X S E fn ver q) r = (None, r1)"
    "r' = (if iq_key q \<noteq> '''' then snd (idem_store R (is_idem S) (se_now E 3) (iq_key q)
       \<lparr>rca_inv = uuid_str X (se_id E), rca_status = st_pending, rca_result = '''', rca_error = ''''\<rparr> r1) else r1)"
    "ir_inv res = se_id E"
    using submit_InvokedE[OF assms(3)] by metis
  obtain row where row: "row \<in> set (db_functions d)" "fr_id row = iq_fn q" "scan_function P row = Inr fn"
    using fn_get_by_idD[OF s(1)] by blast
  have d1: "d1 = d\<lparr>db_calls := Suc (db_calls d)\<rparr>" "d2 = d1\<lparr>db_calls := Suc (db_calls d1)\<rparr>"
    using fn_get_by_id_state[OF s(1)] ver_get_by_id_state[OF s(3)] by auto
  have ver: "ver \<in> set (db_versions d)" "ver_id ver = fn_active fn"
    using ver_get_by_idD[OF s(3)] by (simp_all add: d1)
  have "sql_insert_invocation (new_invocation E fn ver (iq_key q)) (pg_now P (db_calls d2)) (d2\<lparr>db_calls := Suc (db_calls d2)\<rparr>) = Inr d'"
    using s(5) pg_exec_ok unfolding inv_create_def by blast
  then have "db_invocations d' = db_invocations d @ [new_invocation E fn ver (iq_key q)\<lparr>inv_created := pg_now P (db_calls d2)\<rparr>]"
    by (auto simp: sql_insert_invocation_def d1 split: if_splits)
  then have "\<exists>now. db_invocations d' = db_invocations d @ [new_invocation E fn ver (iq_key q)\<lparr>inv_created := now\<rparr>]"
    by blast
  moreover obtain i js where js: "job_json X (invocation_job X S E fn ver q) = Some js"
    "strm r1 = (strm r)(q_jobs rq := strm r (q_jobs rq) @
       [\<lparr>xm_id = i, xm_values = job_fields (uuid_str X (job_id (invocation_job X S E fn ver q))) js\<rparr>])"
    using redis_streams.enqueue_ok[OF str s(6)] by metis
  moreover have "strm r' (q_jobs rq) = strm r1 (q_jobs rq)"
    using s(7) assms(4) redis_server.set_streams[OF srv]
    by (auto simp: idem_store_def split: prod.splits)
  ultimately show ?thesis using s(4,8) row ver by fastforce
qed

text \<open>
  C29. The lock of an invocation that failed is not given back: \<open>Invoke\<close> releases it with the empty
  token, which is not the lock's.  Until the lock expires, thirty seconds after it was taken, every
  further attempt with the key is refused as concurrent, although none is running.
\<close>

theorem failed_invocation_blocks_its_key:
  assumes "redis_server R strm grps seen pend live"
    and "svc_invoke P R X rq S E q (d, r) = (InvokeErr e, d1, r1)" "e \<noteq> ConcurrentKey" "\<forall>x. e \<noteq> EnqueueFailed x"
    and "iq_key q \<noteq> ''''" "se_token E \<noteq> ''''" "se_now E 1 \<le> se_now E 4"
    and "iq_key q2 = iq_key q" "se_now E 1 \<le> se_now E2 1" "se_now E2 1 < se_now E 1 + 30 * second"
    and "live r (se_now E2 0) (''idem:'' @ iq_key q) = None" "se_now E 1 \<le> se_now E2 0"
  shows "fst (svc_invoke P R X rq S E2 q2 (d2, r1)) = InvokeErr ConcurrentKey"
proof -
  note srv = assms(1)
  have kv: "redis_keys R live" using srv by (simp add: redis_server_def)
  obtain cached ra where ch: "idem_check R (se_now E 0) (iq_key q) r = (cached, ra)" by fastforce
  have la: "live ra = live r" using redis_server.idem_check_live[OF srv ch] .
  obtain acq tk rb where ac: "acquire_lock R (se_now E 1) (se_token E) (iq_key q) (30 * second) ra = ((acq, tk), rb)"
    by (metis prod.collapse)
  obtain out d' rc where sub: "submit P R X rq S E q (d, rb) = (out, d', rc)" by (metis prod.collapse)
  have "out = InvokeErr e \<and> acq \<and> r1 = snd (release_lock R (se_now E 4) (iq_key q) '''' rc)"
    using assms(2,3,5) ch ac sub
    by (auto simp: svc_invoke_def Let_def split: sum.splits option.splits if_splits)
  then have o: "out = InvokeErr e" "acq" "r1 = snd (release_lock R (se_now E 4) (iq_key q) '''' rc)" by auto
  have rc: "rc = rb" using submit_err_redis[OF sub] o(1) assms(4) by simp
  have ac': "acquire_lock R (se_now E 1) (se_token E) (iq_key q) (30 * second) ra = ((True, tk), rb)"
    using ac o(2) by simp
  have lb: "live rb t k = (if k = ''lock:'' @ iq_key q then (if t < se_now E 1 + 30 * second then Some (RawText (se_token E)) else None)
      else live ra t k)" if "se_now E 1 \<le> t" for t k
    using redis_keys.acquire_live[OF kv, OF ac' assms(5) _ that] by (simp add: second_def)
  have "r1 = rb"
    using redis_server.release_live_other[OF srv, of rc "se_now E 4" "iq_key q" "[]"] lb[OF assms(7)] assms(6) o(3) rc
    by (simp split: if_splits)
  then have l1: "live r1 (se_now E2 1) (''lock:'' @ iq_key q) = Some (RawText (se_token E))"
    "live r1 (se_now E2 0) (''idem:'' @ iq_key q) = None"
    using lb assms(9-12) la by simp_all
  obtain c2 rd where ch2: "idem_check R (se_now E2 0) (iq_key q) r1 = (c2, rd)" by fastforce
  have ld: "live rd = live r1" using redis_server.idem_check_live[OF srv ch2] .
  have "\<forall>c. c2 \<noteq> Inr (Some c)"
    using ch2 l1(2) assms(5) redis_keys.get_val[OF kv]
    by (fastforce simp: idem_check_def split: prod.splits rres.splits option.splits)
  moreover obtain acq2 tk2 re where ac2: "acquire_lock R (se_now E2 1) (se_token E2) (iq_key q) (30 * second) rd = ((acq2, tk2), re)"
    by (metis prod.collapse)
  moreover have "\<not> acq2"
    using redis_keys.acquire_held[OF kv, OF ac2 assms(5)] l1(1) ld by simp
  ultimately show ?thesis
    using assms(5,8) ch2 by (auto simp: svc_invoke_def Let_def split: sum.splits option.splits)
qed

definition demo_svc_env :: svc_env where
  "demo_svc_env = \<lparr>se_id = 21, se_id2 = 22, se_token = ''t1'', se_now = (\<lambda>_. 5)\<rparr>"

definition demo_invoke :: "string \<Rightarrow> invoke_req" where
  "demo_invoke key = \<lparr>iq_fn = 1, iq_key = key, iq_payload = None\<rparr>"

lemma demo_invoke_sel [simp]: "iq_fn (demo_invoke k) = 1" "iq_key (demo_invoke k) = k"
  by (simp_all add: demo_invoke_def)

definition demo_inv_db :: db where
  "demo_inv_db = empty_db\<lparr>db_functions := [\<lparr>fr_id = 1, fr_user = 7, fr_name = ''hello'', fr_entrypoint = ''handler'',
       fr_memory = 128, fr_cpu = 100, fr_timeout = 30, fr_maxconc = 1, fr_active = Some 10, fr_created = 0, fr_updated = 0\<rparr>],
     db_versions := [\<lparr>ver_id = 10, ver_fn = 1, ver_num = 1, ver_image = ''img'', ver_status = st_ready, ver_created = 0\<rparr>]\<rparr>"

text \<open>The submission of the demonstration: accepted.\<close>

lemma demo_submit:
  "\<exists>res d' r'. submit calm_pg ref_redis ref_ext demo_queue new_inv_service demo_svc_env (demo_invoke '''') (demo_inv_db, ref_state0) =
     (Invoked res, d', r')"
proof -
  have j: "\<exists>js. job_json ref_ext (invocation_job ref_ext new_inv_service demo_svc_env fn ver (demo_invoke '''')) = Some js" for fn ver
    by (simp add: job_json_def invocation_job_def demo_svc_env_def json_year_def second_def)
  then have e: "\<exists>r'. enqueue_job ref_redis ref_ext demo_queue (invocation_job ref_ext new_inv_service demo_svc_env fn ver (demo_invoke '''')) ref_state0 = (None, r')"
    for fn ver
  proof -
    obtain js where "job_json ref_ext (invocation_job ref_ext new_inv_service demo_svc_env fn ver (demo_invoke '''')) = Some js"
      using j by blast
    then show ?thesis by (simp add: enqueue_job_def ref_xadd_def)
  qed
  obtain d1 where f: "fn_get_by_id calm_pg 1 demo_inv_db = (Inr \<lparr>fn_id = 1, fn_user = 7, fn_name = ''hello'', fn_entrypoint = ''handler'',
       fn_memory = 128, fn_cpu = 100, fn_timeout = 30, fn_maxconc = 1, fn_active = 10, fn_created = 0, fn_updated = 0\<rparr>, d1)"
    "d1 = demo_inv_db\<lparr>db_calls := 1\<rparr>"
    by (simp add: fn_get_by_id_def pg_query_row_def calm_pg_def sql_select_function_def demo_inv_db_def empty_db_def
        scan_function_def Let_def)
  have v: "ver_get_by_id calm_pg 10 d1 = (Inr \<lparr>ver_id = 10, ver_fn = 1, ver_num = 1, ver_image = ''img'', ver_status = st_ready,
      ver_created = 0\<rparr>, demo_inv_db\<lparr>db_calls := 2\<rparr>)"
    by (simp add: ver_get_by_id_def pg_query_row_def calm_pg_def sql_select_version_def demo_inv_db_def empty_db_def f(2) Let_def)
  have c: "\<exists>d3. inv_create calm_pg (new_invocation demo_svc_env fn ver '''') (demo_inv_db\<lparr>db_calls := 2\<rparr>) = (Inr (), d3)"
    if "fn_id fn = 1" "ver_id ver = 10" for fn ver
    using that
    by (simp add: inv_create_def pg_exec_def calm_pg_def sql_insert_invocation_def new_invocation_def demo_svc_env_def
        demo_inv_db_def empty_db_def in_int32_def varchar_def char_length_def has_defs Let_def)
  let ?fn = "\<lparr>fn_id = 1, fn_user = 7, fn_name = ''hello'', fn_entrypoint = ''handler'',
       fn_memory = 128, fn_cpu = 100, fn_timeout = 30, fn_maxconc = 1, fn_active = 10, fn_created = 0, fn_updated = 0\<rparr>"
  let ?ver = "\<lparr>ver_id = 10, ver_fn = 1, ver_num = 1, ver_image = ''img'', ver_status = st_ready, ver_created = 0\<rparr>"
  obtain d3 where d3: "inv_create calm_pg (new_invocation demo_svc_env ?fn ?ver '''') (demo_inv_db\<lparr>db_calls := 2\<rparr>) = (Inr (), d3)"
    using c[of ?fn ?ver] by auto
  obtain r' where "enqueue_job ref_redis ref_ext demo_queue (invocation_job ref_ext new_inv_service demo_svc_env ?fn ?ver (demo_invoke '''')) ref_state0 = (None, r')"
    using e[of ?fn ?ver] by auto
  then show ?thesis using f(1) v d3 by (simp add: submit_def)
qed

theorem accepted_invocation_is_recorded_and_queued_witness:
  "\<exists>res d' r' i. submit calm_pg ref_redis ref_ext demo_queue new_inv_service demo_svc_env (demo_invoke '''') (demo_inv_db, ref_state0) =
     (Invoked res, d', r') \<and> db_invocations d' = [i] \<and> inv_id i = 21"
proof -
  obtain res d' r' where s: "submit calm_pg ref_redis ref_ext demo_queue new_inv_service demo_svc_env (demo_invoke '''') (demo_inv_db, ref_state0) =
     (Invoked res, d', r')" using demo_submit by blast
  have "q_jobs demo_queue \<noteq> ''idem:'' @ iq_key (demo_invoke '''')" by (simp add: demo_queue_def demo_invoke_def)
  from accepted_invocation_is_recorded_and_queued[OF ref_server.redis_server_axioms ref_ext.ext_codec_axioms s this] s
  show ?thesis by (auto simp: demo_inv_db_def empty_db_def new_invocation_def demo_svc_env_def)
qed

theorem failed_invocation_blocks_its_key_witness:
  "fst (svc_invoke calm_pg ref_redis ref_ext demo_queue new_inv_service (demo_svc_env\<lparr>se_now := \<lambda>_. 6\<rparr>) (demo_invoke ''k'')
     (snd (svc_invoke calm_pg ref_redis ref_ext demo_queue new_inv_service demo_svc_env (demo_invoke ''k'') (empty_db, ref_state0)))) =
   InvokeErr ConcurrentKey"
proof -
  have sub: "submit calm_pg ref_redis ref_ext demo_queue new_inv_service demo_svc_env (demo_invoke ''k'') (empty_db, r) =
      (InvokeErr (FunctionNotFound NoRows), empty_db\<lparr>db_calls := 1\<rparr>, r)" for r
    by (simp add: submit_def fn_get_by_id_def pg_query_row_def calm_pg_def sql_select_function_def empty_db_def Let_def)
  obtain d1 r1 where s: "svc_invoke calm_pg ref_redis ref_ext demo_queue new_inv_service demo_svc_env (demo_invoke ''k'') (empty_db, ref_state0) =
      (InvokeErr (FunctionNotFound NoRows), d1, r1)"
    by (simp add: svc_invoke_def sub idem_check_def acquire_lock_def ref_live_def ref_state0_def Let_def)
  show ?thesis
    unfolding s
    using failed_invocation_blocks_its_key[OF ref_server.redis_server_axioms s, of "demo_invoke ''k''" "demo_svc_env\<lparr>se_now := \<lambda>_. 6\<rparr>" d1]
    by (simp add: demo_svc_env_def second_def ref_live_def ref_state0_def)
qed

text \<open>The row of an invocation after an update, when the server answers.\<close>

lemma update_status_calm:
  assumes "\<forall>n. pg_fault P n = NoFault" "in_int32 dur" "varchar 20 st"
  shows "inv_update_status P i st dur err d = (Inr (), d\<lparr>db_calls := Suc (db_calls d), db_invocations :=
      update_where (\<lambda>r. inv_id r = i) (\<lambda>r. r\<lparr>inv_status := st, inv_duration := dur, inv_error := err\<rparr>) (db_invocations d)\<rparr>)"
  using assms by (simp add: inv_update_status_def pg_exec_calm sql_update_invocation_status_def)

lemma statuses_fit: "varchar 20 st_success" "varchar 20 st_retrying" "varchar 20 st_failed"
  by (code_simp)+

text \<open>
  The words of the next property: the invocations with the outcome of one of them written down, the job
  that is made of a failed result, and the entry of the dead-letter table.
\<close>

definition settled :: "uuid \<Rightarrow> string \<Rightarrow> int \<Rightarrow> string \<Rightarrow> invocation list \<Rightarrow> invocation list" where
  "settled i st dur err =
     update_where (\<lambda>x. inv_id x = i) (\<lambda>x. x\<lparr>inv_status := st, inv_duration := dur, inv_error := err\<rparr>)"

definition bare_job :: "job_result \<Rightarrow> int \<Rightarrow> job" where
  "bare_job res n = \<lparr>job_id = uuid_nil, job_inv = jr_inv res, job_fn = jr_fn res, job_ver = jr_ver res, job_image = '''',
     job_entry = '''', job_payload = None, job_memory = 0, job_cpu = 0, job_timeout = 0, job_retries = n,
     job_max_retries = 3, job_key = '''', job_worker = '''', job_created = 0\<rparr>"

definition dead_letter :: "ext \<Rightarrow> svc_env \<Rightarrow> job_result \<Rightarrow> dlq_entry" where
  "dead_letter X E res = \<lparr>dlq_id = se_id E, dlq_fn = parsed_uuid X (jr_fn res), dlq_ver = parsed_uuid X (jr_ver res),
     dlq_attempts = jr_duration res, dlq_error = jr_error res, dlq_created = se_now E 1\<rparr>"

lemma dead_letter_sel:
  "dlq_id (dead_letter X E res) = se_id E" "dlq_fn (dead_letter X E res) = parsed_uuid X (jr_fn res)"
  "dlq_ver (dead_letter X E res) = parsed_uuid X (jr_ver res)" "dlq_attempts (dead_letter X E res) = jr_duration res"
  by (simp_all add: dead_letter_def)

lemma bare_job_json: "\<exists>js. job_json X (bare_job res n) = Some js"
  by (simp add: job_json_def bare_job_def json_year_def second_def)

lemma failed_job_bare: "is_policy S = default_config \<Longrightarrow> failed_job S res = bare_job res (jr_duration res)"
  by (simp add: failed_job_def zero_job_def bare_job_def default_config_def)

lemma should_retry_default: "should_retry default_config n \<longleftrightarrow> n < 3"
  by (simp add: should_retry_def default_config_def)

lemma idem_store_empty [simp]: "idem_store R I now [] c r = (None, r)"
  by (simp add: idem_store_def)

text \<open>The entry is inserted when its function and version exist and its identifier is new.\<close>

lemma insert_dlq_calm:
  assumes "\<forall>n. pg_fault P n = NoFault" "in_int32 (dlq_attempts e)"
  shows "snd (pg_exec P (sql_insert_dlq e) d) = d\<lparr>db_calls := Suc (db_calls d), db_dlq := db_dlq d @
    (if has_function d (dlq_fn e) \<and> has_version d (dlq_ver e) \<and> dlq_id e \<notin> dlq_id ` set (db_dlq d) then [e] else [])\<rparr>"
  using assms by (simp add: pg_exec_calm sql_insert_dlq_def has_defs)

lemma process_result_failed:
  assumes "\<not> (jr_status res = st_success \<or> jr_exit res = 0)" "\<not> jr_duration res < 3" "is_policy S = default_config"
    and "process_result P R X rq S E u res (d, r, ts) = (d', r', ts')"
  shows "ts' = ts \<and> r' = snd (enqueue_dlq R X rq (se_id2 E) (se_now E 0) (bare_job res (jr_duration res)) (jr_error res) r) \<and>
    d' = snd (pg_exec P (sql_insert_dlq (dead_letter X E res))
      (snd (inv_update_status P (parsed_uuid X (jr_inv res)) st_failed (jr_duration res) (jr_error res) d)))"
  using assms(1,2,4)
  by (auto simp: process_result_def Let_def assms(3) failed_job_bare[OF assms(3)] should_retry_default dlq_enqueue_def
      bare_job_def dead_letter_def split: prod.splits)

text \<open>
  C28. Exactly what \<open>ProcessResult\<close> does with a result, for the default policy and servers that answer.  A
  result that says SUCCESS, or has exit code 0 whatever its status, writes SUCCESS with the duration and
  nothing else.  Any other is retried exactly when the run took less than three milliseconds, because the
  duration stands where the number of attempts belongs: the row says RETRYING without a duration, and one
  timer is started, with the backoff for that number and a job that has the identifiers but no image,
  entrypoint, payload or limits.  Otherwise the row says FAILED, the dead-letter table gains the entry when
  its function and version still exist, the dead-letter stream gains the job with its error, and no timer is
  started.  Nothing is ever cached, since the results are stored under the empty key.
\<close>

theorem process_result_classifies:
  assumes "\<forall>n. pg_fault P n = NoFault" "redis_streams R strm grps seen pend" "\<forall>s fs q. \<exists>i q'. rd_xadd R s fs q = (RVal i, q')"
    and "in_int32 (jr_duration res)" "is_policy S = default_config"
    and "process_result P R X rq S E u res (d, r, ts) = (d', r', ts')"
  shows "if jr_status res = st_success \<or> jr_exit res = 0 then
      d' = d\<lparr>db_calls := db_calls d + 1,
        db_invocations := settled (parsed_uuid X (jr_inv res)) st_success (jr_duration res) '''' (db_invocations d)\<rparr> \<and>
      r' = r \<and> ts' = ts
    else if jr_duration res < 3 then
      d' = d\<lparr>db_calls := db_calls d + 1,
        db_invocations := settled (parsed_uuid X (jr_inv res)) st_retrying 0 (jr_error res) (db_invocations d)\<rparr> \<and>
      r' = r \<and> ts' = ts @ [(calculate default_config u (jr_duration res), bare_job res (jr_duration res + 1))]
    else
      d' = d\<lparr>db_calls := db_calls d + 2,
        db_invocations := settled (parsed_uuid X (jr_inv res)) st_failed (jr_duration res) (jr_error res) (db_invocations d),
        db_dlq := db_dlq d @ (if has_function d (parsed_uuid X (jr_fn res)) \<and> has_version d (parsed_uuid X (jr_ver res)) \<and>
          se_id E \<notin> dlq_id ` set (db_dlq d) then [dead_letter X E res] else [])\<rparr> \<and>
      (\<exists>i js. job_json X (bare_job res (jr_duration res)) = Some js \<and>
        strm r' = (strm r)(q_jobs rq @ '':dlq'' := strm r (q_jobs rq @ '':dlq'') @
          [\<lparr>xm_id = i, xm_values = [(''job_id'', RawText (uuid_str X (se_id2 E))), (''data'', JsonText js),
             (''error'', RawText (jr_error res)), (''timestamp'', RawText (itoa (unix_of (se_now E 0))))]\<rparr>])) \<and> ts' = ts"
proof -
  note upd = update_status_calm[OF assms(1)]
  consider (ok) "jr_status res = st_success \<or> jr_exit res = 0"
    | (retry) "\<not> (jr_status res = st_success \<or> jr_exit res = 0)" "jr_duration res < 3"
    | (fail) "\<not> (jr_status res = st_success \<or> jr_exit res = 0)" "\<not> jr_duration res < 3"
    by blast
  then show ?thesis
  proof cases
    case ok
    then show ?thesis
      using assms(6) by (simp add: process_result_def Let_def upd[OF assms(4) statuses_fit(1)] settled_def split: if_splits)
  next
    case retry
    have "wrap64 (jr_duration res + 1) = jr_duration res + 1"
      using assms(4) by (intro wrap64_id) (simp add: in_int32_def in_int64_def)
    moreover have "in_int32 0" by (simp add: in_int32_def)
    ultimately show ?thesis
      using retry assms(6)
      by (simp add: process_result_def Let_def upd[OF _ statuses_fit(2)] assms(5) failed_job_bare[OF assms(5)]
          should_retry_default settled_def bare_job_def)
  next
    case fail
    obtain js where js: "job_json X (bare_job res (jr_duration res)) = Some js" using bare_job_json by blast
    obtain e where "enqueue_dlq R X rq (se_id2 E) (se_now E 0) (bare_job res (jr_duration res)) (jr_error res) r = (e, r')"
      using process_result_failed[OF fail assms(5,6)] by (metis prod.collapse)
    moreover from this have "e = None"
      using assms(3) by (auto simp: enqueue_dlq_def split: prod.splits) (metis go_err.simps(1) prod.inject)
    ultimately have stream: "\<exists>i js. job_json X (bare_job res (jr_duration res)) = Some js \<and>
        strm r' = (strm r)(q_jobs rq @ '':dlq'' := strm r (q_jobs rq @ '':dlq'') @
          [\<lparr>xm_id = i, xm_values = [(''job_id'', RawText (uuid_str X (se_id2 E))), (''data'', JsonText js),
             (''error'', RawText (jr_error res)), (''timestamp'', RawText (itoa (unix_of (se_now E 0))))]\<rparr>])"
      using redis_streams.enqueue_dlq_ok[OF assms(2) _ js] js by metis
    have "in_int32 (dlq_attempts (dead_letter X E res))" using assms(4) by (simp add: dead_letter_def)
    from insert_dlq_calm[OF assms(1) this]
    have "d' = d\<lparr>db_calls := db_calls d + 2,
        db_invocations := settled (parsed_uuid X (jr_inv res)) st_failed (jr_duration res) (jr_error res) (db_invocations d),
        db_dlq := db_dlq d @ (if has_function d (parsed_uuid X (jr_fn res)) \<and> has_version d (parsed_uuid X (jr_ver res)) \<and>
          se_id E \<notin> dlq_id ` set (db_dlq d) then [dead_letter X E res] else [])\<rparr>"
      using process_result_failed[OF fail assms(5,6)]
      by (simp add: upd[OF assms(4) statuses_fit(3)] has_defs settled_def dead_letter_sel cong: if_cong)
    with fail stream show ?thesis using process_result_failed[OF fail assms(5,6)] by (simp only: if_False simp_thms)
  qed
qed

text \<open>A run of the demonstration that failed after 1500 milliseconds.\<close>

definition demo_failure :: job_result where
  "demo_failure = \<lparr>jr_inv = ''21'', jr_fn = ''1'', jr_ver = ''10'', jr_status = ''FAILED'', jr_exit = 1, jr_duration = 1500,
     jr_stdout = '''', jr_stderr = '''', jr_worker = ''worker-7'', jr_error = ''boom'', jr_msg = '''', jr_time = 0\<rparr>"

definition demo_pending :: invocation where
  "demo_pending = \<lparr>inv_id = 21, inv_fn = 1, inv_ver = 10, inv_worker = 0, inv_status = st_pending, inv_duration = 0,
     inv_cold = False, inv_retries = 0, inv_error = '''', inv_key = '''', inv_created = 0\<rparr>"

theorem process_result_classifies_witness:
  "let (d', r', ts') = process_result calm_pg ref_redis ref_ext demo_queue new_inv_service demo_svc_env (Fin 0) demo_failure
     (demo_inv_db\<lparr>db_invocations := [demo_pending]\<rparr>, ref_state0, [])
   in db_invocations d' = [demo_pending\<lparr>inv_status := st_failed, inv_duration := 1500, inv_error := ''boom''\<rparr>] \<and>
     db_dlq d' = [dead_letter ref_ext demo_svc_env demo_failure] \<and> length (rs_strm r' ''nimbusrun:jobs:dlq'') = 1"
proof -
  let ?d = "demo_inv_db\<lparr>db_invocations := [demo_pending]\<rparr>"
  obtain d' r' ts where p: "process_result calm_pg ref_redis ref_ext demo_queue new_inv_service demo_svc_env (Fin 0) demo_failure
      (?d, ref_state0, []) = (d', r', ts)" by (metis prod.collapse)
  have id: "parsed_uuid ref_ext ''21'' = 21" "parsed_uuid ref_ext ''1'' = 1" "parsed_uuid ref_ext ''10'' = 10" by code_simp+
  have nf: "\<forall>n. pg_fault calm_pg n = NoFault" by (simp add: calm_pg_def)
  have xa: "\<forall>s fs q. \<exists>i q'. rd_xadd ref_redis s fs q = (RVal i, q')" by (simp add: ref_xadd_def)
  have du: "in_int32 (jr_duration demo_failure)" by (simp add: demo_failure_def in_int32_def)
  have S: "is_policy new_inv_service = default_config" by (simp add: new_inv_service_def)
  from process_result_classifies[OF nf ref_streams.redis_streams_axioms xa du S p] show ?thesis
    unfolding p
    by (auto simp: demo_failure_def id settled_def update_where_def demo_pending_def demo_inv_db_def empty_db_def has_defs
        ref_state0_def demo_queue_def)
qed

text \<open>
  Retrying an entry of the dead-letter queue loses it: the row is deleted and nothing is put on any
  stream or into any other table.
\<close>

theorem dlq_retry_only_deletes:
  assumes "retry_from_dlq P i d = (Inr (), d')"
  shows "db_dlq d' = filter (\<lambda>e. dlq_id e \<noteq> i) (db_dlq d) \<and> db_invocations d' = db_invocations d \<and>
    db_functions d' = db_functions d \<and> db_versions d' = db_versions d \<and> db_users d' = db_users d"
  using assms by (auto simp: retry_from_dlq_def sql_delete_dlq_def delete_where_def dest!: pg_exec_ok)

theorem dlq_retry_only_deletes_witness:
  "db_dlq (snd (retry_from_dlq calm_pg 5 demo_inv_db)) = filter (\<lambda>e. dlq_id e \<noteq> 5) (db_dlq demo_inv_db)"
proof -
  obtain d' where d: "retry_from_dlq calm_pg 5 demo_inv_db = (Inr (), d')"
    by (simp add: retry_from_dlq_def pg_exec_def calm_pg_def sql_delete_dlq_def Let_def)
  show ?thesis using dlq_retry_only_deletes[OF d] d by simp
qed

end
