(* ===== verification/Retries.thy ===== *)
theory Retries
  imports Invocation
begin

text \<open>
  The retries of an invocation, one after the other.  A round is what happens between two results: the
  timer \<open>ProcessResult\<close> started fires and enqueues its job, the job is run, and its result is handed to
  \<open>ProcessResult\<close>.  Who runs the job, and with which result, is a parameter.
\<close>

section \<open>Rounds\<close>

type_synonym pending_timers = "(int option \<times> job) list"

text \<open>One round: the environment of the service, the random number of the backoff, and the run of the job.\<close>

type_synonym round_env = "svc_env \<times> f64 \<times> (job \<Rightarrow> job_result)"

definition retry_round ::
  "pg \<Rightarrow> 'r redis \<Rightarrow> ext \<Rightarrow> rqueue \<Rightarrow> inv_service \<Rightarrow> round_env \<Rightarrow>
   db \<times> 'r \<times> pending_timers \<Rightarrow> db \<times> 'r \<times> pending_timers" where
  "retry_round P R X rq S = (\<lambda>(E, u, run) (d, r, ts). case ts of
       [] \<Rightarrow> (d, r, ts)
     | (delay, j) # ts' \<Rightarrow> process_result P R X rq S E u (run j) (d, fire_timer R X rq j r, ts'))"

fun retry_rounds ::
  "pg \<Rightarrow> 'r redis \<Rightarrow> ext \<Rightarrow> rqueue \<Rightarrow> inv_service \<Rightarrow> round_env list \<Rightarrow>
   db \<times> 'r \<times> pending_timers \<Rightarrow> db \<times> 'r \<times> pending_timers" where
  "retry_rounds P R X rq S [] s = s"
| "retry_rounds P R X rq S (e # es) s = retry_rounds P R X rq S es (retry_round P R X rq S e s)"

text \<open>A result that is a failure in less than three milliseconds, and a run that yields one for its job.\<close>

definition fast_failure :: "job_result \<Rightarrow> bool" where
  "fast_failure res \<longleftrightarrow> jr_status res \<noteq> st_success \<and> jr_exit res \<noteq> 0 \<and> jr_duration res < 3"

definition fails_fast :: "(job \<Rightarrow> job_result) \<Rightarrow> bool" where
  "fails_fast run \<longleftrightarrow> (\<forall>j. fast_failure (run j) \<and> jr_inv (run j) = job_inv j \<and> jr_fn (run j) = job_fn j \<and> jr_ver (run j) = job_ver j)"

text \<open>The jobs of the retries: those of one invocation, which the queue can encode.\<close>

definition retry_job :: "string \<Rightarrow> string \<Rightarrow> string \<Rightarrow> job \<Rightarrow> bool" where
  "retry_job i f v j \<longleftrightarrow> (\<exists>res n. j = bare_job res (wrap64 n) \<and> jr_inv res = i \<and> jr_fn res = f \<and> jr_ver res = v)"

lemma retry_job_sel: "retry_job i f v j \<Longrightarrow> job_inv j = i \<and> job_fn j = f \<and> job_ver j = v"
  by (auto simp: retry_job_def bare_job_def)

lemma retry_job_ok: "retry_job i f v j \<Longrightarrow> job_ok j"
  by (auto simp: retry_job_def job_ok_def bare_job_def json_year_def second_def in_int64_def jmap_stable_def wrap64_def)

lemma process_fast_failure:
  assumes "is_policy S = default_config" "fast_failure res" "process_result P R X rq S E u res (d, r, ts) = (d', r', ts')"
  shows "r' = r \<and> db_dlq d' = db_dlq d \<and>
    (\<exists>delay j. ts' = ts @ [(delay, j)] \<and> retry_job (jr_inv res) (jr_fn res) (jr_ver res) j)"
proof -
  let ?i = "parsed_uuid X (jr_inv res)" and ?j = "bare_job res (wrap64 (jr_duration res + 1))"
  have s: "\<not> (jr_status res = st_success \<or> jr_exit res = 0)" "jr_duration res < 3"
    using assms(2) by (auto simp: fast_failure_def)
  have p: "d' = snd (inv_update_status P ?i st_retrying 0 (jr_error res) d)" "r' = r"
      "ts' = ts @ [(calculate default_config u (jr_duration res), ?j)]"
    using assms(3) s
    by (auto simp: process_result_def Let_def assms(1) failed_job_bare[OF assms(1)] should_retry_default bare_job_def
        split: prod.splits)
  obtain x where x: "pg_exec P (sql_update_invocation_status ?i st_retrying 0 (jr_error res)) d = (x, d')"
    using p(1) by (simp add: inv_update_status_def) (metis prod.collapse)
  have "db_dlq d' = db_dlq d"
    using x by (cases rule: pg_exec_cases) (auto simp: sql_update_invocation_status_def split: if_splits)
  moreover have "retry_job (jr_inv res) (jr_fn res) (jr_ver res) ?j" by (auto simp: retry_job_def)
  ultimately show ?thesis using p(2,3) by blast
qed

lemma retry_round_grows:
  assumes "redis_streams R strm grps seen pend" "\<forall>s fs q. \<exists>i q'. rd_xadd R s fs q = (RVal i, q')" "ext_codec X"
    and "is_policy S = default_config" "fails_fast run" "retry_job i f v j"
    and "retry_round P R X rq S (E, u, run) (d, r, [(delay, j)]) = (d', r', ts')"
  shows "\<exists>m delay' j'. ts' = [(delay', j')] \<and> retry_job i f v j' \<and> carries X m j \<and> db_dlq d' = db_dlq d \<and>
    strm r' = (strm r)(q_jobs rq := strm r (q_jobs rq) @ [m])"
proof -
  have run: "fast_failure (run j)" "jr_inv (run j) = i" "jr_fn (run j) = f" "jr_ver (run j) = v"
    using assms(5) retry_job_sel[OF assms(6)] by (auto simp: fails_fast_def)
  have ok: "job_ok j" by (rule retry_job_ok[OF assms(6)])
  then obtain js where js: "job_json X j = Some js" by (auto simp: job_json_def job_ok_def)
  obtain i0 r1 where "rd_xadd R (q_jobs rq) (job_fields (uuid_str X (job_id j)) js) r = (RVal i0, r1)"
    using assms(2) by blast
  then have e: "enqueue_job R X rq j r = (None, r1)" by (simp add: enqueue_job_def js)
  obtain k js' where k: "job_json X j = Some js'"
    "strm r1 = (strm r)(q_jobs rq := strm r (q_jobs rq) @ [\<lparr>xm_id = k, xm_values = job_fields (uuid_str X (job_id j)) js'\<rparr>])"
    using redis_streams.enqueue_ok[OF assms(1) e] by metis
  have "carries X \<lparr>xm_id = k, xm_values = job_fields (uuid_str X (job_id j)) js'\<rparr> j"
    by (simp add: carries_def job_json_decodes[OF assms(3) ok k(1)])
  moreover have "process_result P R X rq S E u (run j) (d, r1, []) = (d', r', ts')"
    using assms(7) by (simp add: retry_round_def fire_timer_def e)
  from process_fast_failure[OF assms(4) run(1) this, unfolded run(2-4)]
  have "r' = r1 \<and> db_dlq d' = db_dlq d \<and> (\<exists>delay j'. ts' = [(delay, j')] \<and> retry_job i f v j')" by simp
  ultimately show ?thesis using k(2) by blast
qed

lemma retry_rounds_grow:
  assumes "redis_streams R strm grps seen pend" "\<forall>s fs q. \<exists>i q'. rd_xadd R s fs q = (RVal i, q')" "ext_codec X"
    and "is_policy S = default_config"
  shows "\<forall>(E, u, run) \<in> set es. fails_fast run \<Longrightarrow> retry_job i f v j \<Longrightarrow>
    retry_rounds P R X rq S es (d, r, [(delay, j)]) = (d', r', ts') \<Longrightarrow>
    \<exists>ms delay' j'. ts' = [(delay', j')] \<and> retry_job i f v j' \<and> length ms = length es \<and>
      (\<forall>m \<in> set ms. \<exists>k. carries X m k \<and> retry_job i f v k) \<and> db_dlq d' = db_dlq d \<and>
      strm r' = (strm r)(q_jobs rq := strm r (q_jobs rq) @ ms)"
proof (induction es arbitrary: d r delay j)
  case Nil
  then show ?case by (intro exI[of _ "[]"]) auto
next
  case (Cons e es)
  obtain E u run where e: "e = (E, u, run)" by (cases e)
  obtain d1 r1 ts1 where st: "retry_round P R X rq S (E, u, run) (d, r, [(delay, j)]) = (d1, r1, ts1)" by (metis prod.collapse)
  have "fails_fast run" using Cons.prems(1) e by auto
  from retry_round_grows[OF assms this Cons.prems(2) st] obtain m delay1 j1 where
    1: "ts1 = [(delay1, j1)]" "retry_job i f v j1" "carries X m j" "db_dlq d1 = db_dlq d"
      "strm r1 = (strm r)(q_jobs rq := strm r (q_jobs rq) @ [m])" by blast
  have all: "\<forall>(E, u, run) \<in> set es. fails_fast run" using Cons.prems(1) by simp
  have "retry_rounds P R X rq S es (d1, r1, [(delay1, j1)]) = (d', r', ts')" using Cons.prems(3) e st 1(1) by simp
  from Cons.IH[OF all 1(2) this] obtain ms delay' j' where
    2: "ts' = [(delay', j')]" "retry_job i f v j'" "length ms = length es" "\<forall>m \<in> set ms. \<exists>k. carries X m k \<and> retry_job i f v k"
      "db_dlq d' = db_dlq d1" "strm r' = (strm r1)(q_jobs rq := strm r1 (q_jobs rq) @ ms)"
    by blast
  show ?case
    using 1 2 Cons.prems(2) by (intro exI[of _ "m # ms"] exI[of _ delay'] exI[of _ j']) auto
qed

section \<open>Properties\<close>

text \<open>
  C17. The chain of retries of an invocation has no end.  Once a run of it has failed in less than three
  milliseconds, let the timer fire, the job be run again, fail as fast and its result be processed, any
  number of times: each time one more job of the invocation stands in the stream, after all the rounds
  there is again exactly one timer pending, for one more, and nothing was ever put into the dead-letter
  table or stream.  The service counts milliseconds where it means attempts, so \<open>MaxRetries\<close> bounds nothing.
\<close>

theorem fast_failures_are_retried_for_ever:
  assumes "redis_streams R strm grps seen pend" "\<forall>s fs q. \<exists>i q'. rd_xadd R s fs q = (RVal i, q')" "ext_codec X"
    and "is_policy S = default_config" "fast_failure res" "process_result P R X rq S E u res (d, r, []) = s0"
    and "\<forall>(E, u, run) \<in> set rounds. fails_fast run" "retry_rounds P R X rq S rounds s0 = (d', r', ts')"
  shows "\<exists>ms delay j. strm r' (q_jobs rq) = strm r (q_jobs rq) @ ms \<and> length ms = length rounds \<and>
    (\<forall>m \<in> set ms. \<exists>k. carries X m k \<and> job_inv k = jr_inv res \<and> job_fn k = jr_fn res \<and> job_ver k = jr_ver res) \<and>
    ts' = [(delay, j)] \<and> job_inv j = jr_inv res \<and>
    db_dlq d' = db_dlq d \<and> strm r' (q_jobs rq @ '':dlq'') = strm r (q_jobs rq @ '':dlq'')"
proof -
  obtain d0 r0 ts0 where s0: "s0 = (d0, r0, ts0)" by (cases s0)
  from process_fast_failure[OF assms(4,5) assms(6)[unfolded s0]] obtain delay j where
    0: "r0 = r" "db_dlq d0 = db_dlq d" "ts0 = [(delay, j)]" "retry_job (jr_inv res) (jr_fn res) (jr_ver res) j"
    by auto
  from retry_rounds_grow[OF assms(1-4,7) 0(4) assms(8)[unfolded s0 0(1,3)]] obtain ms delay' j' where
    "ts' = [(delay', j')]" "retry_job (jr_inv res) (jr_fn res) (jr_ver res) j'" "length ms = length rounds"
    "\<forall>m \<in> set ms. \<exists>k. carries X m k \<and> retry_job (jr_inv res) (jr_fn res) (jr_ver res) k"
    "db_dlq d' = db_dlq d0" "strm r' = (strm r)(q_jobs rq := strm r (q_jobs rq) @ ms)" by blast
  then show ?thesis
    using retry_job_sel 0(2) by (intro exI[of _ ms] exI[of _ delay'] exI[of _ j']) fastforce
qed

text \<open>A function that fails at once, whatever the job.\<close>

definition broken_run :: "job \<Rightarrow> job_result" where
  "broken_run j = demo_failure\<lparr>jr_inv := job_inv j, jr_fn := job_fn j, jr_ver := job_ver j, jr_duration := 0\<rparr>"

theorem fast_failures_are_retried_for_ever_witness:
  "\<exists>d' r' ts'. retry_rounds calm_pg ref_redis ref_ext demo_queue new_inv_service (replicate 5 (demo_svc_env, Fin 0, broken_run))
      (process_result calm_pg ref_redis ref_ext demo_queue new_inv_service demo_svc_env (Fin 0) (demo_failure\<lparr>jr_duration := 0\<rparr>)
        (demo_inv_db, ref_state0, [])) = (d', r', ts') \<and>
    length (rs_strm r' ''nimbusrun:jobs'') = 5 \<and> length ts' = 1 \<and> db_dlq d' = []"
proof -
  let ?s = "process_result calm_pg ref_redis ref_ext demo_queue new_inv_service demo_svc_env (Fin 0) (demo_failure\<lparr>jr_duration := 0\<rparr>)
        (demo_inv_db, ref_state0, [])"
  obtain d' r' ts' where p: "retry_rounds calm_pg ref_redis ref_ext demo_queue new_inv_service
      (replicate 5 (demo_svc_env, Fin 0, broken_run)) ?s = (d', r', ts')" by (metis prod.collapse)
  have xa: "\<forall>s fs q. \<exists>i q'. rd_xadd ref_redis s fs q = (RVal i, q')" by (simp add: ref_xadd_def)
  have S: "is_policy new_inv_service = default_config" by (simp add: new_inv_service_def)
  have f: "fast_failure (demo_failure\<lparr>jr_duration := 0\<rparr>)" by (simp add: fast_failure_def demo_failure_def)
  have b: "\<forall>(E, u, run) \<in> set (replicate 5 (demo_svc_env, Fin 0, broken_run)). fails_fast run"
    by (simp add: fails_fast_def fast_failure_def broken_run_def demo_failure_def)
  from fast_failures_are_retried_for_ever[OF ref_streams.redis_streams_axioms xa ref_ext.ext_codec_axioms S f refl b p]
  obtain ms delay j where "rs_strm r' (q_jobs demo_queue) = rs_strm ref_state0 (q_jobs demo_queue) @ ms" "length ms = 5"
    "ts' = [(delay, j)]" "db_dlq d' = db_dlq demo_inv_db" by auto
  then show ?thesis
    unfolding p by (simp add: demo_queue_def ref_state0_def demo_inv_db_def empty_db_def)
qed

end
