(* ===== verification/Config.thy ===== *)
theory Config
  imports GoStd
begin

text \<open>
  \<open>internal/config/config.go\<close>: the configuration record, and \<open>Load\<close>, which sets defaults in a viper
  instance and unmarshals it.  Viper is not part of the repository: its operations are the record
  \<open>viper\<close>, and \<open>viper_laws\<close> is what it documents of defaults, of \<open>AutomaticEnv\<close> (the variable of a key is
  the prefix, an underscore and the key in upper case, dots kept, since no replacer is set; a variable
  named like a section hides the keys of the section) and of decoding by \<open>mapstructure\<close> tags.
\<close>

section \<open>The configuration\<close>

record server_config =
  sc_port :: string
  sc_host :: string

record database_config =
  dc_host :: string
  dc_port :: string
  dc_user :: string
  dc_password :: string
  dc_dbname :: string
  dc_sslmode :: string

record stream_config =
  st_job_queue :: string
  st_result_queue :: string
  st_group :: string
  st_consumer :: string

record redis_config =
  rc_addr :: string
  rc_password :: string
  rc_db :: int
  rc_stream :: stream_config

record auth_config =
  au_secret :: string
  au_expiry :: int
  au_refresh :: int
  au_key_header :: string

record docker_config =
  do_host :: string
  do_registry :: string
  do_timeout :: int

record worker_config =
  wc_interval :: int
  wc_timeout :: int

record build_config =
  bc_workers_dir :: string
  bc_registry :: string

record obs_config =
  oc_path :: string
  oc_port :: string

record config =
  cfg_server :: server_config
  cfg_database :: database_config
  cfg_redis :: redis_config
  cfg_auth :: auth_config
  cfg_docker :: docker_config
  cfg_worker :: worker_config
  cfg_build :: build_config
  cfg_obs :: obs_config

section \<open>Viper\<close>

datatype kind = KStr | KInt | KDur

datatype cfg_in = CStr string | CInt int

datatype cfg_val = VStr string | VNum int

record 'v viper =
  vp_new :: 'v
  vp_set_env_prefix :: "string \<Rightarrow> 'v \<Rightarrow> 'v"
  vp_automatic_env :: "'v \<Rightarrow> 'v"
  vp_set_default :: "string \<Rightarrow> cfg_in \<Rightarrow> 'v \<Rightarrow> 'v"
  vp_unmarshal :: "(string \<times> kind) list \<Rightarrow> 'v \<Rightarrow> string + (string \<Rightarrow> cfg_val)"

fun zero_of :: "kind \<Rightarrow> cfg_val" where
  "zero_of KStr = VStr ''''"
| "zero_of KInt = VNum 0"
| "zero_of KDur = VNum 0"

definition to_upper :: "char \<Rightarrow> char" where
  "to_upper c = (case map_of (zip ''abcdefghijklmnopqrstuvwxyz'' ''ABCDEFGHIJKLMNOPQRSTUVWXYZ'') c of
     None \<Rightarrow> c | Some u \<Rightarrow> u)"

definition env_name :: "string \<Rightarrow> string \<Rightarrow> string" where
  "env_name prefix key = map to_upper (prefix @ ''_'' @ key)"

text \<open>The proper prefixes of a path at its dots: the sections a key is in.\<close>

fun sections_from :: "string \<Rightarrow> string \<Rightarrow> string list" where
  "sections_from acc [] = []"
| "sections_from acc (c # cs) =
     (if c = CHR ''.'' then acc # sections_from (acc @ [c]) cs else sections_from (acc @ [c]) cs)"

definition sections :: "string \<Rightarrow> string list" where
  "sections p = sections_from [] p"

text \<open>A variable set to the empty text counts as unset.\<close>

definition env_value :: "(string \<Rightarrow> string option) \<Rightarrow> string \<Rightarrow> string option" where
  "env_value env n = (case env n of Some s \<Rightarrow> if s = '''' then None else Some s | None \<Rightarrow> None)"

definition viper_lookup ::
  "(string \<Rightarrow> string option) \<Rightarrow> string \<Rightarrow> bool \<Rightarrow> (string \<rightharpoonup> cfg_in) \<Rightarrow> string \<Rightarrow> cfg_in option" where
  "viper_lookup env prefix auto defaults p =
     (case defaults p of None \<Rightarrow> None
      | Some d \<Rightarrow>
          if \<not> auto then Some d
          else (case env_value env (env_name prefix p) of
                  Some s \<Rightarrow> Some (CStr s)
                | None \<Rightarrow> if \<exists>a \<in> set (sections p). env_value env (env_name prefix a) \<noteq> None then None else Some d))"

text \<open>Weakly typed decoding; \<open>num\<close> and \<open>dur\<close> read a number and a duration from a text.\<close>

fun viper_decode :: "(string \<Rightarrow> int option) \<Rightarrow> (string \<Rightarrow> int option) \<Rightarrow> kind \<Rightarrow> cfg_in \<Rightarrow> cfg_val option" where
  "viper_decode num dur KStr (CStr s) = Some (VStr s)"
| "viper_decode num dur KStr (CInt n) = Some (VStr (itoa n))"
| "viper_decode num dur KInt (CStr s) = map_option VNum (num s)"
| "viper_decode num dur KDur (CStr s) = map_option VNum (dur s)"
| "viper_decode num dur KInt (CInt n) = Some (VNum n)"
| "viper_decode num dur KDur (CInt n) = Some (VNum n)"

definition viper_field ::
  "(string \<Rightarrow> string option) \<Rightarrow> (string \<Rightarrow> int option) \<Rightarrow> (string \<Rightarrow> int option) \<Rightarrow> string \<Rightarrow> bool \<Rightarrow>
   (string \<rightharpoonup> cfg_in) \<Rightarrow> string \<times> kind \<Rightarrow> cfg_val option" where
  "viper_field env num dur prefix auto defaults = (\<lambda>(p, k).
     case viper_lookup env prefix auto defaults p of None \<Rightarrow> Some (zero_of k) | Some x \<Rightarrow> viper_decode num dur k x)"

locale viper_laws =
  fixes V :: "'v viper" and env :: "string \<Rightarrow> string option" and num dur :: "string \<Rightarrow> int option"
    and vprefix :: "'v \<Rightarrow> string" and vauto :: "'v \<Rightarrow> bool" and vdefaults :: "'v \<Rightarrow> string \<rightharpoonup> cfg_in"
  assumes new: "vprefix (vp_new V) = ''''" "\<not> vauto (vp_new V)" "vdefaults (vp_new V) = Map.empty"
    and set_prefix: "vprefix (vp_set_env_prefix V pre v) = pre" "vauto (vp_set_env_prefix V pre v) = vauto v"
      "vdefaults (vp_set_env_prefix V pre v) = vdefaults v"
    and automatic: "vprefix (vp_automatic_env V v) = vprefix v" "vauto (vp_automatic_env V v)"
      "vdefaults (vp_automatic_env V v) = vdefaults v"
    and set_default: "vprefix (vp_set_default V k x v) = vprefix v" "vauto (vp_set_default V k x v) = vauto v"
      "vdefaults (vp_set_default V k x v) = (vdefaults v)(k \<mapsto> x)"
    and unmarshal_ok: "distinct (map fst fs) \<Longrightarrow> vp_unmarshal V fs v = Inr f \<Longrightarrow> pk \<in> set fs \<Longrightarrow>
      viper_field env num dur (vprefix v) (vauto v) (vdefaults v) pk = Some (f (fst pk))"
    and unmarshal_total: "\<forall>pk \<in> set fs. viper_field env num dur (vprefix v) (vauto v) (vdefaults v) pk \<noteq> None \<Longrightarrow>
      is_ok (vp_unmarshal V fs v)"
    and day: "dur ''24h'' = Some (86400 * second)" "dur ''168h'' = Some (604800 * second)"
    and seconds: "dur ''5s'' = Some (5 * second)" "dur ''15s'' = Some (15 * second)"

section \<open>Load\<close>

text \<open>The defaults, in the order they are set.\<close>

definition config_defaults :: "(string \<times> cfg_in) list" where
  "config_defaults =
    [(''server.port'', CStr ''8080''), (''server.host'', CStr ''0.0.0.0''), (''database.host'', CStr ''localhost''),
     (''database.port'', CStr ''5432''), (''database.user'', CStr ''nimbusrun''), (''database.password'', CStr ''nimbusrun''),
     (''database.dbname'', CStr ''nimbusrun''), (''database.sslmode'', CStr ''disable''), (''redis.addr'', CStr ''localhost:6379''),
     (''redis.password'', CStr ''''), (''redis.db'', CInt 0), (''redis.stream.job_queue'', CStr ''nimbusrun:jobs''),
     (''redis.stream.result_queue'', CStr ''nimbusrun:results''), (''redis.stream.group_name'', CStr ''nimbusrun:workers''),
     (''redis.stream.consumer'', CStr ''worker-1''), (''auth.jwt_secret'', CStr ''super-secret-key-change-me''),
     (''auth.jwt_expiry'', CStr ''24h''), (''auth.refresh_expiry'', CStr ''168h''), (''auth.api_key_header'', CStr ''X-API-Key''),
     (''docker.host'', CStr ''unix:///var/run/docker.sock''), (''docker.registry'', CStr ''localhost:5000''),
     (''docker.default_timeout'', CInt 30), (''worker.heartbeat_interval'', CStr ''5s''), (''worker.heartbeat_timeout'', CStr ''15s''),
     (''observability.metrics_path'', CStr ''/metrics''), (''observability.metrics_port'', CStr ''9090'')]"

text \<open>The fields of \<open>Config\<close> by their \<open>mapstructure\<close> tags; the tag of \<open>DBName\<close> is \<open>dbnam\<close>.\<close>

definition config_fields :: "(string \<times> kind) list" where
  "config_fields =
    [(''server.port'', KStr), (''server.host'', KStr), (''database.host'', KStr), (''database.port'', KStr), (''database.user'', KStr),
     (''database.password'', KStr), (''database.dbnam'', KStr), (''database.sslmode'', KStr), (''redis.addr'', KStr),
     (''redis.password'', KStr), (''redis.db'', KInt), (''redis.stream.job_queue'', KStr), (''redis.stream.result_queue'', KStr),
     (''redis.stream.group_name'', KStr), (''redis.stream.consumer'', KStr), (''auth.jwt_secret'', KStr), (''auth.jwt_expiry'', KDur),
     (''auth.refresh_expiry'', KDur), (''auth.api_key_header'', KStr), (''docker.host'', KStr), (''docker.registry'', KStr),
     (''docker.default_timeout'', KInt), (''worker.heartbeat_interval'', KDur), (''worker.heartbeat_timeout'', KDur),
     (''build.workers_dir'', KStr), (''build.registry'', KStr), (''observability.metrics_path'', KStr),
     (''observability.metrics_port'', KStr)]"

fun str_of :: "cfg_val \<Rightarrow> string" where
  "str_of (VStr s) = s"
| "str_of (VNum n) = ''''"

fun num_of :: "cfg_val \<Rightarrow> int" where
  "num_of (VNum n) = n"
| "num_of (VStr s) = 0"

definition config_of :: "(string \<Rightarrow> cfg_val) \<Rightarrow> config" where
  "config_of f = \<lparr>
     cfg_server = \<lparr>sc_port = str_of (f ''server.port''), sc_host = str_of (f ''server.host'')\<rparr>,
     cfg_database = \<lparr>dc_host = str_of (f ''database.host''), dc_port = str_of (f ''database.port''),
       dc_user = str_of (f ''database.user''), dc_password = str_of (f ''database.password''),
       dc_dbname = str_of (f ''database.dbnam''), dc_sslmode = str_of (f ''database.sslmode'')\<rparr>,
     cfg_redis = \<lparr>rc_addr = str_of (f ''redis.addr''), rc_password = str_of (f ''redis.password''), rc_db = num_of (f ''redis.db''),
       rc_stream = \<lparr>st_job_queue = str_of (f ''redis.stream.job_queue''), st_result_queue = str_of (f ''redis.stream.result_queue''),
         st_group = str_of (f ''redis.stream.group_name''), st_consumer = str_of (f ''redis.stream.consumer'')\<rparr>\<rparr>,
     cfg_auth = \<lparr>au_secret = str_of (f ''auth.jwt_secret''), au_expiry = num_of (f ''auth.jwt_expiry''),
       au_refresh = num_of (f ''auth.refresh_expiry''), au_key_header = str_of (f ''auth.api_key_header'')\<rparr>,
     cfg_docker = \<lparr>do_host = str_of (f ''docker.host''), do_registry = str_of (f ''docker.registry''),
       do_timeout = num_of (f ''docker.default_timeout'')\<rparr>,
     cfg_worker = \<lparr>wc_interval = num_of (f ''worker.heartbeat_interval''), wc_timeout = num_of (f ''worker.heartbeat_timeout'')\<rparr>,
     cfg_build = \<lparr>bc_workers_dir = str_of (f ''build.workers_dir''), bc_registry = str_of (f ''build.registry'')\<rparr>,
     cfg_obs = \<lparr>oc_path = str_of (f ''observability.metrics_path''), oc_port = str_of (f ''observability.metrics_port'')\<rparr>\<rparr>"

definition config_load :: "'v viper \<Rightarrow> string + config" where
  "config_load V =
     (let v = vp_automatic_env V (vp_set_env_prefix V ''NIMBUSRUN'' (vp_new V));
          v' = fold (\<lambda>(k, x). vp_set_default V k x) config_defaults v
      in case vp_unmarshal V config_fields v' of Inl e \<Rightarrow> Inl e | Inr f \<Rightarrow> Inr (config_of f))"

section \<open>What the environment decides\<close>

lemma sections_examples: "sections ''redis.stream.job_queue'' = [''redis'', ''redis.stream'']"
  by (simp add: sections_def)

definition load_field ::
  "(string \<Rightarrow> string option) \<Rightarrow> (string \<Rightarrow> int option) \<Rightarrow> (string \<Rightarrow> int option) \<Rightarrow> string \<times> kind \<Rightarrow> cfg_val option" where
  "load_field env num dur = viper_field env num dur ''NIMBUSRUN'' True (map_of config_defaults)"

lemma config_defaults_distinct: "distinct (map fst config_defaults)"
  by code_simp

lemma config_fields_distinct: "distinct (map fst config_fields)"
  by code_simp

lemma fold_defaults:
  "distinct (map fst xs) \<Longrightarrow> (\<forall>k \<in> set (map fst xs). m k = None) \<Longrightarrow>
   fold (\<lambda>(k, x) m. m(k \<mapsto> x)) xs m = (\<lambda>k. case map_of xs k of None \<Rightarrow> m k | Some x \<Rightarrow> Some x)"
proof (induction xs arbitrary: m)
  case (Cons kx xs)
  obtain k x where kx: "kx = (k, x)" by fastforce
  have "map_of xs k = None" using Cons.prems(1) kx by (simp add: map_of_eq_None_iff)
  moreover have "\<forall>k' \<in> set (map fst xs). (m(k \<mapsto> x)) k' = None" using Cons.prems kx by auto
  ultimately show ?case
    using Cons.IH[of "m(k \<mapsto> x)"] Cons.prems(1) kx by (auto simp: fun_eq_iff split: option.splits)
qed simp

context viper_laws
begin

lemma defaults_state:
  "vprefix (fold (\<lambda>(k, x). vp_set_default V k x) xs v) = vprefix v \<and> vauto (fold (\<lambda>(k, x). vp_set_default V k x) xs v) = vauto v \<and>
   vdefaults (fold (\<lambda>(k, x). vp_set_default V k x) xs v) = fold (\<lambda>(k, x) m. m(k \<mapsto> x)) xs (vdefaults v)"
  by (induction xs arbitrary: v) (auto simp: set_default split: prod.splits)

lemma load_state:
  fixes v defines "v \<equiv> fold (\<lambda>(k, x). vp_set_default V k x) config_defaults (vp_automatic_env V (vp_set_env_prefix V ''NIMBUSRUN'' (vp_new V)))"
  shows "viper_field env num dur (vprefix v) (vauto v) (vdefaults v) = load_field env num dur"
proof -
  have "vdefaults v = map_of config_defaults"
    unfolding v_def using defaults_state fold_defaults[OF config_defaults_distinct, of Map.empty]
    by (simp add: automatic set_prefix new fun_eq_iff split: option.splits)
  moreover have "vprefix v = ''NIMBUSRUN''" "vauto v"
    unfolding v_def using defaults_state by (simp_all add: automatic set_prefix)
  ultimately show ?thesis by (simp add: load_field_def)
qed

text \<open>A configuration that loads has, in each field, what the environment and the defaults say.\<close>

lemma load_fields:
  assumes "config_load V = Inr c"
  obtains f where "c = config_of f" "\<forall>pk \<in> set config_fields. load_field env num dur pk = Some (f (fst pk))"
proof -
  obtain f where f: "vp_unmarshal V config_fields (fold (\<lambda>(k, x). vp_set_default V k x) config_defaults
      (vp_automatic_env V (vp_set_env_prefix V ''NIMBUSRUN'' (vp_new V)))) = Inr f" "c = config_of f"
    using assms by (auto simp: config_load_def Let_def split: sum.splits)
  show thesis using that[OF f(2)] unmarshal_ok[OF config_fields_distinct f(1)] unfolding load_state by blast
qed

lemma load_total:
  assumes "\<forall>pk \<in> set config_fields. load_field env num dur pk \<noteq> None"
  obtains c where "config_load V = Inr c"
proof -
  have "is_ok (vp_unmarshal V config_fields (fold (\<lambda>(k, x). vp_set_default V k x) config_defaults
      (vp_automatic_env V (vp_set_env_prefix V ''NIMBUSRUN'' (vp_new V)))))"
    using assms by (intro unmarshal_total) (simp only: load_state)
  then show thesis using that by (auto simp: config_load_def Let_def elim!: is_okE)
qed

end

section \<open>A reference instance\<close>

text \<open>Viper over an environment, with numbers and durations in whole hours or seconds.\<close>

definition ref_duration :: "string \<Rightarrow> int option" where
  "ref_duration s =
     (if s = '''' then None
      else (case atoi (butlast s) of
              Some n \<Rightarrow> if last s = CHR ''h'' then Some (n * 3600 * second) else if last s = CHR ''s'' then Some (n * second) else None
            | None \<Rightarrow> None))"

record ref_viper_state =
  rv_prefix :: string
  rv_auto :: bool
  rv_defaults :: "string \<rightharpoonup> cfg_in"

definition ref_unmarshal ::
  "(string \<Rightarrow> string option) \<Rightarrow> (string \<times> kind) list \<Rightarrow> ref_viper_state \<Rightarrow> string + (string \<Rightarrow> cfg_val)" where
  "ref_unmarshal env fs v =
     (let fld = viper_field env atoi ref_duration (rv_prefix v) (rv_auto v) (rv_defaults v)
      in if \<exists>pk \<in> set fs. fld pk = None then Inl ''decoding failed''
         else Inr (\<lambda>p. case map_of fs p of None \<Rightarrow> VStr '''' | Some k \<Rightarrow> the (fld (p, k))))"

definition ref_viper :: "(string \<Rightarrow> string option) \<Rightarrow> ref_viper_state viper" where
  "ref_viper env = \<lparr>vp_new = \<lparr>rv_prefix = '''', rv_auto = False, rv_defaults = Map.empty\<rparr>,
     vp_set_env_prefix = (\<lambda>x v. v\<lparr>rv_prefix := x\<rparr>), vp_automatic_env = (\<lambda>v. v\<lparr>rv_auto := True\<rparr>),
     vp_set_default = (\<lambda>k x v. v\<lparr>rv_defaults := (rv_defaults v)(k \<mapsto> x)\<rparr>), vp_unmarshal = ref_unmarshal env\<rparr>"

lemma ref_durations:
  "ref_duration ''24h'' = Some (86400 * second)" "ref_duration ''168h'' = Some (604800 * second)"
  "ref_duration ''5s'' = Some (5 * second)" "ref_duration ''15s'' = Some (15 * second)"
  by code_simp+

interpretation ref_viper: viper_laws "ref_viper env" env atoi ref_duration rv_prefix rv_auto rv_defaults for env
  by unfold_locales
    (auto simp: ref_viper_def ref_unmarshal_def Let_def ref_durations split: if_splits)

end
