(* ===== verification/Settings.thy ===== *)
theory Settings
  imports Config
begin

text \<open>
  What of the configuration can be set at all: the properties of \<open>Load\<close>.
\<close>

section \<open>Properties\<close>

text \<open>The variables the README documents, and the configuration without any variable.\<close>

definition documented_variables :: "string list" where
  "documented_variables = [''NIMBUSRUN_SERVER_PORT'', ''NIMBUSRUN_DATABASE_HOST'', ''NIMBUSRUN_DATABASE_USER'',
     ''NIMBUSRUN_DATABASE_PASSWORD'', ''NIMBUSRUN_DATABASE_DBNAME'', ''NIMBUSRUN_REDIS_ADDR'', ''NIMBUSRUN_AUTH_JWT_SECRET'',
     ''NIMBUSRUN_AUTH_JWT_EXPIRY'', ''NIMBUSRUN_DOCKER_HOST'', ''NIMBUSRUN_WORKER_HEARTBEAT_INTERVAL'',
     ''NIMBUSRUN_WORKER_HEARTBEAT_TIMEOUT'']"

definition default_config_record :: config where
  "default_config_record = \<lparr>
     cfg_server = \<lparr>sc_port = ''8080'', sc_host = ''0.0.0.0''\<rparr>,
     cfg_database = \<lparr>dc_host = ''localhost'', dc_port = ''5432'', dc_user = ''nimbusrun'', dc_password = ''nimbusrun'',
       dc_dbname = '''', dc_sslmode = ''disable''\<rparr>,
     cfg_redis = \<lparr>rc_addr = ''localhost:6379'', rc_password = '''', rc_db = 0,
       rc_stream = \<lparr>st_job_queue = ''nimbusrun:jobs'', st_result_queue = ''nimbusrun:results'',
         st_group = ''nimbusrun:workers'', st_consumer = ''worker-1''\<rparr>\<rparr>,
     cfg_auth = \<lparr>au_secret = ''super-secret-key-change-me'', au_expiry = 86400 * second, au_refresh = 604800 * second,
       au_key_header = ''X-API-Key''\<rparr>,
     cfg_docker = \<lparr>do_host = ''unix:///var/run/docker.sock'', do_registry = ''localhost:5000'', do_timeout = 30\<rparr>,
     cfg_worker = \<lparr>wc_interval = 5 * second, wc_timeout = 15 * second\<rparr>,
     cfg_build = \<lparr>bc_workers_dir = '''', bc_registry = ''''\<rparr>,
     cfg_obs = \<lparr>oc_path = ''/metrics'', oc_port = ''9090''\<rparr>\<rparr>"

text \<open>The variables a key of the configuration is looked up in.\<close>

definition consulted :: "string \<Rightarrow> string list" where
  "consulted p = map (env_name ''NIMBUSRUN'') (p # sections p)"

lemma lookup_env_agree:
  assumes "\<forall>n \<in> set (consulted p). env' n = env n"
  shows "load_field env' num dur (p, k) = load_field env num dur (p, k)"
proof -
  have e: "env_value env' (env_name ''NIMBUSRUN'' a) = env_value env (env_name ''NIMBUSRUN'' a)" if "a = p \<or> a \<in> set (sections p)" for a
    using assms that by (auto simp: consulted_def env_value_def)
  show ?thesis
    by (auto simp: load_field_def viper_field_def viper_lookup_def e split: option.splits if_splits)
qed

lemma to_upper_marks: "to_upper c = CHR ''.'' \<longleftrightarrow> c = CHR ''.''" "to_upper c = CHR ''_'' \<longleftrightarrow> c = CHR ''_''"
  by (auto simp: to_upper_def split: option.splits if_splits)

lemma count_map_to_upper: "length (filter (\<lambda>c. c = CHR ''_'') (map to_upper s)) = length (filter (\<lambda>c. c = CHR ''_'') s)"
  by (induction s) (auto simp: to_upper_marks)

text \<open>
  The variables \<open>Load\<close> consults have a dot, or are those of a section and have a single underscore;
  the documented ones have no dot and at least two.
\<close>

lemma keys_dotted:
  "\<forall>pk \<in> set config_fields. \<forall>a \<in> set (fst pk # sections (fst pk)). CHR ''.'' \<in> set a \<or> CHR ''_'' \<notin> set a"
  by code_simp

lemma documented_underscores:
  "\<forall>n \<in> set documented_variables. CHR ''.'' \<notin> set n \<and> 2 \<le> length (filter (\<lambda>c. c = CHR ''_'') n)"
  by code_simp

lemma documented_not_consulted:
  assumes "pk \<in> set config_fields" "n \<in> set (consulted (fst pk))" shows "n \<notin> set documented_variables"
proof
  assume d: "n \<in> set documented_variables"
  obtain a where a: "a \<in> set (fst pk # sections (fst pk))" "n = map to_upper (''NIMBUSRUN_'' @ a)"
    using assms(2) by (auto simp: consulted_def env_name_def)
  have "CHR ''.'' \<notin> set a"
  proof
    assume "CHR ''.'' \<in> set a"
    then have "CHR ''.'' \<in> set n" unfolding a(2) using to_upper_marks(1)[of "CHR ''.''"] by force
    then show False using d documented_underscores by blast
  qed
  then have "CHR ''_'' \<notin> set a" using keys_dotted assms(1) a(1) by blast
  then have "filter (\<lambda>c. c = CHR ''_'') (''NIMBUSRUN_'' @ a) = [CHR ''_'']" by (auto simp: filter_empty_conv)
  then have "length (filter (\<lambda>c. c = CHR ''_'') n) = 1" unfolding a(2) count_map_to_upper by simp
  then show False using d documented_underscores by fastforce
qed

lemma documented_field:
  assumes "\<forall>n. n \<notin> set documented_variables \<longrightarrow> env' n = env n" "pk \<in> set config_fields"
  shows "load_field env' num dur pk = load_field env num dur pk"
proof -
  have "\<forall>n \<in> set (consulted (fst pk)). env' n = env n" using documented_not_consulted assms by metis
  then show ?thesis using lookup_env_agree[of "fst pk" env' env num dur "snd pk"] by simp
qed

lemma config_of_agree: "\<forall>pk \<in> set config_fields. f' (fst pk) = f (fst pk) \<Longrightarrow> config_of f' = config_of f"
  unfolding config_fields_def config_of_def list.set ball_simps fst_conv
  by (elim conjE) (simp only:)

text \<open>Instances that agree on every field load the same.\<close>

lemma load_agree:
  assumes "viper_laws V env num dur vp va vd" "viper_laws V' env' num' dur' vp' va' vd'"
    and same: "\<forall>pk \<in> set config_fields. load_field env' num' dur' pk = load_field env num dur pk" and "config_load V = Inr c"
  shows "config_load V' = Inr c"
proof -
  obtain f where f: "c = config_of f" "\<forall>pk \<in> set config_fields. load_field env num dur pk = Some (f (fst pk))"
    by (rule viper_laws.load_fields[OF assms(1,4)])
  have "\<forall>pk \<in> set config_fields. load_field env' num' dur' pk \<noteq> None" using f(2) same by simp
  then obtain c' where c': "config_load V' = Inr c'" by (rule viper_laws.load_total[OF assms(2)])
  obtain f' where f': "c' = config_of f'" "\<forall>pk \<in> set config_fields. load_field env' num' dur' pk = Some (f' (fst pk))"
    by (rule viper_laws.load_fields[OF assms(2) c'])
  have "f' (fst pk) = f (fst pk)" if "pk \<in> set config_fields" for pk
    using that f(2) f'(2) same by (metis option.inject)
  then show ?thesis using c' f(1) f'(1) config_of_agree[of f' f] by simp
qed

text \<open>The defaults need no number to be read, and only four durations.\<close>

definition plain_default :: "string \<times> kind \<Rightarrow> bool" where
  "plain_default = (\<lambda>(p, k). case map_of config_defaults p of
       None \<Rightarrow> True
     | Some (CStr s) \<Rightarrow> k = KStr \<or> k = KDur \<and> s \<in> {''24h'', ''168h'', ''5s'', ''15s''}
     | Some (CInt n) \<Rightarrow> True)"

lemma defaults_plain: "\<forall>pk \<in> set config_fields. plain_default pk"
  by code_simp

lemma plain_default_decodes:
  assumes "viper_laws V env num dur vp va vd" "plain_default pk"
  shows "load_field (\<lambda>_. None) num dur pk = load_field (\<lambda>_. None) atoi ref_duration pk"
proof -
  have d: "dur s = ref_duration s" if "s \<in> {''24h'', ''168h'', ''5s'', ''15s''}" for s
    using that viper_laws.day[OF assms(1)] viper_laws.seconds[OF assms(1)] ref_durations by auto
  obtain p k where pk: "pk = (p, k)" by fastforce
  show ?thesis
  proof (cases "map_of config_defaults p")
    case None
    then show ?thesis by (simp add: pk load_field_def viper_field_def viper_lookup_def)
  next
    case (Some x)
    have "viper_decode num dur k x = viper_decode atoi ref_duration k x"
    proof (cases x)
      case (CStr s)
      then have "k = KStr \<or> k = KDur \<and> s \<in> {''24h'', ''168h'', ''5s'', ''15s''}"
        using assms(2) pk Some by (simp add: plain_default_def)
      then show ?thesis using CStr d by (elim disjE) simp_all
    next
      case (CInt n)
      then show ?thesis by (cases k) simp_all
    qed
    then show ?thesis using Some by (simp add: pk load_field_def viper_field_def viper_lookup_def env_value_def)
  qed
qed

definition default_field :: "string \<times> kind \<Rightarrow> cfg_val option" where
  "default_field = (\<lambda>(p, k). case map_of config_defaults p of
     None \<Rightarrow> Some (zero_of k) | Some x \<Rightarrow> viper_decode atoi ref_duration k x)"

lemma default_values:
  "map default_field config_fields = map Some [VStr ''8080'', VStr ''0.0.0.0'', VStr ''localhost'', VStr ''5432'',
     VStr ''nimbusrun'', VStr ''nimbusrun'', VStr '''', VStr ''disable'', VStr ''localhost:6379'', VStr '''', VNum 0,
     VStr ''nimbusrun:jobs'', VStr ''nimbusrun:results'', VStr ''nimbusrun:workers'', VStr ''worker-1'',
     VStr ''super-secret-key-change-me'', VNum (86400 * second), VNum (604800 * second), VStr ''X-API-Key'',
     VStr ''unix:///var/run/docker.sock'', VStr ''localhost:5000'', VNum 30, VNum (5 * second), VNum (15 * second),
     VStr '''', VStr '''', VStr ''/metrics'', VStr ''9090'']"
  by code_simp

lemma config_of_defaults:
  assumes "\<forall>pk \<in> set config_fields. default_field pk = Some (f (fst pk))"
  shows "config_of f = default_config_record"
proof -
  have "map (\<lambda>pk. Some (f (fst pk))) config_fields = map default_field config_fields" using assms by simp
  then have "map Some (map f (map fst config_fields)) = map default_field config_fields" by simp
  then have v: "map f (map fst config_fields) = [VStr ''8080'', VStr ''0.0.0.0'', VStr ''localhost'', VStr ''5432'',
     VStr ''nimbusrun'', VStr ''nimbusrun'', VStr '''', VStr ''disable'', VStr ''localhost:6379'', VStr '''', VNum 0,
     VStr ''nimbusrun:jobs'', VStr ''nimbusrun:results'', VStr ''nimbusrun:workers'', VStr ''worker-1'',
     VStr ''super-secret-key-change-me'', VNum (86400 * second), VNum (604800 * second), VStr ''X-API-Key'',
     VStr ''unix:///var/run/docker.sock'', VStr ''localhost:5000'', VNum 30, VNum (5 * second), VNum (15 * second),
     VStr '''', VStr '''', VStr ''/metrics'', VStr ''9090'']"
    unfolding default_values by (simp only: inj_map_eq_map inj_Some)
  show ?thesis
    using v unfolding config_of_def default_config_record_def config_fields_def list.map fst_conv list.inject
    by (elim conjE) (simp only: str_of.simps num_of.simps)
qed

lemma loads_default:
  assumes "viper_laws V env num dur vp va vd" "\<forall>n. n \<notin> set documented_variables \<longrightarrow> env n = None"
  shows "config_load V = Inr default_config_record"
proof -
  have "load_field (\<lambda>_. None) atoi ref_duration pk = default_field pk" for pk
    by (cases pk) (simp add: default_field_def load_field_def viper_field_def viper_lookup_def env_value_def split: option.split)
  then have fld: "load_field env num dur pk = default_field pk" if "pk \<in> set config_fields" for pk
    using plain_default_decodes[OF assms(1)] defaults_plain documented_field[of env "\<lambda>_. None"] assms(2) that by simp
  have "default_field pk \<noteq> None" if "pk \<in> set config_fields" for pk
  proof -
    have "default_field pk \<in> set (map default_field config_fields)" using that by simp
    then show ?thesis unfolding default_values by auto
  qed
  then have "\<forall>pk \<in> set config_fields. load_field env num dur pk \<noteq> None" using fld by simp
  then obtain c where c: "config_load V = Inr c" by (rule viper_laws.load_total[OF assms(1)])
  obtain f where f: "c = config_of f" "\<forall>pk \<in> set config_fields. load_field env num dur pk = Some (f (fst pk))"
    by (rule viper_laws.load_fields[OF assms(1) c])
  then show ?thesis using c config_of_defaults[of f] fld by simp
qed

lemma load_documented:
  assumes "viper_laws V env num dur vp va vd" "viper_laws V' env' num dur vp' va' vd'"
    and "\<forall>n. n \<notin> set documented_variables \<longrightarrow> env' n = env n" "config_load V = Inr c"
  shows "config_load V' = Inr c"
proof (rule load_agree[OF assms(1,2) _ assms(4)])
  show "\<forall>pk \<in> set config_fields. load_field env' num dur pk = load_field env num dur pk"
    using documented_field[OF assms(3)] by blast
qed

lemma ref_loads_default: "config_load (ref_viper (\<lambda>_. None)) = Inr default_config_record"
  by (rule loads_default[OF ref_viper.viper_laws_axioms]) simp

text \<open>
  C35. None of the variables the README documents has any effect: two environments that differ in these
  variables only load the same configuration, or both fail to.  Viper looks a key up under its name
  with the dots kept, \<open>NIMBUSRUN_SERVER.PORT\<close>, and no replacer turns the dots into underscores.
\<close>

theorem documented_variables_have_no_effect:
  assumes "viper_laws V env num dur vp va vd" "viper_laws V' env' num dur vp' va' vd'"
    and "\<forall>n. n \<notin> set documented_variables \<longrightarrow> env' n = env n" "config_load V = Inr c"
  shows "config_load V' = Inr c"
  by (rule load_documented[OF assms])

theorem documented_variables_have_no_effect_witness:
  "config_load (ref_viper (\<lambda>n. if n = ''NIMBUSRUN_SERVER_PORT'' then Some ''9999'' else None)) = Inr default_config_record"
  by (rule documented_variables_have_no_effect[OF ref_viper.viper_laws_axioms ref_viper.viper_laws_axioms _
        ref_loads_default])
    (simp add: documented_variables_def)

text \<open>
  Whatever the environment, a configuration that loads has no database name, because the default is
  set under \<open>database.dbname\<close> and the field reads \<open>database.dbnam\<close>, and neither a builder directory nor a
  builder registry, which have no default and no variable.
\<close>

theorem database_name_is_never_configured:
  assumes "viper_laws V env num dur vp va vd" "config_load V = Inr c"
  shows "dc_dbname (cfg_database c) = '''' \<and> cfg_build c = \<lparr>bc_workers_dir = '''', bc_registry = ''''\<rparr>"
proof -
  obtain f where f: "c = config_of f" "\<forall>pk \<in> set config_fields. load_field env num dur pk = Some (f (fst pk))"
    by (rule viper_laws.load_fields[OF assms])
  have "\<forall>p \<in> {''database.dbnam'', ''build.workers_dir'', ''build.registry''}.
      map_of config_defaults p = None \<and> (p, KStr) \<in> set config_fields"
    by code_simp
  then have "\<forall>p \<in> {''database.dbnam'', ''build.workers_dir'', ''build.registry''}. f p = VStr ''''"
    using f(2) by (fastforce simp: load_field_def viper_field_def viper_lookup_def)
  then show ?thesis by (simp add: f(1) config_of_def)
qed

theorem database_name_is_never_configured_witness:
  "dc_dbname (cfg_database default_config_record) = ''''"
  using database_name_is_never_configured[OF ref_viper.viper_laws_axioms ref_loads_default]
  by simp

end
