(* ===== verification/Migrations.thy ===== *)
theory Migrations
  imports GoStd
begin

text \<open>
  \<open>internal/db\<close>: the connection pool of \<open>db.go\<close> and the migration runner of \<open>migrations.go\<close>, with the
  statements of \<open>migrations/001_init.sql\<close>.  The \<open>pgxpool\<close> package and the file system are parameters, the
  records \<open>pgx\<close> and \<open>files\<close>, over an unspecified world \<open>'w\<close>.  What PostgreSQL does with a script is
  defined for the statements the script is made of.
\<close>

section \<open>The pool\<close>

record ('p, 'w) pgx =
  px_new :: "string \<Rightarrow> 'w \<Rightarrow> (string + 'p) \<times> 'w"
  px_ping :: "'p \<Rightarrow> int \<Rightarrow> 'w \<Rightarrow> string option \<times> 'w"
  px_close :: "'p \<Rightarrow> 'w \<Rightarrow> 'w"
  px_exec :: "'p \<Rightarrow> string \<Rightarrow> 'w \<Rightarrow> string option \<times> 'w"

text \<open>\<open>db.New\<close>: a pool whose server does not answer a ping within five seconds is closed again.\<close>

definition db_new :: "('p, 'w) pgx \<Rightarrow> string \<Rightarrow> 'w \<Rightarrow> (string + 'p) \<times> 'w" where
  "db_new PX url w =
     (case px_new PX url w of
        (Inl e, w1) \<Rightarrow> (Inl e, w1)
      | (Inr p, w1) \<Rightarrow>
          (case px_ping PX p (5 * second) w1 of
             (Some e, w2) \<Rightarrow> (Inl e, px_close PX p w2)
           | (None, w2) \<Rightarrow> (Inr p, w2)))"

definition db_close :: "('p, 'w) pgx \<Rightarrow> 'p \<Rightarrow> 'w \<Rightarrow> 'w" where
  "db_close PX p w = px_close PX p w"

definition db_health :: "('p, 'w) pgx \<Rightarrow> 'p \<Rightarrow> 'w \<Rightarrow> string option \<times> 'w" where
  "db_health PX p w = px_ping PX p (1 * second) w"

section \<open>The runner\<close>

text \<open>
  \<open>os.ReadDir\<close> yields the entries sorted by name, each with whether it is a directory; \<open>os.ReadFile\<close>
  takes a path.
\<close>

record 'w files =
  os_read_dir :: "string \<Rightarrow> 'w \<Rightarrow> string + (string \<times> bool) list"
  os_read_file :: "string \<Rightarrow> 'w \<Rightarrow> string + string"

datatype migrated = Migrated | MigrationFailed string | MigrationPanic

text \<open>Indexing the first byte of an empty name panics.\<close>

fun migrate_entries ::
  "'w files \<Rightarrow> ('p, 'w) pgx \<Rightarrow> 'p \<Rightarrow> string \<Rightarrow> (string \<times> bool) list \<Rightarrow> 'w \<Rightarrow> migrated \<times> 'w" where
  "migrate_entries F PX p dir [] w = (Migrated, w)"
| "migrate_entries F PX p dir ((name, is_dir) # es) w =
     (if is_dir then migrate_entries F PX p dir es w
      else if name = '''' then (MigrationPanic, w)
      else if hd name = CHR ''.'' then migrate_entries F PX p dir es w
      else (case os_read_file F (dir @ ''/'' @ name) w of
              Inl e \<Rightarrow> (MigrationFailed (''reading migration '' @ name @ '': '' @ e), w)
            | Inr sql \<Rightarrow>
                (case px_exec PX p sql w of
                   (Some e, w1) \<Rightarrow> (MigrationFailed (''executing migration '' @ name @ '': '' @ e), w1)
                 | (None, w1) \<Rightarrow> migrate_entries F PX p dir es w1)))"

definition run_migrations :: "'w files \<Rightarrow> ('p, 'w) pgx \<Rightarrow> 'p \<Rightarrow> string \<Rightarrow> 'w \<Rightarrow> migrated \<times> 'w" where
  "run_migrations F PX p dir w =
     (case os_read_dir F dir w of
        Inl e \<Rightarrow> (MigrationFailed (''reading migrations dir: '' @ e), w)
      | Inr es \<Rightarrow> migrate_entries F PX p dir es w)"

section \<open>The script\<close>

text \<open>
  The statements of \<open>001_init.sql\<close> that define objects, and the objects of a database.  A table is created with
  references to other tables; every statement but \<open>ADD CONSTRAINT\<close> has \<open>IF NOT EXISTS\<close>.
\<close>

datatype ddl =
    CreateTable string "string list"
  | AddForeignKey string string string
  | CreateIndex string string

record catalog =
  ct_tables :: "string list"
  ct_constraints :: "(string \<times> string) list"
  ct_indexes :: "string list"

definition empty_catalog :: catalog where
  "empty_catalog = \<lparr>ct_tables = [], ct_constraints = [], ct_indexes = []\<rparr>"

fun exec_ddl :: "ddl \<Rightarrow> catalog \<Rightarrow> string + catalog" where
  "exec_ddl (CreateTable t refs) c =
     (if t \<in> set (ct_tables c) then Inr c
      else if \<exists>x \<in> set refs. x \<notin> set (ct_tables c) then Inl ''undefined_table''
      else Inr (c\<lparr>ct_tables := t # ct_tables c\<rparr>))"
| "exec_ddl (AddForeignKey t n x) c =
     (if t \<notin> set (ct_tables c) \<or> x \<notin> set (ct_tables c) then Inl ''undefined_table''
      else if (t, n) \<in> set (ct_constraints c) then Inl ''duplicate_object''
      else Inr (c\<lparr>ct_constraints := (t, n) # ct_constraints c\<rparr>))"
| "exec_ddl (CreateIndex n t) c =
     (if n \<in> set (ct_indexes c) then Inr c
      else if t \<notin> set (ct_tables c) then Inl ''undefined_table''
      else Inr (c\<lparr>ct_indexes := n # ct_indexes c\<rparr>))"

text \<open>A script sent as one query is one transaction: it takes effect as a whole or not at all.\<close>

fun exec_script :: "ddl list \<Rightarrow> catalog \<Rightarrow> string + catalog" where
  "exec_script [] c = Inr c"
| "exec_script (s # ss) c = (case exec_ddl s c of Inl e \<Rightarrow> Inl e | Inr c' \<Rightarrow> exec_script ss c')"

definition init_script :: "ddl list" where
  "init_script =
    [CreateTable ''function_versions'' [], CreateTable ''users'' [], CreateTable ''functions'' [''users'', ''function_versions''],
     AddForeignKey ''function_versions'' ''fk_function_versions_function_id'' ''functions'',
     CreateTable ''workers'' [], CreateTable ''invocations'' [''functions'', ''function_versions''],
     CreateTable ''logs'' [''invocations''], CreateTable ''dlq_invocations'' [''functions'', ''function_versions''],
     CreateIndex ''idx_functions_user_id'' ''functions'', CreateIndex ''idx_function_versions_function_id'' ''function_versions'',
     CreateIndex ''idx_invocations_function_id'' ''invocations'', CreateIndex ''idx_invocations_worker_id'' ''invocations'',
     CreateIndex ''idx_invocations_status'' ''invocations'', CreateIndex ''idx_invocations_idempotency'' ''invocations'',
     CreateIndex ''idx_logs_invocation_id'' ''logs'', CreateIndex ''idx_workers_status'' ''workers'',
     CreateIndex ''idx_workers_last_heartbeat'' ''workers'']"

text \<open>Objects are only ever added.\<close>

lemma exec_ddl_grows:
  "exec_ddl s c = Inr c' \<Longrightarrow> set (ct_tables c) \<subseteq> set (ct_tables c') \<and> set (ct_constraints c) \<subseteq> set (ct_constraints c')"
  by (cases s) (auto split: if_splits)

lemma exec_script_grows:
  "exec_script ss c = Inr c' \<Longrightarrow> set (ct_tables c) \<subseteq> set (ct_tables c') \<and> set (ct_constraints c) \<subseteq> set (ct_constraints c')"
  by (induction ss arbitrary: c) (fastforce split: sum.splits dest: exec_ddl_grows)+

lemma exec_script_adds:
  "exec_script ss c = Inr c' \<Longrightarrow> AddForeignKey t n x \<in> set ss \<Longrightarrow> (t, n) \<in> set (ct_constraints c')"
proof (induction ss arbitrary: c)
  case (Cons s ss)
  then obtain c1 where c1: "exec_ddl s c = Inr c1" "exec_script ss c1 = Inr c'" by (auto split: sum.splits)
  show ?case
  proof (cases "s = AddForeignKey t n x")
    case True
    then have "(t, n) \<in> set (ct_constraints c1)" using c1(1) by (auto split: if_splits)
    then show ?thesis using exec_script_grows[OF c1(2)] by auto
  next
    case False
    then show ?thesis using Cons c1 by auto
  qed
qed simp

lemma exec_script_repeats:
  "(t, n) \<in> set (ct_constraints c) \<Longrightarrow> AddForeignKey t n x \<in> set ss \<Longrightarrow> \<exists>e. exec_script ss c = Inl e"
proof (induction ss arbitrary: c)
  case (Cons s ss)
  show ?case
  proof (cases "exec_ddl s c")
    case (Inr c1)
    then have "s \<noteq> AddForeignKey t n x" "(t, n) \<in> set (ct_constraints c1)"
      using Cons.prems(1) exec_ddl_grows[OF Inr] by (auto split: if_splits)
    then show ?thesis using Cons Inr by auto
  qed simp
qed simp

definition init_catalog :: catalog where
  "init_catalog = \<lparr>ct_tables = [''dlq_invocations'', ''logs'', ''invocations'', ''workers'', ''functions'', ''users'', ''function_versions''],
     ct_constraints = [(''function_versions'', ''fk_function_versions_function_id'')],
     ct_indexes = [''idx_workers_last_heartbeat'', ''idx_workers_status'', ''idx_logs_invocation_id'', ''idx_invocations_idempotency'',
       ''idx_invocations_status'', ''idx_invocations_worker_id'', ''idx_invocations_function_id'',
       ''idx_function_versions_function_id'', ''idx_functions_user_id'']\<rparr>"

lemma init_script_runs: "exec_script init_script empty_catalog = Inr init_catalog"
  by code_simp

lemma fk_in_script: "AddForeignKey ''function_versions'' ''fk_function_versions_function_id'' ''functions'' \<in> set init_script"
  by (simp add: init_script_def)

section \<open>A database that has the script\<close>

text \<open>
  The text of the migration is executed as \<open>init_script\<close> on the objects of the database; \<open>cat\<close> reads them
  off the world, and no other operation of the pool changes them.  The directory holds this one file.
\<close>

locale migration_world =
  fixes F :: "'w files" and PX :: "('p, 'w) pgx" and cat :: "'w \<Rightarrow> catalog" and dir sql :: string
  assumes listing: "os_read_dir F dir w = Inr [(''001_init.sql'', False)]"
    and content: "os_read_file F (dir @ ''/001_init.sql'') w = Inr sql"
    and exec_ok: "px_exec PX p sql w = (None, w') \<Longrightarrow> exec_script init_script (cat w) = Inr (cat w')"
    and exec_err: "px_exec PX p sql w = (Some e, w') \<Longrightarrow>
      cat w' = cat w \<or> exec_script init_script (cat w) = Inr (cat w')"
    and exec_refused: "exec_script init_script (cat w) = Inl e \<Longrightarrow> \<exists>e' w'. px_exec PX p sql w = (Some e', w')"
    and pool: "px_new PX url w = (x, w') \<Longrightarrow> cat w' = cat w" "px_ping PX p d w = (y, w') \<Longrightarrow> cat w' = cat w"
      "cat (px_close PX p w) = cat w"
begin

lemma db_new_cat: "db_new PX url w = (x, w') \<Longrightarrow> cat w' = cat w"
  by (auto simp: db_new_def pool(3) split: prod.splits sum.splits option.splits dest!: pool(1,2))

lemma run_is_exec:
  "run_migrations F PX p dir w = (case px_exec PX p sql w of
     (Some e, w1) \<Rightarrow> (MigrationFailed (''executing migration 001_init.sql: '' @ e), w1) | (None, w1) \<Rightarrow> (Migrated, w1))"
  using listing[of w] content[of w] by (simp add: run_migrations_def split: prod.splits option.splits)

lemma migrated_once:
  assumes "run_migrations F PX p dir w = (Migrated, w')"
  shows "(''function_versions'', ''fk_function_versions_function_id'') \<in> set (ct_constraints (cat w'))"
proof -
  have "px_exec PX p sql w = (None, w')" using assms by (auto simp: run_is_exec split: prod.splits option.splits)
  from exec_script_adds[OF exec_ok[OF this] fk_in_script] show ?thesis .
qed

lemma migrated_never_again:
  assumes "(''function_versions'', ''fk_function_versions_function_id'') \<in> set (ct_constraints (cat w))"
  shows "\<exists>e w'. run_migrations F PX p dir w = (MigrationFailed e, w') \<and> cat w' = cat w"
proof -
  obtain e where s: "exec_script init_script (cat w) = Inl e"
    using exec_script_repeats[OF assms fk_in_script] by blast
  then obtain e' w' where x: "px_exec PX p sql w = (Some e', w')" using exec_refused by blast
  then show ?thesis using exec_err[OF x] s by (simp add: run_is_exec)
qed

end

text \<open>A world that is just the objects of its database.\<close>

definition ref_files :: "catalog files" where
  "ref_files = \<lparr>os_read_dir = (\<lambda>_ _. Inr [(''001_init.sql'', False)]), os_read_file = (\<lambda>_ _. Inr ''init'')\<rparr>"

definition ref_pgx :: "(unit, catalog) pgx" where
  "ref_pgx = \<lparr>px_new = (\<lambda>_ c. (Inr (), c)), px_ping = (\<lambda>_ _ c. (None, c)), px_close = (\<lambda>_ c. c),
     px_exec = (\<lambda>_ sql c. if sql = ''init'' then (case exec_script init_script c of Inl e \<Rightarrow> (Some e, c) | Inr c' \<Rightarrow> (None, c'))
        else (Some ''syntax_error'', c))\<rparr>"

interpretation ref_world: migration_world ref_files ref_pgx "\<lambda>c. c" "''migrations''" "''init''"
  by unfold_locales (auto simp: ref_files_def ref_pgx_def split: sum.splits)

end
