(* ===== verification/Startup.thy ===== *)
theory Startup
  imports Settings Migrations Gateway Dispatch Worker
begin

text \<open>
  The \<open>main\<close> functions of the three processes, \<open>cmd/api-gateway\<close>, \<open>cmd/scheduler\<close> and \<open>cmd/worker\<close>, up to the
  point where they wait for a signal: what each reads of the configuration, in which order it
  connects, and on what it gives up.  The Redis connection test and the creation of the Docker client
  are parameters.
\<close>

section \<open>The processes\<close>

text \<open>A process ends with an exit code and a message, or is up with what it has built.\<close>

datatype 'a process = Exited int string | Up 'a

definition database_url :: "config \<Rightarrow> string" where
  "database_url c = (let d = cfg_database c in
     ''postgres://'' @ dc_user d @ '':'' @ dc_password d @ ''@'' @ dc_host d @ '':'' @ dc_port d @ ''/'' @ dc_dbname d @
     ''?sslmode='' @ dc_sslmode d)"

record gateway_up =
  gu_auth :: auth_service
  gu_addr :: string

text \<open>\<open>Server.Run\<close> listens on the configured host and port.\<close>

definition server_addr :: "config \<Rightarrow> string" where
  "server_addr c = sc_host (cfg_server c) @ '':'' @ sc_port (cfg_server c)"

text \<open>A panic ends a Go process with exit code 2.\<close>

definition gateway_main :: "'v viper \<Rightarrow> 'w files \<Rightarrow> ('p, 'w) pgx \<Rightarrow> 'w \<Rightarrow> gateway_up process \<times> 'w" where
  "gateway_main V F PX w =
     (case config_load V of
        Inl e \<Rightarrow> (Exited 1 (''failed to load config: '' @ e), w)
      | Inr c \<Rightarrow>
          (case db_new PX (database_url c) w of
             (Inl e, w1) \<Rightarrow> (Exited 1 (''failed to connect to database: '' @ e), w1)
           | (Inr p, w1) \<Rightarrow>
               (case run_migrations F PX p ''migrations'' w1 of
                  (MigrationFailed e, w2) \<Rightarrow> (Exited 1 (''failed to run migrations: '' @ e), w2)
                | (MigrationPanic, w2) \<Rightarrow> (Exited 2 ''index out of range'', w2)
                | (Migrated, w2) \<Rightarrow>
                    (Up \<lparr>gu_auth = new_auth_service (au_secret (cfg_auth c)) (au_expiry (cfg_auth c)),
                         gu_addr = server_addr c\<rparr>, w2))))"

text \<open>Options of the Redis client, as both remaining processes set them.\<close>

definition redis_options :: "config \<Rightarrow> string \<times> string \<times> int" where
  "redis_options c = (let r = cfg_redis c in (rc_addr r, rc_password r, rc_db r))"

record scheduler_up =
  su_queue :: rqueue
  su_scheduler :: scheduler

definition new_stream_queue :: "string \<Rightarrow> string \<Rightarrow> rqueue" where
  "new_stream_queue jobs results = \<lparr>q_jobs = jobs, q_results = results\<rparr>"

definition scheduler_main ::
  "'v viper \<Rightarrow> ('p, 'w) pgx \<Rightarrow> (string \<times> string \<times> int \<Rightarrow> 'r \<Rightarrow> string option \<times> 'r) \<Rightarrow> 'r redis \<Rightarrow>
   'w \<times> 'r \<Rightarrow> scheduler_up process \<times> 'w \<times> 'r" where
  "scheduler_main V PX ping R = (\<lambda>(w, r).
     case config_load V of
       Inl e \<Rightarrow> (Exited 1 (''Failed to load config: '' @ e), w, r)
     | Inr c \<Rightarrow>
         (case db_new PX (database_url c) w of
            (Inl e, w1) \<Rightarrow> (Exited 1 (''Failed to connect to database: '' @ e), w1, r)
          | (Inr p, w1) \<Rightarrow>
              (case ping (redis_options c) r of
                 (Some e, r1) \<Rightarrow> (Exited 1 (''Failed to connect to Redis: '' @ e), w1, r1)
               | (None, r1) \<Rightarrow>
                   (let q = new_stream_queue (st_job_queue (rc_stream (cfg_redis c))) (st_result_queue (rc_stream (cfg_redis c)))
                    in case scheduler_start R q (new_scheduler, r1) of
                         (Some e, s, r2) \<Rightarrow> (Exited 1 (''Failed to start scheduler: '' @ e), w1, r2)
                       | (None, s, r2) \<Rightarrow> (Up \<lparr>su_queue = q, su_scheduler = s\<rparr>, w1, r2)))))"

text \<open>
  The worker goes on without a database; its queue and its names do not come from the configuration.
  \<open>docker\<close> is the result of creating the Docker client.
\<close>

definition worker_main ::
  "'v viper \<Rightarrow> ('p, 'w) pgx \<Rightarrow> (string \<times> string \<times> int \<Rightarrow> 'r \<Rightarrow> string option \<times> 'r) \<Rightarrow> string option \<Rightarrow> int \<Rightarrow>
   'w \<times> 'r \<Rightarrow> wservice process \<times> 'w \<times> 'r" where
  "worker_main V PX ping docker pid = (\<lambda>(w, r).
     case config_load V of
       Inl e \<Rightarrow> (Exited 1 (''Failed to load config: '' @ e), w, r)
     | Inr c \<Rightarrow>
         (let (_, w1) = db_new PX (database_url c) w
          in case ping (redis_options c) r of
               (Some e, r1) \<Rightarrow> (Exited 1 (''Failed to connect to Redis: '' @ e), w1, r1)
             | (None, r1) \<Rightarrow>
                 (case docker of
                    Some e \<Rightarrow> (Exited 1 (''Failed to create container runner: creating docker client: '' @ e), w1, r1)
                  | None \<Rightarrow> (Up (main_service pid), w1, r1))))"

section \<open>Properties\<close>

text \<open>
  C12. The gateway starts once per database.  When it has come up, its migration has run, and from then
  on no start of it on that database, whatever its configuration, gets past the migrations: \<open>ADD
  CONSTRAINT\<close> has no \<open>IF NOT EXISTS\<close>, so the script is refused as a whole, and the gateway exits with
  code 1 having changed no table.
\<close>

theorem gateway_starts_once:
  assumes "migration_world F PX cat ''migrations'' sql" "gateway_main V F PX w = (Up g, w1)"
    and "cat w2 = cat w1" "gateway_main V' F PX w2 = (out, w3)"
  shows "(\<exists>e. out = Exited 1 e) \<and> cat w3 = cat w2"
proof -
  obtain c p w0 where up: "db_new PX (database_url c) w = (Inr p, w0)" "run_migrations F PX p ''migrations'' w0 = (Migrated, w1)"
    using assms(2) by (auto simp: gateway_main_def split: sum.splits prod.splits migrated.splits)
  have fk: "(''function_versions'', ''fk_function_versions_function_id'') \<in> set (ct_constraints (cat w2))"
    using migration_world.migrated_once[OF assms(1) up(2)] assms(3) by simp
  show ?thesis
  proof (cases "config_load V'")
    case (Inl e)
    then show ?thesis using assms(4) by (auto simp: gateway_main_def)
  next
    case (Inr c')
    obtain res w4 where n: "db_new PX (database_url c') w2 = (res, w4)" by fastforce
    have c4: "cat w4 = cat w2" by (rule migration_world.db_new_cat[OF assms(1) n])
    show ?thesis
    proof (cases res)
      case (Inl e)
      then show ?thesis using assms(4) Inr n c4 by (auto simp: gateway_main_def)
    next
      case (Inr p')
      obtain e w5 where r: "run_migrations F PX p' ''migrations'' w4 = (MigrationFailed e, w5)" "cat w5 = cat w4"
        using migration_world.migrated_never_again[OF assms(1)] fk c4 by metis
      then show ?thesis using assms(4) \<open>config_load V' = Inr c'\<close> Inr n c4 by (auto simp: gateway_main_def)
    qed
  qed
qed

lemma demo_gateway_up:
  "gateway_main (ref_viper (\<lambda>_. None)) ref_files ref_pgx empty_catalog =
     (Up \<lparr>gu_auth = new_auth_service ''super-secret-key-change-me'' (86400 * second), gu_addr = ''0.0.0.0:8080''\<rparr>, init_catalog)"
  using ref_loads_default
  by (simp add: gateway_main_def db_new_def ref_pgx_def run_migrations_def ref_files_def init_script_runs
      default_config_record_def server_addr_def)

theorem gateway_starts_once_witness:
  "\<exists>e. fst (gateway_main (ref_viper (\<lambda>_. None)) ref_files ref_pgx init_catalog) = Exited 1 e"
proof -
  obtain out w3 where g: "gateway_main (ref_viper (\<lambda>_. None)) ref_files ref_pgx init_catalog = (out, w3)" by fastforce
  from gateway_starts_once[OF ref_world.migration_world_axioms demo_gateway_up refl g] show ?thesis by (simp add: g)
qed

text \<open>
  The secret a configuration has when neither of the two variables it is looked up in is set, whatever
  else the environment holds; in particular the documented \<open>NIMBUSRUN_AUTH_JWT_SECRET\<close> is not one of
  the two.
\<close>

lemma secret_is_consulted: "consulted ''auth.jwt_secret'' = [''NIMBUSRUN_AUTH.JWT_SECRET'', ''NIMBUSRUN_AUTH'']"
  by code_simp

lemma secret_of_default:
  assumes "viper_laws V env num dur vp va vd" "\<forall>n \<in> set (consulted ''auth.jwt_secret''). env_value env n = None"
    and "config_load V = Inr c"
  shows "au_secret (cfg_auth c) = ''super-secret-key-change-me''"
proof -
  obtain f where f: "c = config_of f" "\<forall>pk \<in> set config_fields. load_field env num dur pk = Some (f (fst pk))"
    by (rule viper_laws.load_fields[OF assms(1,3)])
  have k: "(''auth.jwt_secret'', KStr) \<in> set config_fields"
    and d: "map_of config_defaults ''auth.jwt_secret'' = Some (CStr ''super-secret-key-change-me'')"
    by code_simp+
  have "viper_lookup env ''NIMBUSRUN'' True (map_of config_defaults) ''auth.jwt_secret'' = Some (CStr ''super-secret-key-change-me'')"
    using assms(2) by (auto simp: viper_lookup_def d consulted_def)
  then have "f ''auth.jwt_secret'' = VStr ''super-secret-key-change-me''"
    using bspec[OF f(2) k] by (simp add: load_field_def viper_field_def)
  then show ?thesis by (simp add: f(1) config_of_def)
qed

text \<open>
  C13. A gateway that came up without a configured secret, that is with neither of the two variables set
  that the key \<open>auth.jwt_secret\<close> is looked up in and any other environment, checks its tokens with the
  secret printed in the repository: whoever signs claims of type \<open>access\<close> for a user with that secret is
  let in as that user.
\<close>

theorem published_secret_admits_anyone:
  assumes "viper_laws V env num dur vp va vd"
    and "env_value env ''NIMBUSRUN_AUTH.JWT_SECRET'' = None" "env_value env ''NIMBUSRUN_AUTH'' = None"
    and "gateway_main V F PX w = (Up g, w')" "crypto_laws C fresh" "ext_codec X"
    and "jwt_sign C cs ''super-secret-key-change-me'' = Inr s" "fresh cs"
    and "claim_string ''type'' cs = ''access''" "claim_string ''sub'' cs = uuid_str X u"
  shows "auth_middleware C X (gu_auth g) (''Bearer '' @ s) = Inr (uuid_str X u)"
proof -
  obtain c where c: "config_load V = Inr c"
      and g: "gu_auth g = new_auth_service (au_secret (cfg_auth c)) (au_expiry (cfg_auth c))"
    using assms(4) by (auto simp: gateway_main_def split: prod.splits sum.splits migrated.splits)
  have "au_secret (cfg_auth c) = ''super-secret-key-change-me''"
    by (rule secret_of_default[OF assms(1) _ c]) (simp add: secret_is_consulted assms(2,3))
  then have "jwt_parse C s (key_func (gu_auth g)) = Inr (hs256_token cs True)"
    using crypto_laws.parse_signed[OF assms(5,7,8)] by (simp add: g new_auth_service_def)
  then have "validate_token C X (gu_auth g) s = Inr (u, ''access'')"
    using assms(6,9,10) by (simp add: validate_token_def ext_codec.uuid_rt)
  then show ?thesis by (auto simp: auth_middleware_Inr_iff validate_access_token_iff)
qed

theorem published_secret_admits_anyone_witness:
  "auth_middleware ref_crypto ref_ext (new_auth_service ''super-secret-key-change-me'' (86400 * second))
     (''Bearer '' @ digits10 (to_nat (access_claims ref_ext (gw_auth ref_gateway) 7 0 0, ''super-secret-key-change-me''))) =
   Inr (uuid_str ref_ext 7)"
proof -
  let ?cs = "access_claims ref_ext (gw_auth ref_gateway) 7 0 0"
  have s: "jwt_sign ref_crypto ?cs ''super-secret-key-change-me'' = Inr (digits10 (to_nat (?cs, ''super-secret-key-change-me'')))"
    by (simp add: ref_crypto_def)
  from published_secret_admits_anyone[OF ref_viper.viper_laws_axioms _ _ demo_gateway_up ref_crypto.crypto_laws_axioms
      ref_ext.ext_codec_axioms s, of 7]
  show ?thesis by (simp add: env_value_def)
qed

end
