(* ===== verification/Metrics.thy ===== *)
theory Metrics
  imports Float64 "HOL-Library.Monad_Syntax"
begin

text \<open>
  \<open>internal/observability/metrics.go\<close>: the collectors, their registration and the methods that record.
  The Prometheus client is a parameter, the record \<open>prom\<close> over an unspecified registry \<open>'m\<close>; an operation
  that panics (a name registered twice, the wrong number of label values) has no result.
\<close>

section \<open>Collectors\<close>

datatype mkind = Counter | Gauge | Histogram

text \<open>A collector is known by its description; a scalar is one without labels.\<close>

record mdesc =
  md_kind :: mkind
  md_name :: string
  md_labels :: "string list"
  md_buckets :: "rat list"

record 'm prom =
  pm_register :: "mdesc \<Rightarrow> 'm \<Rightarrow> 'm option"
  pm_inc :: "mdesc \<Rightarrow> string list \<Rightarrow> 'm \<Rightarrow> 'm option"
  pm_dec :: "mdesc \<Rightarrow> string list \<Rightarrow> 'm \<Rightarrow> 'm option"
  pm_set :: "mdesc \<Rightarrow> string list \<Rightarrow> f64 \<Rightarrow> 'm \<Rightarrow> 'm option"
  pm_observe :: "mdesc \<Rightarrow> string list \<Rightarrow> f64 \<Rightarrow> 'm \<Rightarrow> 'm option"

definition counter :: "string \<Rightarrow> string list \<Rightarrow> mdesc" where
  "counter n ls = \<lparr>md_kind = Counter, md_name = n, md_labels = ls, md_buckets = []\<rparr>"

definition gauge :: "string \<Rightarrow> string list \<Rightarrow> mdesc" where
  "gauge n ls = \<lparr>md_kind = Gauge, md_name = n, md_labels = ls, md_buckets = []\<rparr>"

definition histogram :: "string \<Rightarrow> string list \<Rightarrow> rat list \<Rightarrow> mdesc" where
  "histogram n ls bs = \<lparr>md_kind = Histogram, md_name = n, md_labels = ls, md_buckets = bs\<rparr>"

record metrics =
  mt_invocations :: mdesc
  mt_invocation_duration :: mdesc
  mt_invocation_errors :: mdesc
  mt_cold_start :: mdesc
  mt_queue_depth :: mdesc
  mt_queue_latency :: mdesc
  mt_worker_count :: mdesc
  mt_worker_cpu :: mdesc
  mt_worker_memory :: mdesc
  mt_worker_tasks :: mdesc
  mt_build_duration :: mdesc
  mt_build_success :: mdesc
  mt_build_failure :: mdesc
  mt_auth_attempts :: mdesc
  mt_http_duration :: mdesc
  mt_http_total :: mdesc

text \<open>\<open>prometheus.DefBuckets\<close>\<close>

definition def_buckets :: "rat list" where
  "def_buckets = [5 / 1000, 1 / 100, 25 / 1000, 5 / 100, 1 / 10, 25 / 100, 5 / 10, 1, 25 / 10, 5, 10]"

definition platform_metrics :: metrics where
  "platform_metrics = \<lparr>
     mt_invocations = counter ''nimbusrun_invocations_total'' [''function_id'', ''status''],
     mt_invocation_duration = histogram ''nimbusrun_invocation_duration_ms'' [''function_id'']
       [10, 50, 100, 250, 500, 1000, 2500, 5000, 10000, 30000, 60000],
     mt_invocation_errors = counter ''nimbusrun_invocation_errors_total'' [''function_id'', ''error_type''],
     mt_cold_start = counter ''nimbusrun_cold_starts_total'' [],
     mt_queue_depth = gauge ''nimbusrun_queue_depth'' [],
     mt_queue_latency = histogram ''nimbusrun_queue_latency_ms'' [''function_id''] [1, 5, 10, 50, 100, 500, 1000, 5000],
     mt_worker_count = gauge ''nimbusrun_worker_count'' [''status''],
     mt_worker_cpu = gauge ''nimbusrun_worker_cpu_usage'' [''worker_id''],
     mt_worker_memory = gauge ''nimbusrun_worker_memory_usage'' [''worker_id''],
     mt_worker_tasks = gauge ''nimbusrun_worker_running_tasks'' [''worker_id''],
     mt_build_duration = histogram ''nimbusrun_build_duration_seconds'' [''function_id''] [1, 5, 10, 30, 60, 120, 300, 600],
     mt_build_success = counter ''nimbusrun_builds_success_total'' [''function_id''],
     mt_build_failure = counter ''nimbusrun_builds_failure_total'' [''function_id'', ''reason''],
     mt_auth_attempts = counter ''nimbusrun_auth_attempts_total'' [''result''],
     mt_http_duration = histogram ''nimbusrun_http_request_duration_ms'' [''method'', ''path'', ''status''] def_buckets,
     mt_http_total = counter ''nimbusrun_http_requests_total'' [''method'', ''path'', ''status'']\<rparr>"

text \<open>The collectors in the order \<open>NewMetrics\<close> registers them.\<close>

definition collectors :: "metrics \<Rightarrow> mdesc list" where
  "collectors M = [mt_invocations M, mt_invocation_duration M, mt_invocation_errors M, mt_cold_start M, mt_queue_depth M,
     mt_queue_latency M, mt_worker_count M, mt_worker_cpu M, mt_worker_memory M, mt_worker_tasks M, mt_build_duration M,
     mt_build_success M, mt_build_failure M, mt_auth_attempts M, mt_http_duration M, mt_http_total M]"

fun register_all :: "'m prom \<Rightarrow> mdesc list \<Rightarrow> 'm \<Rightarrow> 'm option" where
  "register_all PM [] m = Some m"
| "register_all PM (x # xs) m = (case pm_register PM x m of None \<Rightarrow> None | Some m' \<Rightarrow> register_all PM xs m')"

definition new_metrics :: "'m prom \<Rightarrow> 'm \<Rightarrow> (metrics \<times> 'm) option" where
  "new_metrics PM m = map_option (\<lambda>m'. (platform_metrics, m')) (register_all PM (collectors platform_metrics) m)"

section \<open>Recording\<close>

definition record_invocation ::
  "'m prom \<Rightarrow> metrics \<Rightarrow> string \<Rightarrow> string \<Rightarrow> int \<Rightarrow> bool \<Rightarrow> string \<Rightarrow> 'm \<Rightarrow> 'm option" where
  "record_invocation PM M fid status ms cold etype m = do {
     m1 \<leftarrow> pm_inc PM (mt_invocations M) [fid, status] m;
     m2 \<leftarrow> (if ms > 0 then pm_observe PM (mt_invocation_duration M) [fid] (f64_of_int ms) m1 else Some m1);
     m3 \<leftarrow> (if cold then pm_inc PM (mt_cold_start M) [] m2 else Some m2);
     (if status = ''FAILED'' then pm_inc PM (mt_invocation_errors M) [fid, etype] m3 else Some m3)
   }"

definition record_queue_latency :: "'m prom \<Rightarrow> metrics \<Rightarrow> string \<Rightarrow> int \<Rightarrow> 'm \<Rightarrow> 'm option" where
  "record_queue_latency PM M fid ms m = pm_observe PM (mt_queue_latency M) [fid] (f64_of_int ms) m"

definition update_worker ::
  "'m prom \<Rightarrow> metrics \<Rightarrow> string \<Rightarrow> f64 \<Rightarrow> f64 \<Rightarrow> int \<Rightarrow> bool \<Rightarrow> 'm \<Rightarrow> 'm option" where
  "update_worker PM M wid cpu mem tasks healthy m = do {
     m2 \<leftarrow> (if healthy
        then do { m1 \<leftarrow> pm_inc PM (mt_worker_count M) [''healthy''] m; pm_dec PM (mt_worker_count M) [''unhealthy''] m1 }
        else do { m1 \<leftarrow> pm_inc PM (mt_worker_count M) [''unhealthy''] m; pm_dec PM (mt_worker_count M) [''healthy''] m1 });
     m3 \<leftarrow> pm_set PM (mt_worker_cpu M) [wid] cpu m2;
     m4 \<leftarrow> pm_set PM (mt_worker_memory M) [wid] mem m3;
     pm_set PM (mt_worker_tasks M) [wid] (f64_of_int tasks) m4
   }"

text \<open>\<open>Duration.Seconds\<close>: whole seconds and the rest, each truncated towards zero.\<close>

definition duration_seconds :: "int \<Rightarrow> f64" where
  "duration_seconds d = (let s = sgn d * (\<bar>d\<bar> div second); n = sgn d * (\<bar>d\<bar> mod second)
     in f64_add (f64_of_int s) (f64_of_rat (of_int n / of_int second)))"

definition record_build :: "'m prom \<Rightarrow> metrics \<Rightarrow> string \<Rightarrow> int \<Rightarrow> bool \<Rightarrow> string \<Rightarrow> 'm \<Rightarrow> 'm option" where
  "record_build PM M fid d success reason m = do {
     m1 \<leftarrow> pm_observe PM (mt_build_duration M) [fid] (duration_seconds d) m;
     (if success then pm_inc PM (mt_build_success M) [fid] m1
      else pm_inc PM (mt_build_failure M) [fid, reason] m1)
   }"

definition record_auth_attempt :: "'m prom \<Rightarrow> metrics \<Rightarrow> bool \<Rightarrow> 'm \<Rightarrow> 'm option" where
  "record_auth_attempt PM M success m =
     (if success then pm_inc PM (mt_auth_attempts M) [''success''] m
      else pm_inc PM (mt_auth_attempts M) [''failure''] m)"

definition record_http_request :: "'m prom \<Rightarrow> metrics \<Rightarrow> string \<Rightarrow> string \<Rightarrow> int \<Rightarrow> int \<Rightarrow> 'm \<Rightarrow> 'm option" where
  "record_http_request PM M method path status ms m = do {
     m1 \<leftarrow> pm_inc PM (mt_http_total M) [method, path, itoa status] m;
     pm_observe PM (mt_http_duration M) [method, path, itoa status] (f64_of_int ms) m1
   }"

definition http_middleware :: "'m prom \<Rightarrow> metrics \<Rightarrow> string \<Rightarrow> string \<Rightarrow> int \<Rightarrow> int \<Rightarrow> 'm \<Rightarrow> 'm option" where
  "http_middleware PM M method path status d m = record_http_request PM M method path status (milliseconds d) m"

section \<open>The client library\<close>

text \<open>
  The descriptions the client takes: a name and label names of the documented form, no label twice, none
  reserved (two underscores at the start, and \<open>le\<close> in a histogram), and buckets in increasing order.
\<close>

definition name_chars :: string where
  "name_chars = ''abcdefghijklmnopqrstuvwxyzABCDEFGHIJKLMNOPQRSTUVWXYZ_''"

definition well_named :: "string \<Rightarrow> string \<Rightarrow> bool" where
  "well_named chars s \<longleftrightarrow> (case s of [] \<Rightarrow> False
     | c # cs \<Rightarrow> c \<in> set chars \<and> (\<forall>x \<in> set cs. x \<in> set (chars @ ''0123456789'')))"

definition valid_desc :: "mdesc \<Rightarrow> bool" where
  "valid_desc x \<longleftrightarrow> well_named (name_chars @ '':'') (md_name x) \<and> distinct (md_labels x) \<and>
     (\<forall>l \<in> set (md_labels x). well_named name_chars l \<and> \<not> has_prefix l ''__'' \<and> (md_kind x = Histogram \<longrightarrow> l \<noteq> ''le'')) \<and>
     sorted_wrt (<) (md_buckets x) \<and> (md_kind x = Histogram \<longleftrightarrow> md_buckets x \<noteq> [])"

text \<open>
  What the program relies on of the Prometheus client: a collector with such a description and a new name
  registers, with its series at zero; an operation on a registered collector of the right kind succeeds when
  it is given one label value per label, each valid UTF-8 (\<open>ok\<close>), and changes only its own series, which
  for a gauge holds the sum as a \<open>float64\<close>.
\<close>

locale prom_laws =
  fixes PM :: "'m prom" and regd :: "'m \<Rightarrow> mdesc set" and gval :: "'m \<Rightarrow> mdesc \<Rightarrow> string list \<Rightarrow> f64"
    and ok :: "string \<Rightarrow> bool"
  assumes ascii: "\<forall>c \<in> set s. (of_char c :: nat) < 128 \<Longrightarrow> ok s"
    and registers: "valid_desc x \<Longrightarrow> md_name x \<notin> md_name ` regd m \<Longrightarrow>
      \<exists>m'. pm_register PM x m = Some m' \<and> regd m' = insert x (regd m) \<and> gval m' = (gval m)(x := \<lambda>_. Fin 0)"
    and incs: "x \<in> regd m \<Longrightarrow> md_kind x \<noteq> Histogram \<Longrightarrow> length ls = length (md_labels x) \<Longrightarrow> \<forall>s \<in> set ls. ok s \<Longrightarrow>
      \<exists>m'. pm_inc PM x ls m = Some m' \<and> regd m' = regd m \<and> (\<forall>y. y \<noteq> x \<longrightarrow> gval m' y = gval m y) \<and>
        (md_kind x = Gauge \<longrightarrow> gval m' x = (gval m x)(ls := f64_add (gval m x ls) (Fin 1)))"
    and decs: "x \<in> regd m \<Longrightarrow> md_kind x = Gauge \<Longrightarrow> length ls = length (md_labels x) \<Longrightarrow> \<forall>s \<in> set ls. ok s \<Longrightarrow>
      \<exists>m'. pm_dec PM x ls m = Some m' \<and> regd m' = regd m \<and>
        gval m' = (gval m)(x := (gval m x)(ls := f64_add (gval m x ls) (Fin (- 1))))"
    and sets: "x \<in> regd m \<Longrightarrow> md_kind x = Gauge \<Longrightarrow> length ls = length (md_labels x) \<Longrightarrow> \<forall>s \<in> set ls. ok s \<Longrightarrow>
      \<exists>m'. pm_set PM x ls v m = Some m' \<and> regd m' = regd m \<and> gval m' = (gval m)(x := (gval m x)(ls := v))"
    and observes: "x \<in> regd m \<Longrightarrow> md_kind x = Histogram \<Longrightarrow> length ls = length (md_labels x) \<Longrightarrow> \<forall>s \<in> set ls. ok s \<Longrightarrow>
      \<exists>m'. pm_observe PM x ls v m = Some m' \<and> regd m' = regd m \<and> gval m' = gval m"

text \<open>Calls of the recording methods.\<close>

datatype record_call =
    Invocation string string int bool string
  | QueueLatency string int
  | WorkerUpdate string f64 f64 int bool
  | Build string int bool string
  | AuthAttempt bool
  | HttpRequest string string int int

fun record_one :: "'m prom \<Rightarrow> metrics \<Rightarrow> record_call \<Rightarrow> 'm \<Rightarrow> 'm option" where
  "record_one PM M (Invocation f s ms c e) m = record_invocation PM M f s ms c e m"
| "record_one PM M (QueueLatency f ms) m = record_queue_latency PM M f ms m"
| "record_one PM M (WorkerUpdate w c me t h) m = update_worker PM M w c me t h m"
| "record_one PM M (Build f d s r) m = record_build PM M f d s r m"
| "record_one PM M (AuthAttempt s) m = record_auth_attempt PM M s m"
| "record_one PM M (HttpRequest me p s d) m = http_middleware PM M me p s d m"

fun record_calls :: "'m prom \<Rightarrow> metrics \<Rightarrow> record_call list \<Rightarrow> 'm \<Rightarrow> 'm option" where
  "record_calls PM M [] m = Some m"
| "record_calls PM M (c # cs) m = (case record_one PM M c m of None \<Rightarrow> None | Some m' \<Rightarrow> record_calls PM M cs m')"

fun labels_of :: "record_call \<Rightarrow> string list" where
  "labels_of (Invocation f s ms c e) = [f, s, e]"
| "labels_of (QueueLatency f ms) = [f]"
| "labels_of (WorkerUpdate w c me t h) = [w]"
| "labels_of (Build f d s r) = [f, r]"
| "labels_of (AuthAttempt s) = []"
| "labels_of (HttpRequest me p s d) = [me, p]"

lemma digits10_ascii: "c \<in> set (digits10 n) \<Longrightarrow> (of_char c :: nat) < 128"
proof (induction n arbitrary: c rule: digits10.induct)
  case (1 n)
  have d: "(of_char (digit_char k) :: nat) < 128" if "k < 10" for k using that by (simp add: digit_char_def)
  show ?case
  proof (cases "n < 10")
    case True
    then show ?thesis using 1(2) d by (simp add: digits10.simps[of n])
  next
    case False
    then show ?thesis using 1 d[of "n mod 10"] by (auto simp: digits10.simps[of n])
  qed
qed

lemma itoa_ascii: "c \<in> set (itoa n) \<Longrightarrow> (of_char c :: nat) < 128"
  by (auto simp: itoa_def dest: digits10_ascii split: if_splits)

lemma collectors_distinct: "distinct (map md_name (collectors platform_metrics))"
  by code_simp

lemma collectors_valid: "list_all valid_desc (collectors platform_metrics)"
  by code_simp

lemma collector_shapes:
  "map (\<lambda>x. (md_kind x, length (md_labels x))) (collectors platform_metrics) =
    [(Counter, 2), (Histogram, 1), (Counter, 2), (Counter, 0), (Gauge, 0), (Histogram, 1), (Gauge, 1), (Gauge, 1), (Gauge, 1),
     (Gauge, 1), (Histogram, 1), (Counter, 1), (Counter, 2), (Counter, 1), (Histogram, 3), (Counter, 3)]"
  by (simp add: collectors_def platform_metrics_def counter_def gauge_def histogram_def)

lemmas shapes = collector_shapes[unfolded collectors_def, simplified]

context prom_laws
begin

lemma register_all_ok:
  "distinct (map md_name xs) \<Longrightarrow> list_all valid_desc xs \<Longrightarrow> md_name ` set xs \<inter> md_name ` regd m = {} \<Longrightarrow>
   \<exists>m'. register_all PM xs m = Some m' \<and> regd m' = regd m \<union> set xs \<and>
     (\<forall>x. x \<notin> set xs \<longrightarrow> gval m' x = gval m x) \<and> (\<forall>x \<in> set xs. gval m' x = (\<lambda>_. Fin 0))"
proof (induction xs arbitrary: m)
  case (Cons x xs)
  have "valid_desc x" "md_name x \<notin> md_name ` regd m" using Cons.prems(2,3) by auto
  from registers[OF this] obtain m1 where m1: "pm_register PM x m = Some m1" "regd m1 = insert x (regd m)"
    "gval m1 = (gval m)(x := \<lambda>_. Fin 0)"
    by blast
  have "md_name ` set xs \<inter> md_name ` regd m1 = {}" using Cons.prems m1(2) by auto
  then obtain m' where m': "register_all PM xs m1 = Some m'" "regd m' = regd m1 \<union> set xs"
    "\<forall>y. y \<notin> set xs \<longrightarrow> gval m' y = gval m1 y" "\<forall>y \<in> set xs. gval m' y = (\<lambda>_. Fin 0)"
    using Cons.IH[of m1] Cons.prems(1,2) by auto
  show ?case using m1 m' by auto
qed simp

lemma new_metrics_ok:
  assumes "regd m = {}"
  obtains m' where "new_metrics PM m = Some (platform_metrics, m')" "regd m' = set (collectors platform_metrics)"
    "gval m' (mt_worker_count platform_metrics) = (\<lambda>_. Fin 0)"
proof -
  have "mt_worker_count platform_metrics \<in> set (collectors platform_metrics)" by (simp add: collectors_def)
  then show thesis
    using register_all_ok[OF collectors_distinct collectors_valid, of m] assms that by (auto simp: new_metrics_def)
qed

end

text \<open>A recording step that succeeds on every registry holding the collectors, and keeps them.\<close>

definition runs :: "('m \<Rightarrow> mdesc set) \<Rightarrow> ('m \<Rightarrow> 'm option) \<Rightarrow> bool" where
  "runs regd f \<longleftrightarrow> (\<forall>m. set (collectors platform_metrics) \<subseteq> regd m \<longrightarrow> (\<exists>m'. f m = Some m' \<and> regd m' = regd m))"

lemma runs_bind: "runs regd f \<Longrightarrow> runs regd g \<Longrightarrow> runs regd (\<lambda>m. f m \<bind> g)"
  unfolding runs_def by (metis bind.bind_lunit)

lemma runs_if: "(b \<Longrightarrow> runs regd f) \<Longrightarrow> (\<not> b \<Longrightarrow> runs regd g) \<Longrightarrow> runs regd (\<lambda>m. if b then f m else g m)"
  by (cases b) simp_all

lemma runs_Some: "runs regd Some"
  by (simp add: runs_def)

lemma record_one_unfold:
  "record_one PM M (Invocation f s ms c e) = (\<lambda>m. record_invocation PM M f s ms c e m)"
  "record_one PM M (QueueLatency f ms) = (\<lambda>m. record_queue_latency PM M f ms m)"
  "record_one PM M (WorkerUpdate w cp me t h) = (\<lambda>m. update_worker PM M w cp me t h m)"
  "record_one PM M (Build f d b r) = (\<lambda>m. record_build PM M f d b r m)"
  "record_one PM M (AuthAttempt b) = (\<lambda>m. record_auth_attempt PM M b m)"
  "record_one PM M (HttpRequest meth p st d) = (\<lambda>m. http_middleware PM M meth p st d m)"
  by (simp_all add: fun_eq_iff)

lemmas record_defs = record_invocation_def record_queue_latency_def update_worker_def record_build_def
  record_auth_attempt_def http_middleware_def record_http_request_def

context prom_laws
begin

lemma ok_itoa: "ok (itoa n)"
  using ascii itoa_ascii by blast

lemma runs_steps:
  "x \<in> set (collectors platform_metrics) \<Longrightarrow> md_kind x \<noteq> Histogram \<Longrightarrow> length ls = length (md_labels x) \<Longrightarrow> \<forall>s \<in> set ls. ok s \<Longrightarrow>
    runs regd (pm_inc PM x ls)"
  "x \<in> set (collectors platform_metrics) \<Longrightarrow> md_kind x = Gauge \<Longrightarrow> length ls = length (md_labels x) \<Longrightarrow> \<forall>s \<in> set ls. ok s \<Longrightarrow>
    runs regd (pm_dec PM x ls)"
  "x \<in> set (collectors platform_metrics) \<Longrightarrow> md_kind x = Gauge \<Longrightarrow> length ls = length (md_labels x) \<Longrightarrow> \<forall>s \<in> set ls. ok s \<Longrightarrow>
    runs regd (pm_set PM x ls v)"
  "x \<in> set (collectors platform_metrics) \<Longrightarrow> md_kind x = Histogram \<Longrightarrow> length ls = length (md_labels x) \<Longrightarrow> \<forall>s \<in> set ls. ok s \<Longrightarrow>
    runs regd (pm_observe PM x ls v)"
  unfolding runs_def by (meson incs decs sets observes subsetD)+

lemma runs_record:
  assumes "\<forall>s \<in> set (labels_of c). ok s"
  shows "runs regd (record_one PM platform_metrics c)"
proof -
  have fixed: "ok ''healthy''" "ok ''unhealthy''" "ok ''success''" "ok ''failure''" by (rule ascii, simp)+
  have member: "x \<in> set (collectors platform_metrics)" if "x \<in> {mt_invocations platform_metrics, mt_invocation_duration platform_metrics,
      mt_invocation_errors platform_metrics, mt_cold_start platform_metrics, mt_queue_latency platform_metrics,
      mt_worker_count platform_metrics, mt_worker_cpu platform_metrics, mt_worker_memory platform_metrics, mt_worker_tasks platform_metrics,
      mt_build_duration platform_metrics, mt_build_success platform_metrics, mt_build_failure platform_metrics,
      mt_auth_attempts platform_metrics, mt_http_duration platform_metrics, mt_http_total platform_metrics}" for x
    using that by (auto simp: collectors_def)
  show ?thesis
    using assms fixed ok_itoa
    by (cases c; simp only: record_one_unfold record_defs)
      (auto intro!: runs_bind runs_if runs_Some runs_steps member simp: shapes)
qed

end

section \<open>The worker gauges\<close>

text \<open>How far healthy reports outnumber the others.\<close>

fun balance :: "record_call list \<Rightarrow> int" where
  "balance [] = 0"
| "balance (WorkerUpdate w c me t h # cs) = (if h then 1 else - 1) + balance cs"
| "balance (_ # cs) = balance cs"

definition is_update :: "record_call \<Rightarrow> bool" where
  "is_update c = (case c of WorkerUpdate _ _ _ _ _ \<Rightarrow> True | _ \<Rightarrow> False)"

lemma f64_add_small: "\<bar>a + b\<bar> \<le> 2 ^ 53 \<Longrightarrow> f64_add (Fin (of_int a)) (Fin (of_int b)) = Fin (of_int (a + b))"
proof -
  assume "\<bar>a + b\<bar> \<le> 2 ^ 53"
  then have "f64_of_int (a + b) = Fin (of_int (a + b))" by simp
  then show ?thesis by (simp add: f64_of_int_def)
qed

lemma worker_gauges_differ:
  "mt_worker_cpu platform_metrics \<noteq> mt_worker_count platform_metrics"
  "mt_worker_memory platform_metrics \<noteq> mt_worker_count platform_metrics"
  "mt_worker_tasks platform_metrics \<noteq> mt_worker_count platform_metrics"
  by (simp_all add: platform_metrics_def gauge_def)

context prom_laws
begin

lemma update_worker_gauges:
  assumes R: "set (collectors platform_metrics) \<subseteq> regd m" and w: "ok wid"
    and u: "update_worker PM platform_metrics wid cpu mem tasks h m = Some m'"
  shows "regd m' = regd m" and "gval m' (mt_worker_count platform_metrics) =
     (if h then (gval m (mt_worker_count platform_metrics))
        (''healthy'' # [] := f64_add (gval m (mt_worker_count platform_metrics) [''healthy'']) (Fin 1),
         ''unhealthy'' # [] := f64_add (gval m (mt_worker_count platform_metrics) [''unhealthy'']) (Fin (- 1)))
      else (gval m (mt_worker_count platform_metrics))
        (''unhealthy'' # [] := f64_add (gval m (mt_worker_count platform_metrics) [''unhealthy'']) (Fin 1),
         ''healthy'' # [] := f64_add (gval m (mt_worker_count platform_metrics) [''healthy'']) (Fin (- 1))))"
proof -
  let ?M = platform_metrics
  let ?a = "if h then ''healthy'' else ''unhealthy''" and ?b = "if h then ''unhealthy'' else ''healthy''"
  have okl: "ok ?a" "ok ?b" by (rule ascii, simp)+
  have mem: "mt_worker_count ?M \<in> regd m" "mt_worker_cpu ?M \<in> regd m" "mt_worker_memory ?M \<in> regd m" "mt_worker_tasks ?M \<in> regd m"
    using R by (auto simp: collectors_def)
  obtain m1 where m1: "pm_inc PM (mt_worker_count ?M) [?a] m = Some m1" "regd m1 = regd m"
    "gval m1 (mt_worker_count ?M) = (gval m (mt_worker_count ?M))([?a] := f64_add (gval m (mt_worker_count ?M) [?a]) (Fin 1))"
    using incs[OF mem(1), of "[?a]"] okl by (auto simp: shapes)
  obtain m2 where m2: "pm_dec PM (mt_worker_count ?M) [?b] m1 = Some m2" "regd m2 = regd m"
    "gval m2 = (gval m1)(mt_worker_count ?M := (gval m1 (mt_worker_count ?M))([?b] := f64_add (gval m1 (mt_worker_count ?M) [?b]) (Fin (- 1))))"
    using decs[of "mt_worker_count ?M" m1 "[?b]"] okl mem(1) m1(2) by (auto simp: shapes)
  obtain m3 where m3: "pm_set PM (mt_worker_cpu ?M) [wid] cpu m2 = Some m3" "regd m3 = regd m"
    "gval m3 (mt_worker_count ?M) = gval m2 (mt_worker_count ?M)"
    using sets[of "mt_worker_cpu ?M" m2 "[wid]" cpu] w mem(2) m2(2) worker_gauges_differ by (auto simp: shapes)
  obtain m4 where m4: "pm_set PM (mt_worker_memory ?M) [wid] mem m3 = Some m4" "regd m4 = regd m"
    "gval m4 (mt_worker_count ?M) = gval m3 (mt_worker_count ?M)"
    using sets[of "mt_worker_memory ?M" m3 "[wid]" mem] w mem(3) m3(2) worker_gauges_differ by (auto simp: shapes)
  obtain m5 where m5: "pm_set PM (mt_worker_tasks ?M) [wid] (f64_of_int tasks) m4 = Some m5" "regd m5 = regd m"
    "gval m5 (mt_worker_count ?M) = gval m4 (mt_worker_count ?M)"
    using sets[of "mt_worker_tasks ?M" m4 "[wid]" "f64_of_int tasks"] w mem(4) m4(2) worker_gauges_differ by (auto simp: shapes)
  have "m' = m5" using u m1(1) m2(1) m3(1) m4(1) m5(1) by (cases h) (simp_all add: update_worker_def)
  then show "regd m' = regd m" and "gval m' (mt_worker_count platform_metrics) =
     (if h then (gval m (mt_worker_count platform_metrics))
        (''healthy'' # [] := f64_add (gval m (mt_worker_count platform_metrics) [''healthy'']) (Fin 1),
         ''unhealthy'' # [] := f64_add (gval m (mt_worker_count platform_metrics) [''unhealthy'']) (Fin (- 1)))
      else (gval m (mt_worker_count platform_metrics))
        (''unhealthy'' # [] := f64_add (gval m (mt_worker_count platform_metrics) [''unhealthy'']) (Fin 1),
         ''healthy'' # [] := f64_add (gval m (mt_worker_count platform_metrics) [''healthy'']) (Fin (- 1))))"
    using m1(3) m2(3) m3(3) m4(3) m5(2,3) by (simp_all add: fun_upd_def)
qed

end

context prom_laws
begin

lemma update_one_gauges:
  assumes R: "set (collectors platform_metrics) \<subseteq> regd m" and w: "ok wid"
    and u: "update_worker PM platform_metrics wid cpu mem tasks h m = Some m'"
    and v: "gval m (mt_worker_count platform_metrics) [''healthy''] = Fin (of_int b)"
      "gval m (mt_worker_count platform_metrics) [''unhealthy''] = Fin (of_int (- b))"
    and b: "\<bar>b\<bar> < 2 ^ 53"
  defines "b' \<equiv> b + (if h then 1 else - 1)"
  shows "gval m' (mt_worker_count platform_metrics) [''healthy''] = Fin (of_int b')"
    "gval m' (mt_worker_count platform_metrics) [''unhealthy''] = Fin (of_int (- b'))"
proof -
  have up: "f64_add (Fin (of_int x)) (Fin 1) = Fin (of_int (x + 1))" if "\<bar>x\<bar> < 2 ^ 53" for x
    using f64_add_small[of x 1] that by simp
  have down: "f64_add (Fin (of_int x)) (Fin (- 1)) = Fin (of_int (x - 1))" if "\<bar>x\<bar> < 2 ^ 53" for x
    using f64_add_small[of x "- 1"] that by simp
  have a: "\<bar>- b\<bar> < 2 ^ 53" using b by simp
  show "gval m' (mt_worker_count platform_metrics) [''healthy''] = Fin (of_int b')"
    unfolding update_worker_gauges(2)[OF R w u] b'_def
    by (cases h) (simp_all only: fun_upd_def if_True if_False v up[OF b] down[OF b], simp_all)
  show "gval m' (mt_worker_count platform_metrics) [''unhealthy''] = Fin (of_int (- b'))"
    unfolding update_worker_gauges(2)[OF R w u] b'_def
    by (cases h) (simp_all only: fun_upd_def if_True if_False v up[OF a] down[OF a], simp_all)
qed

lemma updates_balance:
  "set (collectors platform_metrics) \<subseteq> regd m \<Longrightarrow> \<forall>c \<in> set cs. is_update c \<and> (\<forall>s \<in> set (labels_of c). ok s) \<Longrightarrow>
   record_calls PM platform_metrics cs m = Some m' \<Longrightarrow>
   gval m (mt_worker_count platform_metrics) [''healthy''] = Fin (of_int b) \<Longrightarrow>
   gval m (mt_worker_count platform_metrics) [''unhealthy''] = Fin (of_int (- b)) \<Longrightarrow> \<bar>b\<bar> + int (length cs) \<le> 2 ^ 53 \<Longrightarrow>
   gval m' (mt_worker_count platform_metrics) [''healthy''] = Fin (of_int (b + balance cs)) \<and>
   gval m' (mt_worker_count platform_metrics) [''unhealthy''] = Fin (of_int (- (b + balance cs)))"
proof (induction cs arbitrary: m b)
  case (Cons c cs)
  obtain w cp me t h where c: "c = WorkerUpdate w cp me t h"
    using Cons.prems(2) by (cases c) (auto simp: is_update_def)
  have w: "ok w" using Cons.prems(2) c by simp
  obtain m1 where m1: "update_worker PM platform_metrics w cp me t h m = Some m1"
    "record_calls PM platform_metrics cs m1 = Some m'"
    using Cons.prems(3) c by (auto split: option.splits)
  have b: "\<bar>b\<bar> < 2 ^ 53" using Cons.prems(6) by simp
  note g = update_one_gauges[OF Cons.prems(1) w m1(1) Cons.prems(4,5) b]
  have r: "regd m1 = regd m" by (rule update_worker_gauges(1)[OF Cons.prems(1) w m1(1)])
  have "\<bar>b + (if h then 1 else - 1)\<bar> + int (length cs) \<le> 2 ^ 53" using Cons.prems(6) by auto
  from Cons.IH[OF _ _ m1(2) g this] Cons.prems(1,2) r show ?case by (simp add: c add.assoc)
qed simp

lemma records_run:
  "set (collectors platform_metrics) \<subseteq> regd m \<Longrightarrow> \<forall>c \<in> set cs. \<forall>s \<in> set (labels_of c). ok s \<Longrightarrow>
   \<exists>m'. record_calls PM platform_metrics cs m = Some m'"
proof (induction cs arbitrary: m)
  case (Cons c cs)
  have "\<forall>s \<in> set (labels_of c). ok s" using Cons.prems(2) by simp
  then obtain m1 where m1: "record_one PM platform_metrics c m = Some m1" "regd m1 = regd m"
    using runs_record Cons.prems(1) unfolding runs_def by blast
  then show ?case using Cons.IH[of m1] Cons.prems by simp
qed simp

end

section \<open>A reference client\<close>

record ref_registry =
  rg_known :: "mdesc list"
  rg_value :: "mdesc \<Rightarrow> string list \<Rightarrow> f64"

definition ref_with :: "(f64 \<Rightarrow> f64) \<Rightarrow> mdesc \<Rightarrow> string list \<Rightarrow> ref_registry \<Rightarrow> ref_registry option" where
  "ref_with f x ls m =
     (if x \<in> set (rg_known m) \<and> length ls = length (md_labels x)
      then Some (m\<lparr>rg_value := (rg_value m)(x := (rg_value m x)(ls := f (rg_value m x ls)))\<rparr>) else None)"

definition ref_prom :: "ref_registry prom" where
  "ref_prom = \<lparr>
     pm_register = (\<lambda>x m. if \<not> valid_desc x \<or> md_name x \<in> md_name ` set (rg_known m) then None
        else Some (m\<lparr>rg_known := x # rg_known m, rg_value := (rg_value m)(x := \<lambda>_. Fin 0)\<rparr>)),
     pm_inc = ref_with (\<lambda>v. f64_add v (Fin 1)), pm_dec = ref_with (\<lambda>v. f64_add v (Fin (- 1))),
     pm_set = (\<lambda>x ls v m. ref_with (\<lambda>_. v) x ls m), pm_observe = (\<lambda>x ls v m. ref_with (\<lambda>u. u) x ls m)\<rparr>"

interpretation ref_prom: prom_laws ref_prom "\<lambda>m. set (rg_known m)" rg_value "\<lambda>_. True"
  by unfold_locales (auto simp: ref_prom_def ref_with_def)

definition ref_registry0 :: ref_registry where
  "ref_registry0 = \<lparr>rg_known = [], rg_value = (\<lambda>_ _. Fin 0)\<rparr>"

section \<open>Properties\<close>

text \<open>
  C33. Recording never panics: on a new registry \<open>NewMetrics\<close> succeeds, since the sixteen
  collectors have well-formed names, labels and buckets and no two share a name, and afterwards every sequence of calls of the recording methods succeeds,
  since each passes as many label values as its collector has labels and calls only what its kind of
  collector offers.
\<close>

theorem metrics_never_panic:
  assumes "prom_laws PM regd gval ok" "regd m0 = {}" "\<forall>c \<in> set cs. \<forall>s \<in> set (labels_of c). ok s"
  shows "\<exists>M m1 m2. new_metrics PM m0 = Some (M, m1) \<and> record_calls PM M cs m1 = Some m2"
proof -
  obtain m1 where m1: "new_metrics PM m0 = Some (platform_metrics, m1)" "regd m1 = set (collectors platform_metrics)"
    by (rule prom_laws.new_metrics_ok[OF assms(1,2)])
  then obtain m2 where "record_calls PM platform_metrics cs m1 = Some m2"
    using prom_laws.records_run[OF assms(1) _ assms(3), of m1] by blast
  then show ?thesis using m1(1) by blast
qed

definition demo_calls :: "record_call list" where
  "demo_calls = [WorkerUpdate ''worker-7'' (Fin 0) (Fin 0) 0 True, WorkerUpdate ''worker-7'' (Fin 0) (Fin 0) 0 True,
     WorkerUpdate ''worker-7'' (Fin 0) (Fin 0) 1 True]"

theorem metrics_never_panic_witness:
  "\<exists>M m1 m2. new_metrics ref_prom ref_registry0 = Some (M, m1) \<and>
     record_calls ref_prom M (Invocation ''1'' ''FAILED'' 12 True ''oom'' # demo_calls) m1 = Some m2"
  by (rule metrics_never_panic[OF ref_prom.prom_laws_axioms]) (simp_all add: ref_registry0_def)

text \<open>
  C34. The two gauges of \<open>nimbusrun_worker_count\<close> do not count workers: after any reports, of however
  many workers, the gauge of the healthy ones is the number of healthy reports less the number of the
  others, and the gauge of the unhealthy ones is its negative.  One healthy worker that reports every
  five seconds raises the one and lowers the other without end.
\<close>

theorem worker_gauges_count_reports:
  assumes "prom_laws PM regd gval ok" "regd m0 = {}" "new_metrics PM m0 = Some (M, m1)"
    and "\<forall>c \<in> set cs. is_update c \<and> (\<forall>s \<in> set (labels_of c). ok s)" "length cs \<le> 2 ^ 53"
    and "record_calls PM M cs m1 = Some m2"
  shows "gval m2 (mt_worker_count M) [''healthy''] = Fin (of_int (balance cs)) \<and>
    gval m2 (mt_worker_count M) [''unhealthy''] = Fin (of_int (- balance cs))"
proof -
  obtain m' where m': "new_metrics PM m0 = Some (platform_metrics, m')" "regd m' = set (collectors platform_metrics)"
    "gval m' (mt_worker_count platform_metrics) = (\<lambda>_. Fin 0)"
    by (rule prom_laws.new_metrics_ok[OF assms(1,2)])
  then have e: "M = platform_metrics" "m1 = m'" using assms(3) by auto
  have "\<bar>0::int\<bar> + int (length cs) \<le> 2 ^ 53" using assms(5) by simp
  then show ?thesis
    using prom_laws.updates_balance[OF assms(1) _ assms(4), of m' m2 0] m'(2,3) assms(6) by (simp add: e)
qed

theorem worker_gauges_count_reports_witness:
  "\<exists>M m1 m2. new_metrics ref_prom ref_registry0 = Some (M, m1) \<and> record_calls ref_prom M demo_calls m1 = Some m2 \<and>
     rg_value m2 (mt_worker_count M) [''healthy''] = Fin 3 \<and> rg_value m2 (mt_worker_count M) [''unhealthy''] = Fin (- 3)"
proof -
  have r0: "set (rg_known ref_registry0) = {}" by (simp add: ref_registry0_def)
  obtain m1 where m1: "new_metrics ref_prom ref_registry0 = Some (platform_metrics, m1)" "set (rg_known m1) = set (collectors platform_metrics)"
    using ref_prom.new_metrics_ok[OF r0] by blast
  obtain m2 where m2: "record_calls ref_prom platform_metrics demo_calls m1 = Some m2"
    using ref_prom.records_run[of m1 demo_calls] m1(2) by auto
  have u: "\<forall>c \<in> set demo_calls. is_update c \<and> (\<forall>s \<in> set (labels_of c). True)" by (simp add: demo_calls_def is_update_def)
  have b: "balance demo_calls = 3" "length demo_calls = 3" by (simp_all add: demo_calls_def)
  have l: "length demo_calls \<le> 2 ^ 53" unfolding b(2) by simp
  from worker_gauges_count_reports[OF ref_prom.prom_laws_axioms r0 m1(1) u l m2]
  have "rg_value m2 (mt_worker_count platform_metrics) [''healthy''] = Fin 3"
    "rg_value m2 (mt_worker_count platform_metrics) [''unhealthy''] = Fin (- 3)"
    unfolding b(1) by simp_all
  then show ?thesis using m1(1) m2 by blast
qed

end
