(* ===== verification/Builder.thy ===== *)
theory Builder
  imports GoStd
begin

text \<open>
  \<open>internal/build/docker.go\<close>: building an image from a source archive.  The file system and the Docker
  daemon are parameters, the records \<open>build_fs\<close> and \<open>builder_docker\<close>; the tar writer and the walk over a
  directory belong to Go's standard library and are modelled as the code uses them.
\<close>

section \<open>Parameters\<close>

text \<open>What \<open>filepath.Walk\<close> passes to its function, in its order: the root first, then by name.\<close>

datatype walk_item =
    WalkErr string
  | WalkDir string
  | WalkFile string nat int

record 'w build_fs =
  fs_mkdir_temp :: "string \<Rightarrow> string \<Rightarrow> 'w \<Rightarrow> (string + string) \<times> 'w"
  fs_remove_all :: "string \<Rightarrow> 'w \<Rightarrow> 'w"
  fs_write_file :: "string \<Rightarrow> string \<Rightarrow> int \<Rightarrow> 'w \<Rightarrow> string option \<times> 'w"
  fs_walk :: "string \<Rightarrow> 'w \<Rightarrow> walk_item list"
  fs_read :: "string \<Rightarrow> 'w \<Rightarrow> string + string"

text \<open>An entry of a tar archive: its header and the bytes written for it.\<close>

record tar_entry =
  te_name :: string
  te_size :: nat
  te_mode :: int
  te_data :: string

record build_options =
  bo_tags :: "string list"
  bo_dockerfile :: string
  bo_remove :: bool
  bo_pull_parent :: bool

text \<open>\<open>bd_build\<close> yields the response, whose body is read as a whole by \<open>bd_read\<close>.\<close>

record ('b, 'k) builder_docker =
  bd_build :: "tar_entry list \<Rightarrow> build_options \<Rightarrow> 'k \<Rightarrow> (string + 'b) \<times> 'k"
  bd_read :: "'b \<Rightarrow> string + string"
  bd_push :: "string \<Rightarrow> 'k \<Rightarrow> string option \<times> 'k"
  bd_remove :: "string \<Rightarrow> bool \<Rightarrow> 'k \<Rightarrow> string option \<times> 'k"

section \<open>The builder\<close>

record builder =
  bu_registry :: string
  bu_work_dir :: string
  bu_timeout :: int

record build_result =
  br_image :: string
  br_logs :: string
  br_err :: "string option"

text \<open>\<open>docker\<close> is the result of creating the client.\<close>

definition new_builder :: "string option \<Rightarrow> string \<Rightarrow> string \<Rightarrow> int \<Rightarrow> string + builder" where
  "new_builder docker registry work_dir timeout =
     (case docker of
        Some e \<Rightarrow> Inl (''creating docker client: '' @ e)
      | None \<Rightarrow> Inr \<lparr>bu_registry = registry, bu_work_dir = work_dir, bu_timeout = timeout\<rparr>)"

definition build_failed :: "string \<Rightarrow> build_result" where
  "build_failed e = \<lparr>br_image = '''', br_logs = '''', br_err = Some e\<rparr>"

text \<open>\<open>extractZip\<close> is a stub: it reads nothing and writes nothing.\<close>

definition extract_zip :: "string \<Rightarrow> string \<Rightarrow> 'w \<Rightarrow> string option \<times> 'w" where
  "extract_zip src dest w = (None, w)"

definition newline :: string where "newline = [CHR 0x0A]"

definition generate_dockerfile :: "string \<Rightarrow> string" where
  "generate_dockerfile entrypoint =
     ''FROM python:3.12-slim'' @ newline @ ''WORKDIR /app'' @ newline @ ''COPY requirements.txt .'' @ newline @
     ''RUN pip install --no-cache-dir -r requirements.txt'' @ newline @ ''COPY . .'' @ newline @ ''USER 1000:1000'' @ newline @
     ''ENTRYPOINT ['' @ [CHR 0x22] @ ''python'' @ [CHR 0x22] @ '', '' @ [CHR 0x22] @ ''-m'' @ [CHR 0x22] @ '', '' @ [CHR 0x22] @
     entrypoint @ [CHR 0x22] @ '']'' @ newline"

text \<open>\<open>filepath.Rel\<close> of a path the walk of \<open>dir\<close> passes.\<close>

definition rel_path :: "string \<Rightarrow> string \<Rightarrow> string option" where
  "rel_path dir path =
     (if path = dir then Some ''.''
      else if has_prefix path (dir @ ''/'') then Some (drop (length dir + 1) path) else None)"

text \<open>
  The function \<open>Walk\<close> calls on each item.  \<open>WriteHeader\<close> fails when the entry before is not complete, and
  writing fails beyond the size of the header; the walk stops at the first error.
\<close>

definition tar_complete :: "tar_entry list \<Rightarrow> bool" where
  "tar_complete ts = (ts = [] \<or> length (te_data (last ts)) = te_size (last ts))"

fun add_items :: "'w build_fs \<Rightarrow> string \<Rightarrow> 'w \<Rightarrow> walk_item list \<Rightarrow> tar_entry list \<Rightarrow> string + tar_entry list" where
  "add_items FS dir w [] ts = Inr ts"
| "add_items FS dir w (WalkErr e # its) ts = Inl e"
| "add_items FS dir w (WalkDir p # its) ts = add_items FS dir w its ts"
| "add_items FS dir w (WalkFile p sz mode # its) ts =
     (case rel_path dir p of
        None \<Rightarrow> Inl ''Rel: can't make path relative''
      | Some rel \<Rightarrow>
          if \<not> tar_complete ts then Inl ''archive/tar: missed writing bytes''
          else (case fs_read FS p w of
                  Inl e \<Rightarrow> Inl e
                | Inr bytes \<Rightarrow>
                    if sz < length bytes then Inl ''archive/tar: write too long''
                    else add_items FS dir w its (ts @ [\<lparr>te_name = rel, te_size = sz, te_mode = mode, te_data = bytes\<rparr>])))"

definition create_build_context :: "'w build_fs \<Rightarrow> string \<Rightarrow> 'w \<Rightarrow> string + tar_entry list" where
  "create_build_context FS dir w = add_items FS dir w (fs_walk FS dir w) []"

text \<open>\<open>strings.Contains\<close>\<close>

fun contains :: "string \<Rightarrow> string \<Rightarrow> bool" where
  "contains [] sub = (sub = [])"
| "contains (c # cs) sub = (has_prefix (c # cs) sub \<or> contains cs sub)"

definition push_image :: "('b, 'k) builder_docker \<Rightarrow> string \<Rightarrow> 'k \<Rightarrow> string option \<times> 'k" where
  "push_image D tag k = bd_push D tag k"

definition build_cleanup :: "('b, 'k) builder_docker \<Rightarrow> string \<Rightarrow> 'k \<Rightarrow> string option \<times> 'k" where
  "build_cleanup D tag k = bd_remove D tag True k"

text \<open>\<open>BuildFromZip\<close> after the context is made, and as a whole; \<open>stamp\<close> is the formatted time.\<close>

definition build_image ::
  "('b, 'k) builder_docker \<Rightarrow> string \<Rightarrow> tar_entry list \<Rightarrow> 'k \<Rightarrow> build_result \<times> 'k" where
  "build_image D tag ctx k =
     (case bd_build D ctx \<lparr>bo_tags = [tag], bo_dockerfile = ''Dockerfile'', bo_remove = True, bo_pull_parent = True\<rparr> k of
        (Inl e, k1) \<Rightarrow> (build_failed (''building image: '' @ e), k1)
      | (Inr body, k1) \<Rightarrow>
          (case bd_read D body of
             Inl e \<Rightarrow> (build_failed (''reading build logs: '' @ e), k1)
           | Inr logs \<Rightarrow>
               if contains logs ''error'' then (\<lparr>br_image = '''', br_logs = logs, br_err = Some ''build failed''\<rparr>, k1)
               else (case push_image D tag k1 of
                       (Some e, k2) \<Rightarrow> (\<lparr>br_image = '''', br_logs = logs, br_err = Some (''pushing image: '' @ e)\<rparr>, k2)
                     | (None, k2) \<Rightarrow> (\<lparr>br_image = tag, br_logs = logs, br_err = None\<rparr>, k2))))"

definition build_in ::
  "builder \<Rightarrow> 'w build_fs \<Rightarrow> ('b, 'k) builder_docker \<Rightarrow> string \<Rightarrow> string \<Rightarrow> string \<Rightarrow> string \<Rightarrow> string \<Rightarrow> 'w \<times> 'k \<Rightarrow>
   build_result \<times> 'w \<times> 'k" where
  "build_in B FS D stamp fname src entrypoint dir = (\<lambda>(w, k).
     case extract_zip src dir w of
       (Some e, w1) \<Rightarrow> (build_failed (''extracting zip: '' @ e), w1, k)
     | (None, w1) \<Rightarrow>
         (case fs_write_file FS (dir @ ''/Dockerfile'') (generate_dockerfile entrypoint) 420 w1 of
            (Some e, w2) \<Rightarrow> (build_failed (''writing dockerfile: '' @ e), w2, k)
          | (None, w2) \<Rightarrow>
              (case create_build_context FS dir w2 of
                 Inl e \<Rightarrow> (build_failed (''creating build context: '' @ e), w2, k)
               | Inr ctx \<Rightarrow>
                   (let (res, k1) = build_image D (bu_registry B @ ''/'' @ fname @ '':'' @ stamp) ctx k in (res, w2, k1)))))"

definition build_from_zip ::
  "builder \<Rightarrow> 'w build_fs \<Rightarrow> ('b, 'k) builder_docker \<Rightarrow> string \<Rightarrow> string \<Rightarrow> string \<Rightarrow> string \<Rightarrow> 'w \<times> 'k \<Rightarrow>
   build_result \<times> 'w \<times> 'k" where
  "build_from_zip B FS D stamp fname src entrypoint = (\<lambda>(w, k).
     case fs_mkdir_temp FS (bu_work_dir B) ''nimbus-build-*'' w of
       (Inl e, w1) \<Rightarrow> (build_failed (''creating temp dir: '' @ e), w1, k)
     | (Inr dir, w1) \<Rightarrow>
         (let (res, w2, k1) = build_in B FS D stamp fname src entrypoint dir (w1, k)
          in (res, fs_remove_all FS dir w2, k1)))"

section \<open>What the build sees\<close>

text \<open>
  What the code relies on of the file system: a temporary directory is new and empty, and writing a file
  into an empty directory makes it the directory's only file.  Nothing is said of \<open>RemoveAll\<close>, which
  may fail: the code ignores its error.
\<close>

locale build_files =
  fixes FS :: "'w build_fs"
  assumes temp_empty: "fs_mkdir_temp FS base pat w = (Inr d, w') \<Longrightarrow> fs_walk FS d w' = [WalkDir d]"
    and write_only: "CHR ''/'' \<notin> set n \<Longrightarrow> fs_write_file FS (d @ ''/'' @ n) data m w = (None, w') \<Longrightarrow> fs_walk FS d w = [WalkDir d] \<Longrightarrow>
      (\<exists>mode. fs_walk FS d w' = [WalkDir d, WalkFile (d @ ''/'' @ n) (length data) mode]) \<and> fs_read FS (d @ ''/'' @ n) w' = Inr data"

text \<open>A context that is the generated Dockerfile and nothing else.\<close>

definition dockerfile_only :: "string \<Rightarrow> tar_entry list \<Rightarrow> bool" where
  "dockerfile_only entrypoint ctx \<longleftrightarrow> (\<exists>mode. ctx = [\<lparr>te_name = ''Dockerfile'', te_size = length (generate_dockerfile entrypoint),
     te_mode = mode, te_data = generate_dockerfile entrypoint\<rparr>])"

lemma rel_path_under: "rel_path d (d @ ''/'' @ n) = Some n"
  by (simp add: rel_path_def has_prefix_def)

context build_files
begin

lemma context_is_dockerfile:
  assumes "fs_mkdir_temp FS base pat w = (Inr d, w1)"
    and "fs_write_file FS (d @ ''/Dockerfile'') (generate_dockerfile ep) m w1 = (None, w2)"
    and "create_build_context FS d w2 = Inr ctx"
  shows "dockerfile_only ep ctx"
proof -
  have w: "fs_write_file FS (d @ ''/'' @ ''Dockerfile'') (generate_dockerfile ep) m w1 = (None, w2)" using assms(2) by simp
  obtain mode where walk: "fs_walk FS d w2 = [WalkDir d, WalkFile (d @ ''/'' @ ''Dockerfile'') (length (generate_dockerfile ep)) mode]"
    and data: "fs_read FS (d @ ''/'' @ ''Dockerfile'') w2 = Inr (generate_dockerfile ep)"
    using write_only[OF _ w temp_empty[OF assms(1)]] by auto
  show ?thesis
    using assms(3) unfolding create_build_context_def walk
    by (simp only: add_items.simps rel_path_under data option.case sum.case)
      (auto simp: tar_complete_def dockerfile_only_def)
qed

end

text \<open>A daemon that only looks at contexts holding the generated Dockerfile alone.\<close>

definition dockerfile_daemon :: "string \<Rightarrow> ('b, 'k) builder_docker \<Rightarrow> ('b, 'k) builder_docker" where
  "dockerfile_daemon ep D = D\<lparr>bd_build := (\<lambda>ctx opts k. if dockerfile_only ep ctx then bd_build D ctx opts k else (Inl ''refused'', k))\<rparr>"

lemma dockerfile_daemon_sel:
  "bd_read (dockerfile_daemon ep D) = bd_read D" "bd_push (dockerfile_daemon ep D) = bd_push D"
  by (simp_all add: dockerfile_daemon_def)

lemma build_image_guarded: "dockerfile_only ep ctx \<Longrightarrow> build_image (dockerfile_daemon ep D) tag ctx k = build_image D tag ctx k"
  unfolding build_image_def push_image_def dockerfile_daemon_sel by (simp add: dockerfile_daemon_def)

section \<open>Dockerfiles\<close>

text \<open>The lines of a text.\<close>

fun lines_of :: "string \<Rightarrow> string list" where
  "lines_of [] = [[]]"
| "lines_of (c # cs) = (if c = CHR 0x0A then [] # lines_of cs
     else (case lines_of cs of [] \<Rightarrow> [[c]] | l # ls \<Rightarrow> (c # l) # ls))"

text \<open>
  Dockerfiles the law below speaks of: no continuation, heredoc, variable or comment, and one stage.  The
  names it speaks of need no normalisation: a letter, then letters, digits, dots and underscores.
\<close>

definition plain_text :: "string \<Rightarrow> bool" where
  "plain_text s \<longleftrightarrow> (\<forall>c \<in> set s. c \<notin> {CHR 0x5C, CHR ''<'', CHR ''$'', CHR 0x60, CHR ''#'', CHR 0x0D})"

definition name_letters :: string where
  "name_letters = ''abcdefghijklmnopqrstuvwxyzABCDEFGHIJKLMNOPQRSTUVWXYZ''"

definition plain_name :: "string \<Rightarrow> bool" where
  "plain_name s \<longleftrightarrow> (case s of [] \<Rightarrow> False
     | c # cs \<Rightarrow> c \<in> set name_letters \<and> (\<forall>x \<in> set cs. x \<in> set (name_letters @ ''0123456789._'')))"

definition one_stage :: "string \<Rightarrow> bool" where
  "one_stage file \<longleftrightarrow> (case lines_of file of [] \<Rightarrow> False
     | l # ls \<Rightarrow> has_prefix l ''FROM '' \<and> (\<forall>x \<in> set ls. \<not> has_prefix x ''FROM ''))"

lemma lines_of_append: "lines_of (s @ CHR 0x0A # t) = lines_of s @ lines_of t"
proof (induction s)
  case (Cons c s)
  have "lines_of s \<noteq> []" for s by (induction s) (auto split: list.splits)
  then show ?case using Cons by (auto split: list.splits)
qed simp

lemma lines_of_line: "CHR 0x0A \<notin> set s \<Longrightarrow> lines_of s = [s]"
  by (induction s) auto

text \<open>The instructions of the generated file, for an entrypoint on one line.\<close>

definition entry_line :: "string \<Rightarrow> string" where
  "entry_line ep = ''ENTRYPOINT ['' @ [CHR 0x22] @ ''python'' @ [CHR 0x22] @ '', '' @ [CHR 0x22] @ ''-m'' @ [CHR 0x22] @ '', '' @ [CHR 0x22] @
     ep @ [CHR 0x22] @ '']''"

lemma dockerfile_by_lines:
  "generate_dockerfile ep = ''FROM python:3.12-slim'' @ CHR 0x0A # ''WORKDIR /app'' @ CHR 0x0A # ''COPY requirements.txt .'' @ CHR 0x0A #
     ''RUN pip install --no-cache-dir -r requirements.txt'' @ CHR 0x0A # ''COPY . .'' @ CHR 0x0A # ''USER 1000:1000'' @ CHR 0x0A #
     entry_line ep @ CHR 0x0A # []"
  by (simp add: generate_dockerfile_def newline_def entry_line_def)

lemma dockerfile_lines:
  assumes "CHR 0x0A \<notin> set ep"
  shows "lines_of (generate_dockerfile ep) =
    [''FROM python:3.12-slim'', ''WORKDIR /app'', ''COPY requirements.txt .'', ''RUN pip install --no-cache-dir -r requirements.txt'',
     ''COPY . .'', ''USER 1000:1000'', entry_line ep, '''']"
proof -
  have "lines_of (entry_line ep) = [entry_line ep]"
    by (rule lines_of_line) (use assms in \<open>simp add: entry_line_def\<close>)
  then show ?thesis unfolding dockerfile_by_lines lines_of_append by simp
qed

text \<open>
  What the code relies on of the daemon: a build whose Dockerfile, of the kind above, copies one file by
  its plain name, in a context of plain names that has no such file, reports an error in the response it
  streams, not in the status of the request.
\<close>

definition copies_missing :: "tar_entry list \<Rightarrow> build_options \<Rightarrow> bool" where
  "copies_missing ctx opts \<longleftrightarrow> list_all (\<lambda>t. plain_name (te_name t)) ctx \<and> distinct (map te_name ctx) \<and>
     (\<exists>t \<in> set ctx. te_name t = bo_dockerfile opts \<and> plain_text (te_data t) \<and> one_stage (te_data t) \<and>
       (\<exists>l \<in> set (lines_of (te_data t)). has_prefix l ''COPY '' \<and> has_prefix (rev l) ''. '' \<and>
          (let f = take (length l - 7) (drop 5 l) in plain_name f \<and> f \<notin> te_name ` set ctx)))"

lemma dockerfile_only_missing:
  assumes "dockerfile_only ep ctx" "plain_text ep" "CHR 0x0A \<notin> set ep" "bo_dockerfile opts = ''Dockerfile''"
  shows "copies_missing ctx opts"
proof -
  obtain mode where ctx: "ctx = [\<lparr>te_name = ''Dockerfile'', te_size = length (generate_dockerfile ep),
     te_mode = mode, te_data = generate_dockerfile ep\<rparr>]" using assms(1) by (auto simp: dockerfile_only_def)
  have "plain_text (generate_dockerfile ep)"
    using assms(2) by (auto simp: plain_text_def generate_dockerfile_def newline_def)
  moreover have "one_stage (generate_dockerfile ep)"
    by (simp add: one_stage_def dockerfile_lines[OF assms(3)] has_prefix_def entry_line_def)
  moreover have "''COPY requirements.txt .'' \<in> set (lines_of (generate_dockerfile ep))"
    by (simp add: dockerfile_lines[OF assms(3)])
  moreover have "plain_name ''Dockerfile''" "plain_name ''requirements.txt''" by code_simp+
  ultimately show ?thesis
    unfolding copies_missing_def ctx
    by (auto simp: assms(4) has_prefix_def intro!: bexI[of _ "''COPY requirements.txt .''"])
qed

locale docker_builds =
  fixes D :: "('b, 'k) builder_docker"
  assumes missing_reported: "copies_missing ctx opts \<Longrightarrow> bd_build D ctx opts k = (Inr body, k') \<Longrightarrow> bd_read D body = Inr logs \<Longrightarrow>
    contains logs ''error''"
begin

lemma build_image_fails:
  assumes "dockerfile_only ep ctx" "plain_text ep" "CHR 0x0A \<notin> set ep" "build_image D tag ctx k = (res, k')"
  shows "br_image res = '''' \<and> br_err res \<noteq> None \<and> build_image (D\<lparr>bd_push := p\<rparr>) tag ctx k = (res, k')"
proof -
  let ?o = "\<lparr>bo_tags = [tag], bo_dockerfile = ''Dockerfile'', bo_remove = True, bo_pull_parent = True\<rparr>"
  have "copies_missing ctx ?o" by (rule dockerfile_only_missing[OF assms(1-3)]) simp
  then have e: "contains logs ''error''" if "bd_build D ctx ?o k = (Inr body, k1)" "bd_read D body = Inr logs" for body k1 logs
    using missing_reported that by blast
  show ?thesis
    using assms(4) e by (auto simp: build_image_def build_failed_def split: prod.splits sum.splits if_splits)
qed

end

section \<open>A reference file system and daemon\<close>

text \<open>Directories with one file at most; a daemon that only checks what is copied.\<close>

definition build_dir :: "string \<Rightarrow> string" where
  "build_dir p = take (length p - 11) p"

definition ref_build_fs :: "(string \<Rightarrow> string option option) build_fs" where
  "ref_build_fs = \<lparr>
     fs_mkdir_temp = (\<lambda>base pat w. if w (base @ ''/t'') \<noteq> None then (Inl ''exists'', w)
       else (Inr (base @ ''/t''), w(base @ ''/t'' := Some None))),
     fs_remove_all = (\<lambda>d w. w(d := None)),
     fs_write_file = (\<lambda>p data m w. let d = build_dir p in
       if p = d @ ''/Dockerfile'' \<and> w d \<noteq> None then (None, w(d \<mapsto> Some data)) else (Some ''no such directory'', w)),
     fs_walk = (\<lambda>d w. case w d of None \<Rightarrow> [WalkErr ''no such directory''] | Some None \<Rightarrow> [WalkDir d]
       | Some (Some data) \<Rightarrow> [WalkDir d, WalkFile (d @ ''/Dockerfile'') (length data) 420]),
     fs_read = (\<lambda>p w. case w (build_dir p) of Some (Some data) \<Rightarrow> Inr data | _ \<Rightarrow> Inl ''no such file'')\<rparr>"

lemma split_last_slash:
  assumes "d @ ''/'' @ n = d' @ ''/'' @ n'" "CHR ''/'' \<notin> set n" "CHR ''/'' \<notin> set n'"
  shows "d = d' \<and> n = n'"
proof -
  have "takeWhile (\<lambda>c. c \<noteq> CHR ''/'') (rev m @ CHR ''/'' # rev e) = rev m" if "CHR ''/'' \<notin> set m" for e m
    using that by (subst takeWhile_append2) auto
  moreover have "rev n @ CHR ''/'' # rev d = rev n' @ CHR ''/'' # rev d'" using arg_cong[OF assms(1), of rev] by simp
  ultimately have "rev n = rev n'" using assms(2,3) by metis
  then show ?thesis using assms(1) by simp
qed

definition ref_builder_docker :: "(string, unit) builder_docker" where
  "ref_builder_docker = \<lparr>bd_build = (\<lambda>ctx opts k. (Inr (if copies_missing ctx opts then ''error: COPY failed'' else ''done''), k)),
     bd_read = Inr, bd_push = (\<lambda>tag k. (None, k)), bd_remove = (\<lambda>tag f k. (None, k))\<rparr>"

interpretation ref_builds: docker_builds ref_builder_docker
  by unfold_locales (auto simp: ref_builder_docker_def has_prefix_def)


lemma ref_write_Dockerfile:
  assumes "CHR ''/'' \<notin> set n" "fs_write_file ref_build_fs (d @ ''/'' @ n) data m w = (None, w')"
  shows "n = ''Dockerfile'' \<and> w' = w(d \<mapsto> Some data)"
proof -
  let ?p = "d @ ''/'' @ n" and ?d = "build_dir (d @ ''/'' @ n)"
  have "?p = ?d @ ''/Dockerfile''" and w': "w' = w(?d \<mapsto> Some data)"
    using assms(2) by (auto simp: ref_build_fs_def Let_def split: if_splits)
  then have "?p = ?d @ ''/'' @ ''Dockerfile''" by simp
  have "d = ?d \<and> n = ''Dockerfile''" by (rule split_last_slash[OF \<open>?p = ?d @ ''/'' @ ''Dockerfile''\<close> assms(1)]) simp
  then show ?thesis using w' by metis
qed

lemma build_dir_Dockerfile: "build_dir (d @ ''/Dockerfile'') = d"
  by (simp add: build_dir_def)

interpretation ref_build_files: build_files ref_build_fs
proof unfold_locales
  show "(\<exists>mode. fs_walk ref_build_fs d w' = [WalkDir d, WalkFile (d @ ''/'' @ n) (length data) mode]) \<and>
      fs_read ref_build_fs (d @ ''/'' @ n) w' = Inr data"
    if "CHR ''/'' \<notin> set n" "fs_write_file ref_build_fs (d @ ''/'' @ n) data m w = (None, w')" "fs_walk ref_build_fs d w = [WalkDir d]"
    for n d data m w w'
  proof -
    have n: "n = ''Dockerfile''" and w': "w' = w(d \<mapsto> Some data)" using ref_write_Dockerfile[OF that(1,2)] by auto
    show ?thesis unfolding w' n by (simp add: ref_build_fs_def build_dir_Dockerfile)
  qed
qed (auto simp: ref_build_fs_def Let_def split: if_splits)

section \<open>Properties\<close>

text \<open>
  The source archive does not matter to a build: with any archive it does exactly what it does with a
  daemon that refuses every context other than the generated Dockerfile alone.
\<close>

theorem build_never_sees_the_source:
  assumes "build_files FS"
  shows "build_from_zip B FS D stamp fname src ep s = build_from_zip B FS (dockerfile_daemon ep D) stamp fname src' ep s"
proof -
  obtain w k where s: "s = (w, k)" by (cases s)
  have "build_in B FS D stamp fname src ep d (w1, k) = build_in B FS (dockerfile_daemon ep D) stamp fname src' ep d (w1, k)"
    if "fs_mkdir_temp FS (bu_work_dir B) ''nimbus-build-*'' w = (Inr d, w1)" for d w1
    unfolding build_in_def extract_zip_def
    by (auto split: prod.splits option.splits sum.splits
        simp: build_image_guarded[OF build_files.context_is_dockerfile[OF assms that]])
  then show ?thesis by (simp add: build_from_zip_def s split: prod.split sum.split)
qed

lemma build_never_sees_the_source_witness:
  "build_from_zip \<lparr>bu_registry = ''r'', bu_work_dir = ''/w'', bu_timeout = 0\<rparr> ref_build_fs ref_builder_docker ''v1'' ''f'' ''a.zip'' ''app'' (Map.empty, ()) =
   build_from_zip \<lparr>bu_registry = ''r'', bu_work_dir = ''/w'', bu_timeout = 0\<rparr> ref_build_fs (dockerfile_daemon ''app'' ref_builder_docker) ''v1'' ''f'' ''b.zip'' ''app'' (Map.empty, ())"
  by (rule build_never_sees_the_source[OF ref_build_files.build_files_axioms])

text \<open>
  C18.  No build succeeds, whatever the source archive, since the Dockerfile copies a requirements file that
  is never in the context: the result is an error without an image, and nothing is pushed, so that the
  outcome is the same whatever a push would do.  The entrypoint is on one line and has no character that is
  special in a Dockerfile.
\<close>

theorem no_build_succeeds:
  assumes "build_files FS" "docker_builds D" "plain_text ep" "CHR 0x0A \<notin> set ep"
    and "build_from_zip B FS D stamp fname src ep (w, k) = (res, w', k')"
  shows "br_err res \<noteq> None \<and> br_image res = '''' \<and>
    build_from_zip B FS (D\<lparr>bd_push := p\<rparr>) stamp fname src ep (w, k) = (res, w', k')"
proof (cases "fs_mkdir_temp FS (bu_work_dir B) ''nimbus-build-*'' w")
  case (Pair r w1)
  show ?thesis
  proof (cases r)
    case (Inl e)
    then show ?thesis using assms(5) Pair by (auto simp: build_from_zip_def build_failed_def)
  next
    case (Inr d)
    note made = Pair[unfolded Inr]
    obtain res' w2 k2 where run: "build_in B FS D stamp fname src ep d (w1, k) = (res', w2, k2)"
      by (metis prod.collapse)
    have "br_err res' \<noteq> None \<and> br_image res' = '''' \<and>
        build_in B FS (D\<lparr>bd_push := p\<rparr>) stamp fname src ep d (w1, k) = (res', w2, k2)"
      using run unfolding build_in_def extract_zip_def
      by (auto simp: build_failed_def split: prod.splits option.splits sum.splits
          dest: docker_builds.build_image_fails[OF assms(2)
            build_files.context_is_dockerfile[OF assms(1) made] assms(3,4), where p = p])
    then show ?thesis using assms(5) made run by (auto simp: build_from_zip_def)
  qed
qed

lemma no_build_succeeds_witness:
  "\<exists>res w' k'. build_from_zip \<lparr>bu_registry = ''r'', bu_work_dir = ''/w'', bu_timeout = 0\<rparr> ref_build_fs ref_builder_docker ''v1'' ''f'' ''a.zip'' ''app''
     (Map.empty, ()) = (res, w', k') \<and> br_err res \<noteq> None \<and> br_image res = ''''"
proof -
  obtain res w' k' where run: "build_from_zip \<lparr>bu_registry = ''r'', bu_work_dir = ''/w'', bu_timeout = 0\<rparr> ref_build_fs ref_builder_docker
      ''v1'' ''f'' ''a.zip'' ''app'' (Map.empty, ()) = (res, w', k')"
    by (metis prod.collapse)
  have "plain_text ''app''" by (simp add: plain_text_def)
  from no_build_succeeds[OF ref_build_files.build_files_axioms ref_builds.docker_builds_axioms this _ run] run
  show ?thesis by auto
qed

end
