(* ===== verification/Routes.thy ===== *)
theory Routes
  imports Server
begin

text \<open>
  The routes of \<open>internal/http/server.go\<close>: \<open>api_routes\<close> is the table that \<open>SetupRoutes\<close> registers, in its
  order, and \<open>http_serve\<close> is the gateway seen from the network.  Gin's router is not part of the repository:
  it is a parameter, a function from the registered methods and patterns, a method and a path to what it
  does, and \<open>gin_laws\<close> is what it documents for paths whose segments are not empty; on other paths (an
  empty parameter, a trailing slash, where gin may match or redirect) nothing is said.  What
  \<open>ShouldBindJSON\<close> makes of a body is the parameter \<open>binders\<close>.
\<close>

section \<open>Messages\<close>

text \<open>A body is JSON text, identified with its value, or any other text.\<close>

datatype http_body = JsonBody json | TextBody string

record http_message =
  hm_method :: string
  hm_path :: string
  hm_query :: "(string \<times> string) list"
  hm_headers :: "(string \<times> string) list"
  hm_body :: "json option"

text \<open>Header names are compared without regard to case; an absent header or query parameter reads as empty.\<close>

fun header_value :: "string \<Rightarrow> (string \<times> string) list \<Rightarrow> string" where
  "header_value k [] = ''''"
| "header_value k ((n, v) # hs) = (if fold_key n = fold_key k then v else header_value k hs)"

definition query_value :: "string \<Rightarrow> http_message \<Rightarrow> string" where
  "query_value k q = (case map_of (hm_query q) k of None \<Rightarrow> '''' | Some v \<Rightarrow> v)"

record binders =
  bind_register :: "json option \<Rightarrow> string + string \<times> string"
  bind_login :: "json option \<Rightarrow> string + string \<times> string"
  bind_create :: "json option \<Rightarrow> string + create_input"

section \<open>Paths\<close>

text \<open>\<open>strings.Split\<close> at a character\<close>

fun split_on :: "char \<Rightarrow> string \<Rightarrow> string list" where
  "split_on c [] = [[]]"
| "split_on c (x # xs) = (if x = c then [] # split_on c xs
     else (case split_on c xs of [] \<Rightarrow> [[x]] | s # ss \<Rightarrow> (x # s) # ss))"

definition slash_path :: "string list \<Rightarrow> string" where
  "slash_path segs = concat (map ((#) (CHR ''/'')) segs)"

definition segment :: "string \<Rightarrow> bool" where
  "segment s \<longleftrightarrow> s \<noteq> '''' \<and> CHR ''/'' \<notin> set s"

section \<open>Gin's router\<close>

text \<open>The router hands a message to the \<open>i\<close>-th registered route, with its \<open>Param\<close> function, or replies itself.\<close>

datatype gin_answer = Dispatched nat "string \<Rightarrow> string" | RouterReply nat http_body

type_synonym gin_router = "(string \<times> string) list \<Rightarrow> string \<Rightarrow> string \<Rightarrow> gin_answer"

definition wildcard :: "string \<Rightarrow> bool" where
  "wildcard p \<longleftrightarrow> has_prefix p '':''"

definition pattern_segments :: "string \<Rightarrow> string list" where
  "pattern_segments pat = tl (split_on (CHR ''/'') pat)"

text \<open>A path fits a pattern segment by segment; \<open>:name\<close> stands for any segment and names its value.\<close>

fun fits :: "string list \<Rightarrow> string list \<Rightarrow> bool" where
  "fits [] [] = True"
| "fits (p # ps) (s # ss) = ((wildcard p \<or> p = s) \<and> fits ps ss)"
| "fits _ _ = False"

fun params :: "string list \<Rightarrow> string list \<Rightarrow> (string \<times> string) list" where
  "params (p # ps) (s # ss) = (if wildcard p then (tl p, s) # params ps ss else params ps ss)"
| "params _ _ = []"

text \<open>\<open>Context.Param\<close>, empty for a name the pattern does not have.\<close>

definition param_of :: "(string \<times> string) list \<Rightarrow> string \<Rightarrow> string" where
  "param_of kvs n = (case map_of kvs n of None \<Rightarrow> '''' | Some v \<Rightarrow> v)"

text \<open>
  Tables the laws speak of: patterns of whole segments without catch-alls and without a trailing slash,
  and no two of one method that are equal, or part at a parameter.
\<close>

definition pattern_ok :: "string \<Rightarrow> bool" where
  "pattern_ok pat \<longleftrightarrow> pattern_segments pat \<noteq> [] \<and> pat = slash_path (pattern_segments pat) \<and>
     (\<forall>p \<in> set (pattern_segments pat). segment p \<and> p \<noteq> '':'' \<and> CHR ''*'' \<notin> set p \<and> CHR '':'' \<notin> set (tl p))"

fun clash :: "string list \<Rightarrow> string list \<Rightarrow> bool" where
  "clash [] [] = True"
| "clash (p # ps) (q # qs) = (if p = q then clash ps qs else wildcard p \<or> wildcard q)"
| "clash _ _ = False"

definition registrable :: "(string \<times> string) list \<Rightarrow> bool" where
  "registrable tbl \<longleftrightarrow> list_all (\<lambda>(m, pat). pattern_ok pat) tbl \<and>
     sorted_wrt (\<lambda>(m, p) (m', p'). m = m' \<longrightarrow> \<not> clash (pattern_segments p) (pattern_segments p')) tbl"

definition fits_at :: "(string \<times> string) list \<Rightarrow> string \<Rightarrow> string list \<Rightarrow> nat \<Rightarrow> bool" where
  "fits_at tbl m segs i \<longleftrightarrow> i < length tbl \<and> fst (tbl ! i) = m \<and> fits (pattern_segments (snd (tbl ! i))) segs"

definition not_found :: "nat \<times> http_body" where
  "not_found = (404, TextBody ''404 page not found'')"

locale gin_laws =
  fixes R :: gin_router
  assumes matched: "registrable tbl \<Longrightarrow> segs \<noteq> [] \<Longrightarrow> list_all segment segs \<Longrightarrow> fits_at tbl m segs i \<Longrightarrow>
      (\<And>j. fits_at tbl m segs j \<Longrightarrow> j = i) \<Longrightarrow>
      R tbl m (slash_path segs) = Dispatched i (param_of (params (pattern_segments (snd (tbl ! i))) segs))"
    and unmatched: "registrable tbl \<Longrightarrow> segs \<noteq> [] \<Longrightarrow> list_all segment segs \<Longrightarrow>
      (\<And>i. \<not> fits_at tbl m segs i) \<Longrightarrow> R tbl m (slash_path segs) = RouterReply (fst not_found) (snd not_found)"

section \<open>The table\<close>

definition api_routes :: "binders \<Rightarrow> http_message \<Rightarrow> (string \<times> string \<times> ((string \<Rightarrow> string) \<Rightarrow> request)) list" where
  "api_routes B q = [
     (''GET'', ''/health'', \<lambda>_. Health),
     (''POST'', ''/auth/register'', \<lambda>_. Register (bind_register B (hm_body q))),
     (''POST'', ''/auth/login'', \<lambda>_. Login (bind_login B (hm_body q))),
     (''GET'', ''/functions'', \<lambda>_. ListFunctions),
     (''POST'', ''/functions'', \<lambda>_. CreateFunction (bind_create B (hm_body q))),
     (''GET'', ''/functions/:id'', \<lambda>p. GetFunction (p ''id'')),
     (''DELETE'', ''/functions/:id'', \<lambda>p. DeleteFunction (p ''id'')),
     (''POST'', ''/functions/:id/deploy'', \<lambda>p. Deploy (p ''id'')),
     (''GET'', ''/functions/:id/versions'', \<lambda>p. ListVersions (p ''id'')),
     (''POST'', ''/functions/:id/rollback/:version'', \<lambda>p. Rollback (p ''id'') (p ''version'')),
     (''GET'', ''/functions/:id/invocations'', \<lambda>p. ListInvocations (p ''id'') (query_value ''limit'' q)),
     (''POST'', ''/f/:id'', \<lambda>p. Invoke (p ''id'') (header_value ''Idempotency-Key'' (hm_headers q))),
     (''GET'', ''/f/:id/invocations/:inv_id/logs'', \<lambda>p. GetLogs (p ''id'') (p ''inv_id''))]"

definition route_table :: "binders \<Rightarrow> http_message \<Rightarrow> (string \<times> string) list" where
  "route_table B q = map (\<lambda>(m, pat, _). (m, pat)) (api_routes B q)"

definition route_of :: "gin_router \<Rightarrow> binders \<Rightarrow> http_message \<Rightarrow> nat \<times> http_body + request" where
  "route_of R B q =
     (case R (route_table B q) (hm_method q) (hm_path q) of
        RouterReply n b \<Rightarrow> Inl (n, b)
      | Dispatched i p \<Rightarrow> (case drop i (api_routes B q) of (_, _, mk) # _ \<Rightarrow> Inr (mk p) | [] \<Rightarrow> Inl not_found))"

definition reply_message :: "reply \<Rightarrow> nat \<times> http_body" where
  "reply_message rep = (case rep of Reply n j \<Rightarrow> (n, JsonBody j) | NoBody n \<Rightarrow> (n, TextBody '''') | Panicked \<Rightarrow> (500, TextBody ''''))"

definition http_serve :: "gin_router \<Rightarrow> binders \<Rightarrow> gateway \<Rightarrow> req_env \<Rightarrow> http_message \<Rightarrow> db \<Rightarrow> (nat \<times> http_body) \<times> db" where
  "http_serve R B G E q d =
     (case route_of R B q of
        Inl rep \<Rightarrow> (rep, d)
      | Inr r \<Rightarrow> (let (rep, d') = serve G (E\<lparr>rq_auth := header_value ''Authorization'' (hm_headers q)\<rparr>) r d
                  in (reply_message rep, d')))"

section \<open>Which message reaches which handler\<close>

text \<open>The method and the segments of the path of a request, and the path with these segments.\<close>

fun route_line :: "request \<Rightarrow> string \<times> string list" where
  "route_line Health = (''GET'', [''health''])"
| "route_line (Register _) = (''POST'', [''auth'', ''register''])"
| "route_line (Login _) = (''POST'', [''auth'', ''login''])"
| "route_line ListFunctions = (''GET'', [''functions''])"
| "route_line (CreateFunction _) = (''POST'', [''functions''])"
| "route_line (GetFunction f) = (''GET'', [''functions'', f])"
| "route_line (DeleteFunction f) = (''DELETE'', [''functions'', f])"
| "route_line (Deploy f) = (''POST'', [''functions'', f, ''deploy''])"
| "route_line (ListVersions f) = (''GET'', [''functions'', f, ''versions''])"
| "route_line (Rollback f v) = (''POST'', [''functions'', f, ''rollback'', v])"
| "route_line (ListInvocations f _) = (''GET'', [''functions'', f, ''invocations''])"
| "route_line (Invoke f _) = (''POST'', [''f'', f])"
| "route_line (GetLogs f i) = (''GET'', [''f'', f, ''invocations'', i, ''logs''])"

text \<open>What a request carries besides its path comes from the message.\<close>

definition carried :: "binders \<Rightarrow> http_message \<Rightarrow> request \<Rightarrow> bool" where
  "carried B q r = (case r of
      Register i \<Rightarrow> i = bind_register B (hm_body q)
    | Login i \<Rightarrow> i = bind_login B (hm_body q)
    | CreateFunction i \<Rightarrow> i = bind_create B (hm_body q)
    | ListInvocations _ l \<Rightarrow> l = query_value ''limit'' q
    | Invoke _ k \<Rightarrow> k = header_value ''Idempotency-Key'' (hm_headers q)
    | _ \<Rightarrow> True)"

lemma split_on_plain: "c \<notin> set s \<Longrightarrow> split_on c s = [s]"
  by (induction s) auto

lemma split_on_sep: "c \<notin> set s \<Longrightarrow> split_on c (s @ c # t) = s # split_on c t"
  by (induction s) auto

lemma split_slash_path:
  assumes "segs \<noteq> []" "\<forall>s \<in> set segs. CHR ''/'' \<notin> set s"
  shows "split_on (CHR ''/'') (slash_path segs) = [] # segs"
proof -
  have "split_on (CHR ''/'') (s @ slash_path ss) = s # ss" if "\<forall>x \<in> set (s # ss). CHR ''/'' \<notin> set x" for s ss
    using that
  proof (induction ss arbitrary: s)
    case Nil
    then show ?case by (simp add: slash_path_def split_on_plain)
  next
    case (Cons t ss)
    then show ?case using split_on_sep[of "CHR ''/''" s "t @ slash_path ss"] by (simp add: slash_path_def)
  qed
  from this[of "''''" segs] show ?thesis using assms(2) by simp
qed

lemma fits_iff [simp]:
  "fits [] segs \<longleftrightarrow> segs = []"
  "fits (p # ps) segs \<longleftrightarrow> (\<exists>s ss. segs = s # ss \<and> (wildcard p \<or> p = s) \<and> fits ps ss)"
  by (cases segs; simp)+

text \<open>The position of a request in the table, and what is registered there.\<close>

fun line_index :: "request \<Rightarrow> nat" where
  "line_index Health = 0"
| "line_index (Register _) = 1"
| "line_index (Login _) = 2"
| "line_index ListFunctions = 3"
| "line_index (CreateFunction _) = 4"
| "line_index (GetFunction _) = 5"
| "line_index (DeleteFunction _) = 6"
| "line_index (Deploy _) = 7"
| "line_index (ListVersions _) = 8"
| "line_index (Rollback _ _) = 9"
| "line_index (ListInvocations _ _) = 10"
| "line_index (Invoke _ _) = 11"
| "line_index (GetLogs _ _) = 12"

lemma table_registrable: "registrable (route_table B q)"
  unfolding route_table_def api_routes_def list.map prod.case by code_simp

text \<open>The table with its patterns in segments.\<close>

definition route_lines :: "(string \<times> string list) list" where
  "route_lines = [(''GET'', [''health'']), (''POST'', [''auth'', ''register'']), (''POST'', [''auth'', ''login'']),
     (''GET'', [''functions'']), (''POST'', [''functions'']), (''GET'', [''functions'', '':id'']),
     (''DELETE'', [''functions'', '':id'']), (''POST'', [''functions'', '':id'', ''deploy'']),
     (''GET'', [''functions'', '':id'', ''versions'']), (''POST'', [''functions'', '':id'', ''rollback'', '':version'']),
     (''GET'', [''functions'', '':id'', ''invocations'']), (''POST'', [''f'', '':id'']),
     (''GET'', [''f'', '':id'', ''invocations'', '':inv_id'', ''logs''])]"

lemma route_table_lines: "map (\<lambda>(m, pat). (m, pattern_segments pat)) (route_table B q) = route_lines"
  unfolding route_table_def api_routes_def list.map prod.case by code_simp

lemma route_lines_length: "length route_lines = 13"
  by (simp add: route_lines_def)

lemma table_length: "length (api_routes B q) = 13" "length (route_table B q) = 13"
  by (simp_all add: route_table_def api_routes_def)


lemma table_nth:
  assumes "i < 13"
  shows "fst (route_table B q ! i) = fst (route_lines ! i)" "pattern_segments (snd (route_table B q ! i)) = snd (route_lines ! i)"
  using assms by (simp_all add: route_table_lines[of B q, symmetric] table_length split: prod.split)

lemma fits_at_line:
  "fits_at (route_table B q) m segs i \<longleftrightarrow> i < 13 \<and> fst (route_lines ! i) = m \<and> fits (snd (route_lines ! i)) segs"
  by (auto simp: fits_at_def table_length table_nth)

text \<open>The request a route makes of a message.\<close>

definition made :: "binders \<Rightarrow> http_message \<Rightarrow> string list \<Rightarrow> nat \<Rightarrow> request" where
  "made B q segs i = snd (snd (api_routes B q ! i)) (param_of (params (snd (route_lines ! i)) segs))"

lemma index_cases:
  assumes "i < (13 :: nat)"
  obtains "i = 0" | "i = 1" | "i = 2" | "i = 3" | "i = 4" | "i = 5" | "i = 6" | "i = 7" | "i = 8" | "i = 9" | "i = 10" | "i = 11" | "i = 12"
proof -
  have "i = 0 \<or> i = 1 \<or> i = 2 \<or> i = 3 \<or> i = 4 \<or> i = 5 \<or> i = 6 \<or> i = 7 \<or> i = 8 \<or> i = 9 \<or> i = 10 \<or> i = 11 \<or> i = 12"
    using assms by presburger
  then show thesis using that by blast
qed

lemmas table_code = route_lines_def api_routes_def made_def param_of_def wildcard_def has_prefix_def

lemma fitting_request:
  assumes "i < 13" "fits (snd (route_lines ! i)) segs"
  shows "line_index (made B q segs i) = i \<and> route_line (made B q segs i) = (fst (route_lines ! i), segs) \<and>
    carried B q (made B q segs i)"
  by (rule index_cases[OF assms(1)]) (use assms(2) in \<open>auto simp: table_code carried_def\<close>)

lemma request_fits:
  "line_index r < 13 \<and> fst (route_lines ! line_index r) = fst (route_line r) \<and>
   fits (snd (route_lines ! line_index r)) (snd (route_line r)) \<and>
   (carried B q r \<longrightarrow> made B q (snd (route_line r)) (line_index r) = r)"
  by (cases r) (auto simp: table_code carried_def)

lemma same_line: "route_line r = route_line r' \<Longrightarrow> line_index r = line_index r'"
  by (cases r; cases r') auto

lemma fits_at_unique:
  assumes "fits_at (route_table B q) m segs j" "fits_at (route_table B q) m segs i"
  shows "j = i"
proof -
  have i: "i < 13" "fits (snd (route_lines ! i)) segs" "fst (route_lines ! i) = m"
    and j: "j < 13" "fits (snd (route_lines ! j)) segs" "fst (route_lines ! j) = m"
    using assms by (auto simp: fits_at_line)
  have "line_index (made B q segs j) = line_index (made B q segs i)"
    by (rule same_line) (simp add: fitting_request[OF i(1,2)] fitting_request[OF j(1,2)] i(3) j(3))
  then show ?thesis by (simp add: fitting_request[OF i(1,2)] fitting_request[OF j(1,2)])
qed

lemma route_of_dispatched:
  assumes d: "R (route_table B q) (hm_method q) (hm_path q) =
      Dispatched i (param_of (params (pattern_segments (snd (route_table B q ! i))) segs))" and i: "i < 13"
  shows "route_of R B q = Inr (made B q segs i)"
proof -
  obtain m pat mk where e: "api_routes B q ! i = (m, pat, mk)" using prod_cases3 by blast
  have "drop i (api_routes B q) = (m, pat, mk) # drop (Suc i) (api_routes B q)"
    using Cons_nth_drop_Suc[of i "api_routes B q"] e i by (simp add: table_length)
  then have "route_of R B q = Inr (mk (param_of (params (pattern_segments (snd (route_table B q ! i))) segs)))"
    by (simp add: route_of_def d)
  then show ?thesis by (simp add: made_def e table_nth(2)[OF i])
qed

context gin_laws
begin

lemma routed:
  assumes "segs \<noteq> []" "list_all segment segs" "hm_path q = slash_path segs"
  shows "(\<exists>i < 13. fst (route_lines ! i) = hm_method q \<and> fits (snd (route_lines ! i)) segs \<and> route_of R B q = Inr (made B q segs i)) \<or>
    (\<forall>i < 13. \<not> (fst (route_lines ! i) = hm_method q \<and> fits (snd (route_lines ! i)) segs)) \<and> route_of R B q = Inl not_found"
proof (cases "\<exists>i. fits_at (route_table B q) (hm_method q) segs i")
  case True
  then obtain i where i: "fits_at (route_table B q) (hm_method q) segs i" ..
  have u: "j = i" if "fits_at (route_table B q) (hm_method q) segs j" for j
    using that i by (rule fits_at_unique)
  have "R (route_table B q) (hm_method q) (hm_path q) =
      Dispatched i (param_of (params (pattern_segments (snd (route_table B q ! i))) segs))"
    unfolding assms(3) by (rule matched[OF table_registrable assms(1,2) i u])
  then have "route_of R B q = Inr (made B q segs i)"
    using i by (intro route_of_dispatched) (simp_all add: fits_at_line)
  then show ?thesis using i by (auto simp: fits_at_line)
next
  case False
  then show ?thesis
    using unmatched[OF table_registrable assms(1,2)] assms(3) by (auto simp: fits_at_line route_of_def)
qed

lemma route_of_Inr_iff:
  assumes "segs \<noteq> []" "list_all segment segs" "hm_path q = slash_path segs"
  shows "route_of R B q = Inr r \<longleftrightarrow> route_line r = (hm_method q, segs) \<and> carried B q r"
proof
  assume "route_of R B q = Inr r"
  then show "route_line r = (hm_method q, segs) \<and> carried B q r"
    using routed[OF assms, of B] fitting_request[of _ segs B q] by auto
next
  assume r: "route_line r = (hm_method q, segs) \<and> carried B q r"
  then have f: "line_index r < 13" "fst (route_lines ! line_index r) = hm_method q" "fits (snd (route_lines ! line_index r)) segs"
    "made B q segs (line_index r) = r"
    using request_fits[of r B q] by auto
  then obtain i where i: "i < 13" "fits (snd (route_lines ! i)) segs" "fst (route_lines ! i) = hm_method q"
    "route_of R B q = Inr (made B q segs i)"
    using routed[OF assms, of B] by auto
  have "line_index (made B q segs i) = line_index r"
    by (rule same_line) (use fitting_request[OF i(1,2), of B q] i(3) r in simp)
  then show "route_of R B q = Inr r" using i fitting_request[OF i(1,2), of B q] f(4) by simp
qed

lemma route_of_not_found:
  assumes "segs \<noteq> []" "list_all segment segs" "hm_path q = slash_path segs" "\<And>r. route_line r \<noteq> (hm_method q, segs)"
  shows "route_of R B q = Inl not_found"
  using routed[OF assms(1-3), of B] fitting_request[of _ segs B q] assms(4) by fastforce

end

section \<open>A reference router\<close>

text \<open>The first route in the table that fits.\<close>

definition ref_router :: gin_router where
  "ref_router tbl m path =
     (let segs = tl (split_on (CHR ''/'') path)
      in case filter (fits_at tbl m segs) [0..<length tbl] of
           [] \<Rightarrow> RouterReply (fst not_found) (snd not_found)
         | i # _ \<Rightarrow> Dispatched i (param_of (params (pattern_segments (snd (tbl ! i))) segs)))"

lemma segments_of_path: "segs \<noteq> [] \<Longrightarrow> list_all segment segs \<Longrightarrow> tl (split_on (CHR ''/'') (slash_path segs)) = segs"
  by (subst split_slash_path) (auto simp: list_all_iff segment_def)

interpretation ref_router: gin_laws ref_router
proof
  fix tbl :: "(string \<times> string) list" and segs m and i :: nat
  assume s: "segs \<noteq> []" "list_all segment segs" and i: "fits_at tbl m segs i" and u: "\<And>j. fits_at tbl m segs j \<Longrightarrow> j = i"
  have "set (filter (fits_at tbl m segs) [0..<length tbl]) = {j. fits_at tbl m segs j}" by (auto simp: fits_at_def)
  also have "\<dots> = {i}" using i u by blast
  finally have "set (filter (fits_at tbl m segs) [0..<length tbl]) = {i}" .
  then obtain js where "filter (fits_at tbl m segs) [0..<length tbl] = i # js"
    by (cases "filter (fits_at tbl m segs) [0..<length tbl]") auto
  then show "ref_router tbl m (slash_path segs) = Dispatched i (param_of (params (pattern_segments (snd (tbl ! i))) segs))"
    by (simp add: ref_router_def segments_of_path[OF s])
next
  fix tbl :: "(string \<times> string) list" and segs m
  assume s: "segs \<noteq> []" "list_all segment segs" and "\<And>i. \<not> fits_at tbl m segs i"
  then show "ref_router tbl m (slash_path segs) = RouterReply (fst not_found) (snd not_found)"
    by (simp add: ref_router_def segments_of_path[OF s])
qed

section \<open>Properties\<close>


definition demo_message :: http_message where
  "demo_message = \<lparr>hm_method = ''POST'', hm_path = ''/functions/1/rollback/2'', hm_query = [], hm_headers = [], hm_body = None\<rparr>"


end
