(* ===== verification/Cli.thy ===== *)
theory Cli
  imports Routes Gateway
begin

text \<open>
  The command-line client, \<open>cmd/cli/main.go\<close>, and what it can do to a gateway.  A command is what cobra
  makes of the arguments; the network and the files are the parameter \<open>machine\<close>, whose world is \<open>'w\<close>.  The
  bodies of replies are printed as they came.
\<close>

section \<open>The client\<close>

record cli_flags =
  cf_api :: string
  cf_key :: string
  cf_bearer :: string

datatype cli_command =
    CliLogin string string
  | CliDeploy string string
  | CliInvoke "string list" string
  | CliLogs "string list" int
  | CliRollback "string list"
  | CliWorkers
  | CliDlq

record http_req =
  hq_method :: string
  hq_url :: string
  hq_headers :: "(string \<times> string) list"
  hq_body :: "json option"

text \<open>
  \<open>mc_url_ok\<close>: \<open>http.NewRequest\<close> accepts the address; the code ignores its error and then uses the nil
  request.  \<open>mc_do\<close> is \<open>http.DefaultClient.Do\<close> with the reading of the body.
\<close>

record 'w machine =
  mc_url_ok :: "string \<Rightarrow> bool"
  mc_do :: "http_req \<Rightarrow> 'w \<Rightarrow> (string + nat \<times> http_body) \<times> 'w"
  mc_read :: "string \<Rightarrow> 'w \<Rightarrow> string + string"
  mc_write :: "string \<Rightarrow> string \<Rightarrow> 'w \<Rightarrow> 'w"

datatype cli_line = Line string | Body http_body

text \<open>\<open>Failed\<close> is an error \<open>main\<close> prints, \<open>NilRequest\<close> the panic on a nil request.\<close>

datatype cli_result = Printed "cli_line list" | Failed "cli_line list" | NilRequest

definition api_headers :: "cli_flags \<Rightarrow> (string \<times> string) list" where
  "api_headers F =
     (if cf_bearer F \<noteq> '''' then [(''Authorization'', ''Bearer '' @ cf_bearer F)]
      else if cf_key F \<noteq> '''' then [(''X-API-Key'', cf_key F)] else [])"

definition bearer_headers :: "cli_flags \<Rightarrow> (string \<times> string) list" where
  "bearer_headers F = (if cf_bearer F \<noteq> '''' then [(''Authorization'', ''Bearer '' @ cf_bearer F)] else [])"

definition send :: "'w machine \<Rightarrow> http_req \<Rightarrow> (nat \<Rightarrow> http_body \<Rightarrow> 'w \<Rightarrow> cli_result \<times> 'w) \<Rightarrow> 'w \<Rightarrow> cli_result \<times> 'w" where
  "send M q k w =
     (if mc_url_ok M (hq_url q)
      then (case mc_do M q w of (Inl e, w') \<Rightarrow> (Failed [Line e], w') | (Inr (n, b), w') \<Rightarrow> k n b w')
      else (NilRequest, w))"

text \<open>A string field of a struct after \<open>json.Unmarshal\<close>, whose error is ignored: values of other types are skipped.\<close>

fun kept_field :: "string \<Rightarrow> (string \<times> json) list \<Rightarrow> string \<Rightarrow> string" where
  "kept_field tag [] cur = cur"
| "kept_field tag ((k, v) # kvs) cur =
     kept_field tag kvs (if fold_key k = fold_key tag then (case v of JStr s \<Rightarrow> s | _ \<Rightarrow> cur) else cur)"

definition login_field :: "string \<Rightarrow> http_body \<Rightarrow> string" where
  "login_field tag b = (case b of JsonBody (JObj kvs) \<Rightarrow> kept_field tag kvs '''' | _ \<Rightarrow> '''')"

definition cli_login :: "'w machine \<Rightarrow> cli_flags \<Rightarrow> string \<Rightarrow> string \<Rightarrow> 'w \<Rightarrow> cli_result \<times> 'w" where
  "cli_login M F email password =
     send M \<lparr>hq_method = ''POST'', hq_url = cf_api F @ ''/auth/login'', hq_headers = [(''Content-Type'', ''application/json'')],
             hq_body = Some (JObj [(''email'', JStr email), (''password'', JStr password)])\<rparr>
       (\<lambda>n b w. if n \<noteq> 200 then (Failed [Line ''login failed: '', Body b], w)
         else (Printed [Line ''Login successful. Credentials saved to .nimbus''],
               mc_write M ''.nimbus''
                 (''api_key='' @ login_field ''api_key'' b @ [CHR 0x0A] @ ''bearer='' @ login_field ''access_token'' b @ [CHR 0x0A]) w))"

definition cli_deploy :: "'w machine \<Rightarrow> string \<Rightarrow> string \<Rightarrow> 'w \<Rightarrow> cli_result \<times> 'w" where
  "cli_deploy M name path w =
     (case mc_read M path w of
        Inl e \<Rightarrow> (Failed [Line (''reading zip: '' @ e)], w)
      | Inr bytes \<Rightarrow>
          (Printed [Line (''Deploying function '' @ [CHR 0x27] @ name @ [CHR 0x27] @ '' from '' @ path @ '' ('' @
                          itoa (int (length bytes)) @ '' bytes)''),
                    Line ''Uploading source...'',
                    Line (''Deploy initiated. Run '' @ [CHR 0x27] @ ''nimbus logs'' @ [CHR 0x27] @ '' to see build status.'')], w))"

definition print_body :: "nat \<Rightarrow> http_body \<Rightarrow> 'w \<Rightarrow> cli_result \<times> 'w" where
  "print_body n b w = (Printed [Body b], w)"

definition cli_invoke :: "'w machine \<Rightarrow> cli_flags \<Rightarrow> string \<Rightarrow> string \<Rightarrow> 'w \<Rightarrow> cli_result \<times> 'w" where
  "cli_invoke M F name payload =
     send M \<lparr>hq_method = ''POST'', hq_url = cf_api F @ ''/f/'' @ name,
             hq_headers = (''Content-Type'', ''application/json'') # api_headers F,
             hq_body = Some (JObj [(''payload'', JStr payload)])\<rparr> print_body"

definition cli_logs :: "string \<Rightarrow> int \<Rightarrow> 'w \<Rightarrow> cli_result \<times> 'w" where
  "cli_logs name tail w =
     (Printed [Line (''Fetching last '' @ itoa tail @ '' log lines for function '' @ [CHR 0x27] @ name @ [CHR 0x27] @ ''...''),
               Line ''(logs endpoint would be called here)''], w)"

definition cli_rollback :: "'w machine \<Rightarrow> cli_flags \<Rightarrow> string \<Rightarrow> string \<Rightarrow> 'w \<Rightarrow> cli_result \<times> 'w" where
  "cli_rollback M F name version =
     send M \<lparr>hq_method = ''POST'', hq_url = cf_api F @ ''/functions/'' @ name @ ''/rollback/'' @ version,
             hq_headers = api_headers F, hq_body = None\<rparr> print_body"

definition cli_workers :: "'w machine \<Rightarrow> cli_flags \<Rightarrow> 'w \<Rightarrow> cli_result \<times> 'w" where
  "cli_workers M F =
     send M \<lparr>hq_method = ''GET'', hq_url = cf_api F @ ''/workers'', hq_headers = bearer_headers F, hq_body = None\<rparr> print_body"

definition cli_dlq :: "'w machine \<Rightarrow> cli_flags \<Rightarrow> 'w \<Rightarrow> cli_result \<times> 'w" where
  "cli_dlq M F =
     send M \<lparr>hq_method = ''GET'', hq_url = cf_api F @ ''/dlq'', hq_headers = bearer_headers F, hq_body = None\<rparr> print_body"

text \<open>\<open>cobra.MinimumNArgs(1)\<close> and \<open>cobra.ExactArgs(2)\<close> stand before the commands that take arguments.\<close>

definition min_args :: "string list \<Rightarrow> (string \<Rightarrow> 'w \<Rightarrow> cli_result \<times> 'w) \<Rightarrow> 'w \<Rightarrow> cli_result \<times> 'w" where
  "min_args as run w = (case as of a # _ \<Rightarrow> run a w
     | [] \<Rightarrow> (Failed [Line ''requires at least 1 arg(s), only received 0''], w))"

definition two_args :: "string list \<Rightarrow> (string \<Rightarrow> string \<Rightarrow> 'w \<Rightarrow> cli_result \<times> 'w) \<Rightarrow> 'w \<Rightarrow> cli_result \<times> 'w" where
  "two_args as run w = (case as of [a, b] \<Rightarrow> run a b w
     | _ \<Rightarrow> (Failed [Line (''accepts 2 arg(s), received '' @ itoa (int (length as)))], w))"

fun cli_run :: "'w machine \<Rightarrow> cli_flags \<Rightarrow> cli_command \<Rightarrow> 'w \<Rightarrow> cli_result \<times> 'w" where
  "cli_run M F (CliLogin email password) = cli_login M F email password"
| "cli_run M F (CliDeploy name path) = cli_deploy M name path"
| "cli_run M F (CliInvoke as payload) = min_args as (\<lambda>a. cli_invoke M F a payload)"
| "cli_run M F (CliLogs as tail) = min_args as (\<lambda>a. cli_logs a tail)"
| "cli_run M F (CliRollback as) = two_args as (cli_rollback M F)"
| "cli_run M F CliWorkers = cli_workers M F"
| "cli_run M F CliDlq = cli_dlq M F"

text \<open>The status the process exits with.\<close>

definition cli_exit :: "cli_result \<Rightarrow> nat" where
  "cli_exit r = (case r of Printed _ \<Rightarrow> 0 | Failed _ \<Rightarrow> 1 | NilRequest \<Rightarrow> 2)"

text \<open>Several runs, one after the other, each with its own flags.\<close>

fun cli_session :: "'w machine \<Rightarrow> (cli_flags \<times> cli_command) list \<Rightarrow> 'w \<Rightarrow> 'w" where
  "cli_session M [] w = w"
| "cli_session M ((F, c) # cs) w = cli_session M cs (snd (cli_run M F c w))"

section \<open>The client and the gateway\<close>

text \<open>Names that need no escaping in an address.\<close>

definition plain_chars :: string where
  "plain_chars = ''abcdefghijklmnopqrstuvwxyzABCDEFGHIJKLMNOPQRSTUVWXYZ0123456789-''"

definition plain :: "string \<Rightarrow> bool" where
  "plain s \<longleftrightarrow> s \<noteq> '''' \<and> (\<forall>c \<in> set s. c \<in> set plain_chars)"

lemma slash_not_plain: "CHR ''/'' \<notin> set plain_chars"
  by (simp add: plain_chars_def)

lemma plain_segment: "plain s \<Longrightarrow> segment s"
  unfolding plain_def segment_def using slash_not_plain by blast

text \<open>What the gateway gets of a request sent to one of its paths.\<close>

definition arriving :: "http_req \<Rightarrow> string list \<Rightarrow> http_message" where
  "arriving q segs = \<lparr>hm_method = hq_method q, hm_path = slash_path segs, hm_query = [], hm_headers = hq_headers q,
     hm_body = hq_body q\<rparr>"

text \<open>One request without an \<open>Authorization\<close> header.\<close>

definition tokenless :: "gateway \<Rightarrow> db \<Rightarrow> db \<Rightarrow> bool" where
  "tokenless G d d' \<longleftrightarrow> (\<exists>E r rep. rq_auth E = '''' \<and> serve G E r d = (rep, d'))"

text \<open>
  What the client relies on of the network between it and the gateway at \<open>base\<close>: the reply to a request for
  a plain path is the gateway's, and a request without an \<open>Authorization\<close> header, whatever its address
  and however it is redirected or repeated, reaches the gateway without one, if at all.
\<close>

locale gateway_network =
  fixes M :: "'w machine" and R :: gin_router and B :: binders and G :: gateway and store :: "'w \<Rightarrow> db" and base :: string
  assumes url_ok: "segs \<noteq> [] \<Longrightarrow> list_all plain segs \<Longrightarrow> mc_url_ok M (base @ slash_path segs)"
    and answered: "segs \<noteq> [] \<Longrightarrow> list_all plain segs \<Longrightarrow> hq_url q = base @ slash_path segs \<Longrightarrow>
      mc_do M q w = (Inr rep, w') \<Longrightarrow> \<exists>E. http_serve R B G E (arriving q segs) (store w) = (rep, store w')"
    and no_token: "header_value ''Authorization'' (hq_headers q) = '''' \<Longrightarrow> mc_do M q w = (res, w') \<Longrightarrow>
      (tokenless G)\<^sup>*\<^sup>* (store w) (store w')"
    and files: "store (mc_write M p s w) = store w"

text \<open>Without a token no function and no version can be touched.\<close>

definition functions_kept :: "db \<Rightarrow> db \<Rightarrow> bool" where
  "functions_kept d d' \<longleftrightarrow> db_functions d' = db_functions d \<and> db_versions d' = db_versions d"

lemma functions_kept_refl: "functions_kept d d"
  by (simp add: functions_kept_def)

lemma functions_kept_trans: "functions_kept a b \<Longrightarrow> functions_kept b c \<Longrightarrow> functions_kept a c"
  by (simp add: functions_kept_def)

lemma auth_middleware_empty: "auth_middleware C X S '''' = Inl (Reply 401 (err_json ''missing authorization header''))"
  by (simp add: auth_middleware_def)

lemma functions_kept_exec:
  assumes "pg_exec P st d = (r, d')" "\<And>now e e'. st now e = Inr e' \<Longrightarrow> functions_kept e e'"
  shows "functions_kept d d'"
  using assms(1)
proof (cases rule: pg_exec_cases)
  case 2
  from assms(2)[OF 2] show ?thesis by (simp add: functions_kept_def)
qed (simp add: functions_kept_def)

lemma functions_kept_user: "sql_insert_user uid e h k now d = Inr d' \<Longrightarrow> functions_kept d d'"
  by (auto simp: sql_insert_user_def functions_kept_def Let_def split: if_splits)

lemma functions_kept_invocation: "sql_insert_invocation i now d = Inr d' \<Longrightarrow> functions_kept d d'"
  by (auto simp: sql_insert_invocation_def functions_kept_def Let_def split: if_splits)

lemma functions_kept_invoke: "invoke_write P X f v key n d = (rep, d') \<Longrightarrow> functions_kept d d'"
  by (auto simp: invoke_write_def inv_create_def Let_def split: prod.splits sum.splits
      elim!: functions_kept_exec intro: functions_kept_invocation)

lemma tokenless_functions_kept: "tokenless G d d' \<Longrightarrow> functions_kept d d'"
proof -
  assume "tokenless G d d'"
  then obtain E r rep where e: "rq_auth E = ''''" and s: "serve G E r d = (rep, d')" by (auto simp: tokenless_def)
  show ?thesis
  proof (cases "protected_route r")
    case True
    then show ?thesis using s by (simp add: serve_def recovery_def e auth_middleware_empty functions_kept_def)
  next
    case False
    obtain rep' where h: "route_handler G E None r d = (rep', d')"
      using s False by (auto simp: serve_def recovery_def split: prod.splits reply.splits)
    from h False show ?thesis
    proof (cases r)
      case (Register i)
      then show ?thesis using h
        by (auto simp: route_handler_def ah_register_def Let_def functions_kept_refl split: sum.splits prod.splits
            elim!: functions_kept_exec intro: functions_kept_user)
    next
      case (Login i)
      then show ?thesis using h
        by (auto simp: route_handler_def ah_login_def Let_def functions_kept_def split: sum.splits prod.splits option.splits
            dest!: pg_query_row_tables)
    next
      case (Invoke f k)
      then have "ih_invoke (gw_pg G) (gw_ext G) f k (rq_new_id E) d = (rep', d')"
        using h by (simp add: route_handler_def Let_def)
      then obtain x d1 where rd: "invoke_read (gw_pg G) (gw_ext G) f k d = (x, d1)"
        and wr: "(\<exists>p. x = Inl p \<and> d' = d1) \<or> (\<exists>fv. x = Inr fv \<and>
          invoke_write (gw_pg G) (gw_ext G) (fst fv) (snd fv) k (rq_new_id E) d1 = (rep', d'))"
        by (auto simp: ih_invoke_def split: prod.splits sum.splits)
      obtain m where "d1 = d\<lparr>db_calls := m\<rparr>" using invoke_read_calls[OF rd] .
      then have "functions_kept d d1" by (simp add: functions_kept_def)
      moreover have "functions_kept d1 d'"
        using wr by (auto simp: functions_kept_refl dest: functions_kept_invoke)
      ultimately show ?thesis by (rule functions_kept_trans)
    qed (auto simp: protected_route_def route_handler_def Let_def ih_get_logs_def functions_kept_refl)
  qed
qed

lemma tokenless_run_functions_kept: "(tokenless G)\<^sup>*\<^sup>* d d' \<Longrightarrow> functions_kept d d'"
  by (induction rule: rtranclp_induct) (auto intro: functions_kept_refl functions_kept_trans tokenless_functions_kept)

lemma api_headers_no_token: "cf_bearer F = '''' \<Longrightarrow> header_value ''Authorization'' (api_headers F) = ''''"
  by (simp add: api_headers_def fold_key_def to_lower_def)

lemma bearer_headers_no_token: "cf_bearer F = '''' \<Longrightarrow> bearer_headers F = []"
  by (simp add: bearer_headers_def)

lemma other_header: "fold_key ''Content-Type'' \<noteq> fold_key ''Authorization''"
  by (simp add: fold_key_def to_lower_def)

context gateway_network
begin

lemma send_no_token:
  assumes "send M q k w = (res, w')" "header_value ''Authorization'' (hq_headers q) = ''''"
    and "\<And>n b u res' u'. k n b u = (res', u') \<Longrightarrow> store u' = store u"
  shows "(tokenless G)\<^sup>*\<^sup>* (store w) (store w')"
  using assms(1) no_token[OF assms(2)]
  by (auto simp: send_def split: if_splits prod.splits sum.splits dest!: assms(3))

lemma run_no_token:
  assumes "cli_run M F c w = (res, w')" "cf_bearer F = ''''"
  shows "(tokenless G)\<^sup>*\<^sup>* (store w) (store w')"
proof (cases c)
  case (CliLogin e p)
  then show ?thesis using assms(1)
    by (auto simp: cli_login_def files other_header elim!: send_no_token split: if_splits)
next
  case (CliInvoke as p)
  then show ?thesis using assms
    by (auto simp: min_args_def cli_invoke_def print_body_def other_header api_headers_no_token
        elim!: send_no_token split: list.splits)
next
  case (CliRollback as)
  then show ?thesis using assms
    by (auto simp: two_args_def cli_rollback_def print_body_def api_headers_no_token elim!: send_no_token split: list.splits)
qed (use assms in \<open>auto simp: cli_deploy_def cli_logs_def cli_workers_def cli_dlq_def min_args_def print_body_def
      bearer_headers_no_token elim!: send_no_token split: list.splits sum.splits\<close>)

lemma session_no_token:
  "\<forall>(F, c) \<in> set cs. cf_bearer F = '''' \<Longrightarrow> (tokenless G)\<^sup>*\<^sup>* (store w) (store (cli_session M cs w))"
proof (induction cs arbitrary: w)
  case (Cons fc cs)
  obtain F c where fc: "fc = (F, c)" by fastforce
  have "(tokenless G)\<^sup>*\<^sup>* (store w) (store (snd (cli_run M F c w)))"
    by (rule run_no_token[of F c _ "fst (cli_run M F c w)"]) (use Cons.prems fc in auto)
  also have "(tokenless G)\<^sup>*\<^sup>* (store (snd (cli_run M F c w))) (store (cli_session M (fc # cs) w))"
    using Cons.IH[of "snd (cli_run M F c w)"] Cons.prems by (simp add: fc)
  finally show ?case .
qed simp

lemma send_answered:
  assumes "segs \<noteq> []" "list_all plain segs" "hq_url q = base @ slash_path segs" "send M q print_body w = (res, w')"
  shows "(\<exists>e. res = Failed [Line e]) \<or>
    (\<exists>E n b. http_serve R B G E (arriving q segs) (store w) = ((n, b), store w') \<and> res = Printed [Body b])"
  using assms(4) url_ok[OF assms(1,2)] answered[OF assms(1-3)]
  by (fastforce simp: send_def print_body_def assms(3) split: prod.splits sum.splits)

end

section \<open>A loopback network\<close>

text \<open>The gateway at \<open>http://localhost:8080\<close>, files as a map, and nothing else on the network.\<close>

definition local_base :: string where "local_base = ''http://localhost:8080''"

definition local_segments :: "string \<Rightarrow> string list option" where
  "local_segments url =
     (if has_prefix url local_base
      then (case split_on (CHR ''/'') (drop (length local_base) url) of
              [] # segs \<Rightarrow> if segs \<noteq> [] \<and> list_all plain segs then Some segs else None
            | _ \<Rightarrow> None)
      else None)"

definition ref_binders :: binders where
  "ref_binders = \<lparr>bind_register = (\<lambda>_. Inl ''EOF''), 
     bind_login = (\<lambda>b. case b of Some (JObj kvs) \<Rightarrow> Inr (kept_field ''email'' kvs '''', kept_field ''password'' kvs '''') | _ \<Rightarrow> Inl ''EOF''),
     bind_create = (\<lambda>_. Inl ''EOF'')\<rparr>"

definition loopback :: "gateway \<Rightarrow> req_env \<Rightarrow> (db \<times> (string \<Rightarrow> string option)) machine" where
  "loopback G E = \<lparr>mc_url_ok = (\<lambda>_. True),
     mc_do = (\<lambda>q (d, fs). case local_segments (hq_url q) of
        None \<Rightarrow> (Inl ''connection refused'', (d, fs))
      | Some segs \<Rightarrow> (let (rep, d') = http_serve ref_router ref_binders G E (arriving q segs) d in (Inr rep, (d', fs)))),
     mc_read = (\<lambda>p (d, fs). case fs p of None \<Rightarrow> Inl ''no such file'' | Some s \<Rightarrow> Inr s),
     mc_write = (\<lambda>p s (d, fs). (d, fs(p \<mapsto> s)))\<rparr>"

lemma local_segments_path:
  assumes "segs \<noteq> []" "list_all plain segs"
  shows "local_segments (local_base @ slash_path segs) = Some segs"
proof -
  have "\<forall>s \<in> set segs. CHR ''/'' \<notin> set s"
    using assms(2) plain_segment by (auto simp: list_all_iff segment_def)
  then show ?thesis using assms by (simp add: local_segments_def split_slash_path)
qed

lemma http_serve_tokenless:
  assumes "header_value ''Authorization'' (hm_headers q) = ''''" "http_serve R Bn G E q d = (rep, d')"
  shows "(tokenless G)\<^sup>*\<^sup>* d d'"
proof (cases "route_of R Bn q")
  case (Inr r)
  then have "tokenless G d d'"
    using assms unfolding tokenless_def http_serve_def
    by (auto split: prod.splits intro!: exI[of _ "E\<lparr>rq_auth := ''''\<rparr>"])
  then show ?thesis by blast
qed (use assms in \<open>simp add: http_serve_def\<close>)

interpretation loopback: gateway_network "loopback G E" ref_router ref_binders G fst local_base for G E
proof
  show "(tokenless G)\<^sup>*\<^sup>* (fst w) (fst w')"
    if "header_value ''Authorization'' (hq_headers q) = ''''" "mc_do (loopback G E) q w = (res, w')" for q w res w'
    using that http_serve_tokenless[of "arriving q segs" for segs]
    by (auto simp: loopback_def arriving_def Let_def split: prod.splits option.splits)
qed (auto simp: loopback_def local_segments_path split: prod.splits)

section \<open>Properties\<close>

text \<open>
  C16.  Whatever commands a user of the client runs, in any order and with any arguments and addresses, as
  long as no run has \<open>--token\<close>: no function and no version of the gateway changes.  A login in between does not
  help, since no command reads the credentials it saves; and an API key does not, since no route looks at it.
\<close>

theorem cli_without_token_changes_no_function:
  assumes "gateway_network M R B G store base" "\<forall>(F, c) \<in> set cs. cf_bearer F = ''''"
  shows "db_functions (store (cli_session M cs w)) = db_functions (store w) \<and>
    db_versions (store (cli_session M cs w)) = db_versions (store w)"
  using tokenless_run_functions_kept[OF gateway_network.session_no_token[OF assms]] by (simp add: functions_kept_def)

definition key_flags :: cli_flags where
  "key_flags = \<lparr>cf_api = local_base, cf_key = ''nimbus_00'', cf_bearer = ''''\<rparr>"

lemma cli_without_token_changes_no_function_witness:
  "db_functions (fst (cli_session (loopback ref_gateway demo_env)
     [(key_flags, CliLogin ''a@b.c'' ''secret-pw''), (key_flags, CliRollback [''1'', ''2''])] (demo_db, Map.empty))) = [demo_function]"
proof -
  have "\<forall>(F, c) \<in> set [(key_flags, CliLogin ''a@b.c'' ''secret-pw''), (key_flags, CliRollback [''1'', ''2''])]. cf_bearer F = ''''"
    by (simp add: key_flags_def)
  from cli_without_token_changes_no_function[OF loopback.gateway_network_axioms this, of ref_gateway demo_env "(demo_db, Map.empty)"]
  show ?thesis by (simp add: demo_db_def)
qed

text \<open>
  A rollback with an API key instead of a token is refused by the gateway and the store is as before, and
  yet the client ends with status 0, having printed the error as if it were the answer.
\<close>

theorem rollback_with_api_key_refused:
  assumes "gateway_network M R B G store base" "gin_laws R" "cf_api F = base" "cf_bearer F = ''''" "plain f" "plain v"
    and "cli_run M F (CliRollback [f, v]) w = (res, w')" "\<nexists>e. res = Failed [Line e]"
  shows "res = Printed [Body (JsonBody (err_json ''missing authorization header''))] \<and> cli_exit res = 0 \<and> store w' = store w"
proof -
  let ?q = "\<lparr>hq_method = ''POST'', hq_url = cf_api F @ ''/functions/'' @ f @ ''/rollback/'' @ v, hq_headers = api_headers F, hq_body = None\<rparr>"
  let ?segs = "[''functions'', f, ''rollback'', v]"
  have run: "send M ?q print_body w = (res, w')" using assms(7) by (simp add: two_args_def cli_rollback_def)
  have "plain ''functions''" "plain ''rollback''" by (simp_all add: plain_def plain_chars_def)
  then have segs: "list_all plain ?segs" using assms(5,6) by simp
  have url: "hq_url ?q = base @ slash_path ?segs" by (simp add: slash_path_def assms(3))
  obtain E n b where served: "http_serve R B G E (arriving ?q ?segs) (store w) = ((n, b), store w')"
    and res: "res = Printed [Body b]"
    using gateway_network.send_answered[OF assms(1) _ segs url run] assms(8) by auto
  have "list_all segment ?segs" using segs plain_segment by (auto simp: list_all_iff)
  then have "route_of R B (arriving ?q ?segs) = Inr (Rollback f v)"
    by (subst gin_laws.route_of_Inr_iff[OF assms(2), of ?segs]) (simp_all add: arriving_def carried_def)
  then show ?thesis
    using served by (simp add: http_serve_def serve_def protected_route_def recovery_def reply_message_def arriving_def
        api_headers_no_token[OF assms(4)] auth_middleware_empty res cli_exit_def)
qed

lemma rollback_with_api_key_refused_witness:
  "\<exists>res w'. cli_run (loopback ref_gateway demo_env) key_flags (CliRollback [''1'', ''2'']) (demo_db, Map.empty) = (res, w') \<and>
     cli_exit res = 0 \<and> fst w' = demo_db"
proof -
  obtain res w' where run: "cli_run (loopback ref_gateway demo_env) key_flags (CliRollback [''1'', ''2'']) (demo_db, Map.empty) = (res, w')"
    by (metis prod.collapse)
  have segs: "list_all plain [''functions'', ''1'', ''rollback'', ''2'']" by (simp add: plain_def plain_chars_def)
  have "local_segments (local_base @ slash_path [''functions'', ''1'', ''rollback'', ''2'']) = Some [''functions'', ''1'', ''rollback'', ''2'']"
    by (rule local_segments_path[OF _ segs]) simp
  then have "\<nexists>e. res = Failed [Line e]"
    using run by (auto simp: two_args_def cli_rollback_def send_def loopback_def print_body_def key_flags_def slash_path_def
        split: prod.splits)
  moreover have flags: "cf_api key_flags = local_base" "cf_bearer key_flags = ''''" "plain ''1''" "plain ''2''"
    by (simp_all add: key_flags_def plain_def plain_chars_def)
  ultimately show ?thesis
    using rollback_with_api_key_refused[OF loopback.gateway_network_axioms ref_router.gin_laws_axioms flags run] run by auto
qed

text \<open>
  The commands \<open>workers\<close> and \<open>dlq\<close> ask for paths that no route serves: whoever runs them, with a token or not,
  gets the router's own 404 page.
\<close>

theorem workers_and_dlq_have_no_route:
  assumes "gateway_network M R B G store base" "gin_laws R" "cf_api F = base" "c = CliWorkers \<or> c = CliDlq"
    and "cli_run M F c w = (res, w')" "\<nexists>e. res = Failed [Line e]"
  shows "res = Printed [Body (TextBody ''404 page not found'')] \<and> store w' = store w"
proof -
  define p where "p = (if c = CliWorkers then ''workers'' else ''dlq'')"
  let ?q = "\<lparr>hq_method = ''GET'', hq_url = cf_api F @ ''/'' @ p, hq_headers = bearer_headers F, hq_body = None\<rparr>"
  have run: "send M ?q print_body w = (res, w')" using assms(4,5) by (auto simp: cli_workers_def cli_dlq_def p_def)
  have segs: "list_all plain [p]" by (simp add: p_def plain_def plain_chars_def)
  have url: "hq_url ?q = base @ slash_path [p]" by (simp add: slash_path_def assms(3))
  obtain E n b where served: "http_serve R B G E (arriving ?q [p]) (store w) = ((n, b), store w')"
    and res: "res = Printed [Body b]"
    using gateway_network.send_answered[OF assms(1) _ segs url run] assms(6) by auto
  have "list_all segment [p]" using segs plain_segment by simp
  moreover have "route_line r \<noteq> (hm_method (arriving ?q [p]), [p])" for r
    by (cases r) (auto simp: p_def arriving_def)
  ultimately have "route_of R B (arriving ?q [p]) = Inl not_found"
    by (intro gin_laws.route_of_not_found[OF assms(2), of "[p]"]) (auto simp: arriving_def)
  then show ?thesis using served by (simp add: http_serve_def res not_found_def)
qed

lemma workers_and_dlq_have_no_route_witness:
  "fst (cli_run (loopback ref_gateway demo_env) key_flags CliDlq (demo_db, Map.empty)) = Printed [Body (TextBody ''404 page not found'')]"
proof -
  obtain res w' where run: "cli_run (loopback ref_gateway demo_env) key_flags CliDlq (demo_db, Map.empty) = (res, w')"
    by (metis prod.collapse)
  have segs: "list_all plain [''dlq'']" by (simp add: plain_def plain_chars_def)
  have "local_segments (local_base @ slash_path [''dlq'']) = Some [''dlq'']"
    by (rule local_segments_path[OF _ segs]) simp
  then have "\<nexists>e. res = Failed [Line e]"
    using run by (auto simp: cli_dlq_def send_def loopback_def print_body_def key_flags_def slash_path_def split: prod.splits)
  from workers_and_dlq_have_no_route[OF loopback.gateway_network_axioms ref_router.gin_laws_axioms _ _ run this] run
  show ?thesis by (simp add: key_flags_def)
qed

end
