(* ===== verification/Logging.thy ===== *)
theory Logging
  imports GoStd
begin

text \<open>
  \<open>internal/observability/logger.go\<close>: the global logger and the log of an invocation.  The package zap is
  the parameter \<open>zap\<close>, over loggers \<open>'l\<close> and an output \<open>'w\<close>; the global variable \<open>Logger\<close>, nil until
  \<open>InitLogger\<close>, is an option that the functions take and \<open>InitLogger\<close> returns.  A call of a method of the nil
  logger panics, which is the result \<open>None\<close>.
\<close>

section \<open>The package zap\<close>

datatype zap_field = FStr string string | FInt string int | FTime string int

fun field_key :: "zap_field \<Rightarrow> string" where
  "field_key (FStr k _) = k"
| "field_key (FInt k _) = k"
| "field_key (FTime k _) = k"

datatype zap_level = InfoLevel | WarnLevel | ErrorLevel

record zap_config =
  zc_production :: bool
  zc_color_levels :: bool
  zc_time_key :: string
  zc_iso_time :: bool

record ('l, 'w) zap =
  zp_build :: "zap_config \<Rightarrow> string + 'l"
  zp_nop :: 'l
  zp_with :: "'l \<Rightarrow> zap_field list \<Rightarrow> 'l"
  zp_write :: "'l \<Rightarrow> zap_level \<Rightarrow> string \<Rightarrow> zap_field list \<Rightarrow> 'w \<Rightarrow> 'w"
  zp_sync :: "'l \<Rightarrow> 'w \<Rightarrow> 'w"

section \<open>The global logger\<close>

definition logger_config :: "bool \<Rightarrow> zap_config" where
  "logger_config production =
     \<lparr>zc_production = production, zc_color_levels = (\<not> production), zc_time_key = ''timestamp'', zc_iso_time = True\<rparr>"

definition init_logger :: "('l, 'w) zap \<Rightarrow> bool \<Rightarrow> 'l option \<Rightarrow> string option \<times> 'l option" where
  "init_logger Z production logger =
     (case zp_build Z (logger_config production) of Inl e \<Rightarrow> (Some e, logger) | Inr l \<Rightarrow> (None, Some l))"

definition log_sync :: "('l, 'w) zap \<Rightarrow> 'l option \<Rightarrow> 'w \<Rightarrow> 'w" where
  "log_sync Z logger w = (case logger of None \<Rightarrow> w | Some l \<Rightarrow> zp_sync Z l w)"

text \<open>The values of a context that are strings.\<close>

definition context_field :: "(string \<Rightarrow> string option) \<Rightarrow> string \<Rightarrow> zap_field list" where
  "context_field ctx k = (case ctx k of None \<Rightarrow> [] | Some s \<Rightarrow> [FStr k s])"

definition with_context :: "('l, 'w) zap \<Rightarrow> 'l option \<Rightarrow> (string \<Rightarrow> string option) \<Rightarrow> 'l" where
  "with_context Z logger ctx =
     (case logger of
        None \<Rightarrow> zp_nop Z
      | Some l \<Rightarrow> zp_with Z l (context_field ctx ''request_id'' @ context_field ctx ''function_id'' @ context_field ctx ''worker_id''))"

definition log_infra :: "('l, 'w) zap \<Rightarrow> 'l option \<Rightarrow> string \<Rightarrow> string \<Rightarrow> zap_field list \<Rightarrow> 'w \<Rightarrow> 'w option" where
  "log_infra Z logger component event fs w =
     map_option (\<lambda>l. zp_write Z (zp_with Z l [FStr ''component'' component]) InfoLevel event fs w) logger"

section \<open>The log of an invocation\<close>

record 'l invoc_logger =
  il_logger :: 'l
  il_inv :: string
  il_fn :: string
  il_worker :: string

definition new_invoc_logger :: "('l, 'w) zap \<Rightarrow> 'l option \<Rightarrow> string \<Rightarrow> string \<Rightarrow> string \<Rightarrow> 'l invoc_logger option" where
  "new_invoc_logger Z logger iid fn worker =
     map_option (\<lambda>l. \<lparr>il_logger = zp_with Z l [FStr ''invocation_id'' iid, FStr ''function_id'' fn, FStr ''worker_id'' worker],
       il_inv = iid, il_fn = fn, il_worker = worker\<rparr>) logger"

text \<open>Each method takes the time \<open>time.Now()\<close> yields.\<close>

definition log_job_received :: "('l, 'w) zap \<Rightarrow> 'l invoc_logger \<Rightarrow> int \<Rightarrow> 'w \<Rightarrow> 'w" where
  "log_job_received Z l now = zp_write Z (il_logger l) InfoLevel ''job received''
     [FStr ''event'' ''job_received'', FTime ''timestamp'' now]"

definition log_job_started :: "('l, 'w) zap \<Rightarrow> 'l invoc_logger \<Rightarrow> string \<Rightarrow> int \<Rightarrow> 'w \<Rightarrow> 'w" where
  "log_job_started Z l cid now = zp_write Z (il_logger l) InfoLevel ''job started''
     [FStr ''event'' ''job_started'', FStr ''container_id'' cid, FTime ''timestamp'' now]"

definition log_job_completed :: "('l, 'w) zap \<Rightarrow> 'l invoc_logger \<Rightarrow> int \<Rightarrow> int \<Rightarrow> int \<Rightarrow> 'w \<Rightarrow> 'w" where
  "log_job_completed Z l exit_code duration now = zp_write Z (il_logger l) InfoLevel ''job completed''
     [FStr ''event'' ''job_completed'', FInt ''exit_code'' exit_code, FInt ''duration_ms'' duration, FTime ''timestamp'' now]"

definition log_job_failed :: "('l, 'w) zap \<Rightarrow> 'l invoc_logger \<Rightarrow> string \<Rightarrow> int \<Rightarrow> int \<Rightarrow> 'w \<Rightarrow> 'w" where
  "log_job_failed Z l reason duration now = zp_write Z (il_logger l) WarnLevel ''job failed''
     [FStr ''event'' ''job_failed'', FStr ''reason'' reason, FInt ''duration_ms'' duration, FTime ''timestamp'' now]"

definition log_job_timeout :: "('l, 'w) zap \<Rightarrow> 'l invoc_logger \<Rightarrow> int \<Rightarrow> int \<Rightarrow> 'w \<Rightarrow> 'w" where
  "log_job_timeout Z l timeout now = zp_write Z (il_logger l) WarnLevel ''job timed out''
     [FStr ''event'' ''job_timeout'', FInt ''timeout_seconds'' timeout, FTime ''timestamp'' now]"

definition log_retry :: "('l, 'w) zap \<Rightarrow> 'l invoc_logger \<Rightarrow> int \<Rightarrow> int \<Rightarrow> int \<Rightarrow> int \<Rightarrow> 'w \<Rightarrow> 'w" where
  "log_retry Z l attempt max_retries delay now = zp_write Z (il_logger l) InfoLevel ''job retrying''
     [FStr ''event'' ''job_retry'', FInt ''attempt'' attempt, FInt ''max_retries'' max_retries, FInt ''delay_ms'' delay,
      FTime ''timestamp'' now]"

definition log_dlq :: "('l, 'w) zap \<Rightarrow> 'l invoc_logger \<Rightarrow> string \<Rightarrow> int \<Rightarrow> int \<Rightarrow> 'w \<Rightarrow> 'w" where
  "log_dlq Z l reason attempts now = zp_write Z (il_logger l) ErrorLevel ''job moved to DLQ''
     [FStr ''event'' ''job_dlq'', FStr ''reason'' reason, FInt ''attempt_count'' attempts, FTime ''timestamp'' now]"

definition log_container_killed :: "('l, 'w) zap \<Rightarrow> 'l invoc_logger \<Rightarrow> string \<Rightarrow> string \<Rightarrow> int \<Rightarrow> 'w \<Rightarrow> 'w" where
  "log_container_killed Z l signal reason now = zp_write Z (il_logger l) WarnLevel ''container killed''
     [FStr ''event'' ''container_killed'', FStr ''signal'' signal, FStr ''reason'' reason, FTime ''timestamp'' now]"

lemmas log_methods = log_job_received_def log_job_started_def log_job_completed_def log_job_failed_def log_job_timeout_def
  log_retry_def log_dlq_def log_container_killed_def

section \<open>What reaches the output\<close>

text \<open>An entry of the output.\<close>

record zap_entry =
  le_config :: zap_config
  le_level :: zap_level
  le_message :: string
  le_fields :: "zap_field list"

text \<open>
  What the code relies on of zap: a built logger has no fields, \<open>With\<close> adds fields, and a call writes one
  entry with the fields of the logger and its own, or, where sampling or the level leaves it out, none.
  \<open>keys\<close> are the keys of the object an entry is written as; the JSON encoder, which the production
  configuration has, writes the key of the time, when one is configured, beside the keys of all the fields,
  in their order and without removing duplicates.  Nothing is said of the console encoder.
\<close>

locale zap_laws =
  fixes Z :: "('l, 'w) zap" and ctx :: "'l \<Rightarrow> zap_field list" and conf :: "'l \<Rightarrow> zap_config" and written :: "'w \<Rightarrow> zap_entry list"
    and keys :: "zap_entry \<Rightarrow> string list"
  assumes built: "zp_build Z c = Inr l \<Longrightarrow> ctx l = [] \<and> conf l = c"
    and with_fields: "ctx (zp_with Z l fs) = ctx l @ fs \<and> conf (zp_with Z l fs) = conf l"
    and writes: "written (zp_write Z l lv m fs w) = written w \<or>
      written (zp_write Z l lv m fs w) = written w @ [\<lparr>le_config = conf l, le_level = lv, le_message = m, le_fields = ctx l @ fs\<rparr>]"
    and json_keys: "zc_production (le_config e) \<Longrightarrow> zc_time_key (le_config e) \<noteq> '''' \<Longrightarrow>
      \<exists>before after. keys e = before @ map field_key (le_fields e) @ after \<and> zc_time_key (le_config e) \<in> set (before @ after)"

text \<open>Calls of the methods, each with its time.\<close>

datatype log_call =
    JobReceived | JobStarted string | JobCompleted int int | JobFailed string int | JobTimeout int
  | Retry int int int | MovedToDlq string int | ContainerKilled string string

fun log_one :: "('l, 'w) zap \<Rightarrow> 'l invoc_logger \<Rightarrow> log_call \<Rightarrow> int \<Rightarrow> 'w \<Rightarrow> 'w" where
  "log_one Z l JobReceived = log_job_received Z l"
| "log_one Z l (JobStarted c) = log_job_started Z l c"
| "log_one Z l (JobCompleted e d) = log_job_completed Z l e d"
| "log_one Z l (JobFailed r d) = log_job_failed Z l r d"
| "log_one Z l (JobTimeout t) = log_job_timeout Z l t"
| "log_one Z l (Retry a m d) = log_retry Z l a m d"
| "log_one Z l (MovedToDlq r n) = log_dlq Z l r n"
| "log_one Z l (ContainerKilled s r) = log_container_killed Z l s r"

definition log_calls :: "('l, 'w) zap \<Rightarrow> 'l invoc_logger \<Rightarrow> (log_call \<times> int) list \<Rightarrow> 'w \<Rightarrow> 'w" where
  "log_calls Z l cs w = foldl (\<lambda>w (c, now). log_one Z l c now w) w cs"

fun event_of :: "log_call \<Rightarrow> string" where
  "event_of JobReceived = ''job_received''"
| "event_of (JobStarted _) = ''job_started''"
| "event_of (JobCompleted _ _) = ''job_completed''"
| "event_of (JobFailed _ _) = ''job_failed''"
| "event_of (JobTimeout _) = ''job_timeout''"
| "event_of (Retry _ _ _) = ''job_retry''"
| "event_of (MovedToDlq _ _) = ''job_dlq''"
| "event_of (ContainerKilled _ _) = ''container_killed''"

text \<open>The entry of a call: the identifiers of the invocation, then the event, then the rest, then the time.\<close>

definition entry_for :: "string \<Rightarrow> string \<Rightarrow> string \<Rightarrow> log_call \<times> int \<Rightarrow> zap_entry \<Rightarrow> bool" where
  "entry_for iid fn worker cn e \<longleftrightarrow> (\<exists>fs. le_fields e =
     [FStr ''invocation_id'' iid, FStr ''function_id'' fn, FStr ''worker_id'' worker, FStr ''event'' (event_of (fst cn))] @ fs @
     [FTime ''timestamp'' (snd cn)])"

context zap_laws
begin

lemma log_one_output:
  assumes "ctx (il_logger l) = [FStr ''invocation_id'' iid, FStr ''function_id'' fn, FStr ''worker_id'' worker]"
    and "conf (il_logger l) = C"
  shows "\<exists>es. written (log_one Z l c now w) = written w @ es \<and> length es \<le> 1 \<and>
    (\<forall>e \<in> set es. le_config e = C \<and> entry_for iid fn worker (c, now) e)"
proof -
  have one: ?thesis
    if "log_one Z l c now = zp_write Z (il_logger l) lv m (FStr ''event'' (event_of c) # fs @ [FTime ''timestamp'' now])" for lv m fs
    using writes[of "il_logger l" lv m "FStr ''event'' (event_of c) # fs @ [FTime ''timestamp'' now]" w] that assms
    by (auto simp: entry_for_def intro: exI[of _ "[]"])
  show ?thesis
  proof (cases c)
    case JobReceived then show ?thesis using one[of InfoLevel "''job received''" "[]"] by (simp add: log_methods)
  next
    case (JobStarted x) then show ?thesis using one[of InfoLevel "''job started''" "[FStr ''container_id'' x]"] by (simp add: log_methods)
  next
    case (JobCompleted x d)
    then show ?thesis using one[of InfoLevel "''job completed''" "[FInt ''exit_code'' x, FInt ''duration_ms'' d]"] by (simp add: log_methods)
  next
    case (JobFailed r d)
    then show ?thesis using one[of WarnLevel "''job failed''" "[FStr ''reason'' r, FInt ''duration_ms'' d]"] by (simp add: log_methods)
  next
    case (JobTimeout t)
    then show ?thesis using one[of WarnLevel "''job timed out''" "[FInt ''timeout_seconds'' t]"] by (simp add: log_methods)
  next
    case (Retry a m d)
    then show ?thesis
      using one[of InfoLevel "''job retrying''" "[FInt ''attempt'' a, FInt ''max_retries'' m, FInt ''delay_ms'' d]"]
      by (simp add: log_methods)
  next
    case (MovedToDlq r n)
    then show ?thesis using one[of ErrorLevel "''job moved to DLQ''" "[FStr ''reason'' r, FInt ''attempt_count'' n]"] by (simp add: log_methods)
  next
    case (ContainerKilled s r)
    then show ?thesis using one[of WarnLevel "''container killed''" "[FStr ''signal'' s, FStr ''reason'' r]"] by (simp add: log_methods)
  qed
qed

lemma log_calls_output:
  assumes "ctx (il_logger l) = [FStr ''invocation_id'' iid, FStr ''function_id'' fn, FStr ''worker_id'' worker]"
    and "conf (il_logger l) = C"
  shows "\<exists>es. written (log_calls Z l cs w) = written w @ es \<and> length es \<le> length cs \<and>
    (\<forall>e \<in> set es. le_config e = C \<and> (\<exists>cn \<in> set cs. entry_for iid fn worker cn e))"
proof (induction cs arbitrary: w)
  case Nil
  then show ?case by (simp add: log_calls_def)
next
  case (Cons cn cs)
  obtain c now where cn: "cn = (c, now)" by fastforce
  let ?w = "log_one Z l c now w"
  obtain es where es: "written ?w = written w @ es" "length es \<le> 1"
    "\<forall>e \<in> set es. le_config e = C \<and> entry_for iid fn worker (c, now) e"
    using log_one_output[OF assms] by blast
  obtain es' where es': "written (log_calls Z l cs ?w) = written ?w @ es'" "length es' \<le> length cs"
    "\<forall>e \<in> set es'. le_config e = C \<and> (\<exists>cn \<in> set cs. entry_for iid fn worker cn e)"
    using Cons.IH[of ?w] by blast
  have "written (log_calls Z l (cn # cs) w) = written w @ es @ es'"
    using es(1) es'(1) by (simp add: log_calls_def cn)
  moreover have "length (es @ es') \<le> length (cn # cs)" using es(2) es'(2) by simp
  moreover have "\<forall>e \<in> set (es @ es'). le_config e = C \<and> (\<exists>cn' \<in> set (cn # cs). entry_for iid fn worker cn' e)"
    using es(3) es'(3) cn by auto
  ultimately show ?case by blast
qed

end

lemma entry_for_key: "entry_for iid fn worker cn e \<Longrightarrow> ''timestamp'' \<in> set (map field_key (le_fields e))"
  by (auto simp: entry_for_def)

lemma key_twice: "k \<in> set ks \<Longrightarrow> k \<in> set (before @ after) \<Longrightarrow> \<not> distinct (before @ ks @ after)"
  by auto

text \<open>
  A reference instance: a logger is its configuration and fields, every entry is written, and the console
  encoder writes the fields as the only object.
\<close>

definition ref_keys :: "zap_entry \<Rightarrow> string list" where
  "ref_keys e = (if zc_production (le_config e) then [''level'', zc_time_key (le_config e), ''caller'', ''msg''] else []) @
     map field_key (le_fields e)"

definition ref_zap :: "(zap_config \<times> zap_field list, zap_entry list) zap" where
  "ref_zap = \<lparr>zp_build = (\<lambda>c. Inr (c, [])), zp_nop = (logger_config False, []), zp_with = (\<lambda>(c, fs) gs. (c, fs @ gs)),
     zp_write = (\<lambda>(c, fs) lv m gs w. w @ [\<lparr>le_config = c, le_level = lv, le_message = m, le_fields = fs @ gs\<rparr>]),
     zp_sync = (\<lambda>_ w. w)\<rparr>"

interpretation ref_zap: zap_laws ref_zap snd fst "\<lambda>w. w" ref_keys
proof unfold_locales
  show "\<exists>before after. ref_keys e = before @ map field_key (le_fields e) @ after \<and>
      zc_time_key (le_config e) \<in> set (before @ after)" if "zc_production (le_config e)" for e
    using that
    by (intro exI[of _ "[''level'', zc_time_key (le_config e), ''caller'', ''msg'']"] exI[of _ "[]"]) (simp add: ref_keys_def)
qed (auto simp: ref_zap_def split: prod.splits)

section \<open>Properties\<close>

text \<open>
  C36.  The log of an invocation is traceable: after a successful \<open>InitLogger\<close>, an invocation logger exists,
  and every entry its methods write, in any sequence of calls, names the invocation, the function and the
  worker and the event of one of the calls; there is at most one entry for each call.  In production each
  such entry has the key \<open>timestamp\<close> twice, as the time key of the encoder and as a field.
\<close>

theorem invocation_log_is_traceable:
  assumes "zap_laws Z ctx conf written keys" "init_logger Z production g0 = (None, g)"
  shows "\<exists>l. new_invoc_logger Z g iid fn worker = Some l \<and>
    (\<exists>es. written (log_calls Z l cs w) = written w @ es \<and> length es \<le> length cs \<and>
      (\<forall>e \<in> set es. (\<exists>cn \<in> set cs. entry_for iid fn worker cn e) \<and> (production \<longrightarrow> \<not> distinct (keys e))))"
proof -
  obtain z where z: "zp_build Z (logger_config production) = Inr z" "g = Some z"
    using assms(2) by (auto simp: init_logger_def split: sum.splits)
  obtain l where l: "new_invoc_logger Z g iid fn worker = Some l"
    "il_logger l = zp_with Z z [FStr ''invocation_id'' iid, FStr ''function_id'' fn, FStr ''worker_id'' worker]"
    by (simp add: new_invoc_logger_def z(2))
  have c: "ctx (il_logger l) = [FStr ''invocation_id'' iid, FStr ''function_id'' fn, FStr ''worker_id'' worker]"
    "conf (il_logger l) = logger_config production"
    using zap_laws.built[OF assms(1) z(1)] zap_laws.with_fields[OF assms(1)] by (simp_all add: l(2))
  have "\<not> distinct (keys e)" if "le_config e = logger_config production" "entry_for iid fn worker cn e" production for e cn
  proof -
    have "zc_production (le_config e)" "zc_time_key (le_config e) = ''timestamp''"
      using that(1,3) by (simp_all add: logger_config_def)
    then obtain before after where "keys e = before @ map field_key (le_fields e) @ after" "''timestamp'' \<in> set (before @ after)"
      using zap_laws.json_keys[OF assms(1), of e] by auto
    then show ?thesis using key_twice[OF entry_for_key[OF that(2)]] by simp
  qed
  then show ?thesis using zap_laws.log_calls_output[OF assms(1) c, of cs w] l(1) by fastforce
qed

lemma invocation_log_is_traceable_witness:
  "\<exists>l. new_invoc_logger ref_zap (snd (init_logger ref_zap True None)) ''i'' ''f'' ''w'' = Some l \<and>
     (\<forall>e \<in> set (log_calls ref_zap l [(JobReceived, 1), (JobFailed ''oom'' 5, 2)] []). \<not> distinct (ref_keys e))"
proof -
  have "init_logger ref_zap True None = (None, snd (init_logger ref_zap True None))"
    by (simp add: init_logger_def ref_zap_def)
  from invocation_log_is_traceable[OF ref_zap.zap_laws_axioms this, of "''i''" "''f''" "''w''" "[(JobReceived, 1), (JobFailed ''oom'' 5, 2)]" "[]"]
  show ?thesis by auto
qed

end
