(* ===== verification/Spec2Isabelle.thy ===== *)
theory Spec2Isabelle
  imports Access Races Numbering Cluster Fifo Retries Startup Metrics Builder Cli Logging
begin

text \<open>
  NimbusRun, a self-hosted serverless platform in Go: a verification development of its implementation.

  \<^bold>\<open>The program.\<close>  Four processes and two servers they share.  The gateway (\<open>cmd/api-gateway\<close>,
  \<open>internal/http\<close>, \<open>internal/auth\<close>, \<open>internal/repository\<close>) serves the HTTP interface over a PostgreSQL store.  The
  scheduler (\<open>cmd/scheduler\<close>, \<open>internal/scheduler\<close>) reads heartbeats and moves jobs from a Redis stream to the
  streams of workers.  A worker (\<open>cmd/worker\<close>, \<open>internal/worker\<close>) polls a stream, runs each job in a container and
  publishes the result.  The client (\<open>cmd/cli\<close>) sends requests to the gateway.  The invocation service
  (\<open>internal/invocation\<close>, with \<open>internal/retry\<close> and \<open>internal/idempotency\<close>), the image builder
  (\<open>internal/build\<close>), the limits (\<open>internal/isolation\<close>) and metrics and logging (\<open>internal/observability\<close>) are
  packages that no process of the repository uses yet; they are modelled for themselves and the invocation service
  together with the store, the queue and the lock service it calls.

  \<^bold>\<open>The theories.\<close>  Each holds one group of definitions, in the order of the code, and the lemmas about it.

  \<^item> Foundations: \<open>Prelude\<close> (lemmas on lists, options and maps, the fact collections), \<open>GoStd\<close> (64-bit
    integers with their wrap-around, \<open>time\<close>, \<open>strconv\<close>, \<open>strings\<close>, hexadecimal text), \<open>Float64\<close> (binary64: rounding to
    nearest even, infinities and NaN, over the rationals), \<open>Json\<close> (JSON values and the decoding of
    \<open>encoding/json\<close>, case-insensitive keys and repeated keys included), \<open>Models\<close> (\<open>internal/models\<close>).
  \<^item> The store: \<open>Store\<close> (the tables of \<open>migrations/001_init.sql\<close> with their constraints, one function for each SQL
    statement of the code), \<open>Repository\<close> (\<open>internal/repository\<close>: every method, with the calls that fail or lose
    their reply).  A store is the record \<open>db\<close>; its counter of calls lets the server fail any call.
  \<^item> The gateway: \<open>Handlers\<close> (\<open>internal/http/handler\<close>), \<open>Auth\<close> (\<open>internal/auth\<close>, the middleware and the handlers of
    accounts), \<open>Server\<close> (routes by request, middleware, recovery; the gateway as a state machine \<open>api_step\<close>), \<open>Routes\<close> (the
    table \<open>SetupRoutes\<close> registers, over any router that keeps gin's promises), and what they guarantee: \<open>Gateway\<close> (invariants), \<open>Deployments\<close>
    (versions and rollback), \<open>Access\<close> (who may do what), \<open>Races\<close> (deployments and
    invocations that overlap, lists, keys), \<open>Interleaving\<close> (handlers cut at their SQL statements, any number of
    requests in progress; a request that no other overlaps is a run of it, \<open>serve_is_a_run\<close>), \<open>Numbering\<close> (the numbers of
    versions under overlapping deployments).
  \<^item> The queue and the scheduler: \<open>Jobs\<close> (messages and their JSON, \<open>internal/queue/types.go\<close>), \<open>Redis\<close> (the interface to
    the Redis server), \<open>JobQueue\<close> (\<open>internal/queue/redis.go\<close>), \<open>WorkerPool\<close> (the registry of heartbeats and the selection
    of a worker), \<open>Dispatch\<close> (the loops of the scheduler), \<open>Fifo\<close> (the queue against an abstract FIFO, and whole runs of
    the dispatcher), \<open>Worker\<close> (containers, limits, the polling loop), \<open>Cluster\<close> (scheduler, workers and invokers
    interleaved).
  \<^item> Invocations: \<open>Backoff\<close> (the retry policy in binary64), \<open>Idempotency\<close> (cache and lock), \<open>Invocation\<close> (the service and
    the dead-letter queue), \<open>Retries\<close> (rounds of a timer, the run of its job and the processing of the result).
  \<^item> Processes: \<open>Config\<close> and \<open>Settings\<close> (\<open>internal/config\<close>), \<open>Migrations\<close> (\<open>internal/db\<close>), \<open>Startup\<close> (the three
    \<open>main\<close> functions, composed of the above), \<open>Cli\<close> (\<open>cmd/cli\<close>, composed with the gateway).
  \<^item> Further packages: \<open>Builder\<close> (\<open>internal/build\<close>), \<open>Metrics\<close> and \<open>Logging\<close> (\<open>internal/observability\<close>).

  \<^bold>\<open>Conventions.\<close>  A struct is a record with the fields of the struct, in its order; an integer of the code is an \<open>int\<close>
  with \<open>wrap64\<close> where it can leave its range; an error is the left side of a sum, or \<open>Some\<close> message where only an error
  is returned; a panic is a value of its own (\<open>Panicked\<close>, \<open>None\<close>, \<open>NilRequest\<close>).  State is passed explicitly: a store, a
  Redis state, a Docker state.  Iteration over a Go map is over a list in an arbitrary order, and theorems hold for every
  order.  What a call reads of the clock, of random bytes and of \<open>uuid.New\<close> is an argument.

  \<^bold>\<open>Parameters and their laws.\<close>  Packages and servers that are not in the repository are records of functions, and what
  the code relies on of them is a locale, each interpreted on an executable reference instance on which the witnesses
  evaluate: \<open>pg_scans\<close> (rows PostgreSQL returns), \<open>redis_streams\<close>, \<open>redis_keys\<close>, \<open>redis_server\<close>, \<open>redis_groups\<close>, \<open>redis_reliable\<close> (Redis; the
  last is the promise of a server that answers every call), \<open>crypto_laws\<close> (JWT and bcrypt),
  \<open>ext_codec\<close> (the text of identifiers and times), \<open>viper_laws\<close> (viper and its reading of the environment),
  \<open>migration_world\<close> (driver and file system during start), \<open>gin_laws\<close> (gin's router, on paths without empty segments),
  \<open>build_files\<close> and \<open>docker_builds\<close> (the builder; the daemon's answer to a \<open>COPY\<close> of one plain name that the context lacks),
  \<open>prom_laws\<close> (Prometheus, for descriptions it accepts), \<open>zap_laws\<close> (zap and the keys of its JSON encoder),
  \<open>gateway_network\<close> (the network between client and gateway).  Further locales state what
  components promise each other: \<open>api_invariant\<close> (a property the writing statements keep is an invariant of the gateway),
  \<open>keeps\<close>, \<open>load_order\<close>, \<open>worker_registry\<close>, \<open>rounding\<close>.

  \<^bold>\<open>What the theorems show.\<close>  For the gateway: that the invocations are a log of accepted ones, the numbering of versions and that an
  active version is READY, over every reachable store and every pattern of lost calls, the last also with the statements of
  requests interleaved, when the numbers of versions still have no gap but may repeat; the outcome of each handler;
  that a protected route needs a valid access token; that the routing table is exact on paths of non-empty segments; and, since nothing makes a version
  READY, that no invocation is accepted.  For the queue: refinement of an abstract FIFO; no assignment loses a job;
  a backlog is dispatched.  For the whole cluster: no job is ever run, since the groups that are read are not created.
  For the worker: isolation of every container, limits within bounds.  For invocations: the lock excludes, the cache
  returns what was stored, every change \<open>ProcessResult\<close> makes to rows, timers and dead-letter queue, the closed form of the backoff with
  all its rounding, and that fast failures are retried without end, round after round.  For the processes: which settings have an effect, that a gateway
  starts only once on its database, that the published secret admits anyone, that the client without a token
  changes no function.  Where the code does not do what it says, the theorem states what it does.

  \<^bold>\<open>Bounds and fuel.\<close>  No definition needs fuel: the loops of the code that end are structural recursion over the lists
  they iterate, a handler cut at its statements ends by a measure on its stages, and the loops that do not end (tickers) are steps of a relation (\<open>api_step\<close>, \<open>conc_step\<close>, \<open>cluster_step\<close>) or a list of
  rounds (\<open>dispatch_rounds\<close>, \<open>retry_rounds\<close>).  The backoff theorem holds up to attempt \<open>2 ^ 53\<close>, beyond which an attempt
  is not a binary64 number.

  \<^bold>\<open>Not modelled.\<close>  The text of JSON (a value and its text are identified); strings that are not UTF-8; the sign of zero
  and fused multiplication in binary64; time zones; the tables \<open>workers\<close> and \<open>logs\<close>, which no code uses; statements that take
  effect after their caller has gone on (a call whose reply is lost has taken effect or never does); the listener
  of the HTTP server, the text of its log, signals and the printing of the processes; the rendering of metrics; the parsing
  of the command line.  Two files do not compile as they are (\<open>internal/isolation/limits.go\<close> and unused
  variables in \<open>internal/invocation\<close> and \<open>internal/retry\<close>); they are modelled as they read.

  \<^bold>\<open>Next.\<close>  The invocation service and the worker in one machine, with its results read back by \<open>ReadResults\<close>; a crash
  of the scheduler between the statements of an assignment.
\<close>

end
